theory Spec2Isabelle
  imports Main "HOL-Library.Word"
begin

section \<open>Machine integers, identities and the coin ledger\<close>

text \<open>
  The settlement core exists in two variants in the repository: a Move package
  (\<^verbatim>\<open>contracts/sources/chess_escrow.move\<close>, modules \<^verbatim>\<open>escrow\<close> and
  \<^verbatim>\<open>prediction_market\<close>) and two Solidity contracts
  (\<^verbatim>\<open>mantleContracts/contracts/PredictionMarket.sol\<close> and \<^verbatim>\<open>ChessEscrow.sol\<close>, each
  with a Foundry test suite).  Integers keep their widths: Move's \<^verbatim>\<open>u8\<close>/\<^verbatim>\<open>u64\<close>
  and Solidity's \<^verbatim>\<open>uint8\<close>/\<^verbatim>\<open>uint64\<close>/\<^verbatim>\<open>uint256\<close> are words.  Both languages abort
  the transaction on arithmetic overflow, so every \<^verbatim>\<open>+\<close> and \<^verbatim>\<open>*\<close> of the source
  is guarded by a test on the unsigned values and yields an error instead of
  wrapping.
\<close>

type_synonym u8 = "8 word"
type_synonym u64 = "64 word"
type_synonym uint256 = "256 word"

text \<open>A Move account address is 32 bytes; a signer is represented by its address.\<close>

type_synonym maddress = "256 word"

text \<open>
  Aborts of the Move code.  \<open>Abort c\<close> is \<^verbatim>\<open>assert!(_, c)\<close> failing with the module's
  error constant \<open>c\<close>; \<open>MISSING_DATA\<close> is \<^verbatim>\<open>borrow_global\<close> on an address that holds
  no such resource; \<open>ARITHMETIC_ERROR\<close> is an overflowing \<^verbatim>\<open>u64\<close> operation;
  \<open>TABLE_ENOT_FOUND\<close> is \<^verbatim>\<open>table::borrow\<close> of a missing key;
  \<open>EINSUFFICIENT_BALANCE\<close> is the coin framework refusing a withdrawal.
\<close>

datatype move_error =
    Abort u64
  | MISSING_DATA
  | ARITHMETIC_ERROR
  | TABLE_ENOT_FOUND
  | EINSUFFICIENT_BALANCE

definition ENOT_ADMIN :: u64 where "ENOT_ADMIN = 1"
definition EALREADY_DEPOSITED :: u64 where "EALREADY_DEPOSITED = 2"
definition EESCROW_NOT_READY :: u64 where "EESCROW_NOT_READY = 3"
definition EESCROW_NOT_FOUND :: u64 where "EESCROW_NOT_FOUND = 4"
definition EESCROW_ALREADY_EXISTS :: u64 where "EESCROW_ALREADY_EXISTS = 5"

text \<open>
  Modelled from the spec: the funds-transfer primitive.  The source calls
  \<^verbatim>\<open>coin::transfer<AptosCoin>(from, to, amount)\<close>, \<^verbatim>\<open>coin::withdraw\<close> and \<^verbatim>\<open>coin::deposit\<close>
  of the Aptos framework, which is not part of the repository.  As section 1 of the
  specification describes the primitive, it moves \<open>amount\<close> from the payer to the
  payee and fails when the payer's balance is insufficient.  A transfer is a
  withdrawal followed by a deposit, so a transfer to oneself changes nothing.
  Account balances are natural numbers.
\<close>

type_synonym coin_ledger = "maddress \<Rightarrow> nat"

definition coin_withdraw :: "coin_ledger \<Rightarrow> maddress \<Rightarrow> u64 \<Rightarrow> move_error + coin_ledger" where
  "coin_withdraw bal from amt =
     (if bal from < unat amt then Inl EINSUFFICIENT_BALANCE
      else Inr (bal(from := bal from - unat amt)))"

definition coin_deposit :: "coin_ledger \<Rightarrow> maddress \<Rightarrow> u64 \<Rightarrow> coin_ledger" where
  "coin_deposit bal to amt = bal(to := bal to + unat amt)"

definition coin_transfer ::
  "coin_ledger \<Rightarrow> maddress \<Rightarrow> maddress \<Rightarrow> u64 \<Rightarrow> move_error + coin_ledger" where
  "coin_transfer bal from to amt =
     (case coin_withdraw bal from amt of
        Inl e \<Rightarrow> Inl e
      | Inr bal' \<Rightarrow> Inr (coin_deposit bal' to amt))"

section \<open>Move module \<^verbatim>\<open>chess_escrow::escrow\<close>\<close>

text \<open>
  \<^verbatim>\<open>struct Escrow { admin, player1, player2, amount, total, deposited1, deposited2 }\<close>.
  The field names carry the prefix \<open>e_\<close> where the market structures below use the
  same name.
\<close>

record Escrow =
  e_admin :: maddress
  e_player1 :: maddress
  e_player2 :: maddress
  amount :: u64
  total :: u64
  deposited1 :: bool
  deposited2 :: bool

text \<open>
  \<^verbatim>\<open>struct EscrowStore has key { escrows: Table<u64, Escrow> }\<close> is a resource stored
  under the address of the administrator who called \<^verbatim>\<open>initialize\<close>.  Global storage
  maps an address to the resource it holds, if any; the one-field struct is
  identified with its table.
\<close>

type_synonym EscrowStore = "u64 \<rightharpoonup> Escrow"

record escrow_state =
  escrow_stores :: "maddress \<rightharpoonup> EscrowStore"
  coin_balance :: coin_ledger

definition escrow_initialize :: "escrow_state \<Rightarrow> maddress \<Rightarrow> move_error + escrow_state" where
  "escrow_initialize s admin_addr =
     (if escrow_stores s admin_addr = None
      then Inr (s\<lparr>escrow_stores := (escrow_stores s)(admin_addr \<mapsto> Map.empty)\<rparr>)
      else Inr s)"

definition create_escrow ::
  "escrow_state \<Rightarrow> maddress \<Rightarrow> u64 \<Rightarrow> maddress \<Rightarrow> maddress \<Rightarrow> u64 \<Rightarrow> move_error + escrow_state" where
  "create_escrow s admin_addr match_id player1 player2 amt =
     (case escrow_stores s admin_addr of
        None \<Rightarrow> Inl MISSING_DATA
      | Some store \<Rightarrow>
          if store match_id \<noteq> None then Inl (Abort EESCROW_ALREADY_EXISTS)
          else Inr (s\<lparr>escrow_stores := (escrow_stores s)(admin_addr \<mapsto>
                 store(match_id \<mapsto>
                   \<lparr>e_admin = admin_addr, e_player1 = player1, e_player2 = player2,
                    amount = amt, total = 0, deposited1 = False, deposited2 = False\<rparr>))\<rparr>))"

text \<open>
  \<^verbatim>\<open>deposit(player, admin, match_id)\<close>: the stake is transferred to the account of
  \<open>admin\<close>, which is where escrowed funds are held.  The \<^verbatim>\<open>if\<close>/\<^verbatim>\<open>else if\<close> has no
  final \<^verbatim>\<open>else\<close>: a sender who is neither player falls through and the call returns.
\<close>

definition deposit ::
  "escrow_state \<Rightarrow> maddress \<Rightarrow> maddress \<Rightarrow> u64 \<Rightarrow> move_error + escrow_state" where
  "deposit s sender admin match_id =
     (case escrow_stores s admin of
        None \<Rightarrow> Inl MISSING_DATA
      | Some store \<Rightarrow>
          (case store match_id of
             None \<Rightarrow> Inl (Abort EESCROW_NOT_FOUND)
           | Some escrow \<Rightarrow>
               if sender = e_player1 escrow then
                 if deposited1 escrow then Inl (Abort EALREADY_DEPOSITED)
                 else (case coin_transfer (coin_balance s) sender admin (amount escrow) of
                    Inl e \<Rightarrow> Inl e
                  | Inr bal' \<Rightarrow>
                      if 2 ^ 64 \<le> unat (total escrow) + unat (amount escrow)
                      then Inl ARITHMETIC_ERROR
                      else Inr (s\<lparr>escrow_stores := (escrow_stores s)(admin \<mapsto>
                             store(match_id \<mapsto> escrow\<lparr>deposited1 := True,
                               total := total escrow + amount escrow\<rparr>)),
                             coin_balance := bal'\<rparr>))
               else if sender = e_player2 escrow then
                 if deposited2 escrow then Inl (Abort EALREADY_DEPOSITED)
                 else (case coin_transfer (coin_balance s) sender admin (amount escrow) of
                    Inl e \<Rightarrow> Inl e
                  | Inr bal' \<Rightarrow>
                      if 2 ^ 64 \<le> unat (total escrow) + unat (amount escrow)
                      then Inl ARITHMETIC_ERROR
                      else Inr (s\<lparr>escrow_stores := (escrow_stores s)(admin \<mapsto>
                             store(match_id \<mapsto> escrow\<lparr>deposited2 := True,
                               total := total escrow + amount escrow\<rparr>)),
                             coin_balance := bal'\<rparr>))
               else Inr s))"

text \<open>
  \<^verbatim>\<open>resolve_win(admin, match_id, winner)\<close>: \<^verbatim>\<open>fee = total * 5 / 100\<close>,
  \<^verbatim>\<open>payout = total - fee\<close>; one transfer, from the administrator's account to
  \<open>winner\<close>; the fee is what stays behind in the administrator's account.
\<close>

definition resolve_win ::
  "escrow_state \<Rightarrow> maddress \<Rightarrow> u64 \<Rightarrow> maddress \<Rightarrow> move_error + escrow_state" where
  "resolve_win s admin_addr match_id winner =
     (case escrow_stores s admin_addr of
        None \<Rightarrow> Inl MISSING_DATA
      | Some store \<Rightarrow>
          (case store match_id of
             None \<Rightarrow> Inl (Abort EESCROW_NOT_FOUND)
           | Some escrow \<Rightarrow>
               if admin_addr \<noteq> e_admin escrow then Inl (Abort ENOT_ADMIN)
               else if \<not> (deposited1 escrow \<and> deposited2 escrow) then Inl (Abort EESCROW_NOT_READY)
               else if 2 ^ 64 \<le> unat (total escrow) * 5 then Inl ARITHMETIC_ERROR
               else
                 let fee = total escrow * 5 div 100;
                     payout = total escrow - fee
                 in (case coin_transfer (coin_balance s) admin_addr winner payout of
                       Inl e \<Rightarrow> Inl e
                     | Inr bal' \<Rightarrow>
                         Inr (s\<lparr>escrow_stores := (escrow_stores s)(admin_addr \<mapsto>
                                store(match_id := None)),
                                coin_balance := bal'\<rparr>))))"

text \<open>
  \<^verbatim>\<open>resolve_draw(admin, match_id)\<close>: \<^verbatim>\<open>split = (total - fee) / 2\<close> goes from the
  administrator's account to each player, in the source's order.
\<close>

definition resolve_draw ::
  "escrow_state \<Rightarrow> maddress \<Rightarrow> u64 \<Rightarrow> move_error + escrow_state" where
  "resolve_draw s admin_addr match_id =
     (case escrow_stores s admin_addr of
        None \<Rightarrow> Inl MISSING_DATA
      | Some store \<Rightarrow>
          (case store match_id of
             None \<Rightarrow> Inl (Abort EESCROW_NOT_FOUND)
           | Some escrow \<Rightarrow>
               if admin_addr \<noteq> e_admin escrow then Inl (Abort ENOT_ADMIN)
               else if \<not> (deposited1 escrow \<and> deposited2 escrow) then Inl (Abort EESCROW_NOT_READY)
               else if 2 ^ 64 \<le> unat (total escrow) * 5 then Inl ARITHMETIC_ERROR
               else
                 let fee = total escrow * 5 div 100;
                     remaining = total escrow - fee;
                     split = remaining div 2
                 in (case coin_transfer (coin_balance s) admin_addr (e_player1 escrow) split of
                       Inl e \<Rightarrow> Inl e
                     | Inr bal1 \<Rightarrow>
                        (case coin_transfer bal1 admin_addr (e_player2 escrow) split of
                           Inl e \<Rightarrow> Inl e
                         | Inr bal2 \<Rightarrow>
                             Inr (s\<lparr>escrow_stores := (escrow_stores s)(admin_addr \<mapsto>
                                    store(match_id := None)),
                                    coin_balance := bal2\<rparr>)))))"

text \<open>
  Transactions against the module.  A transaction that aborts is rolled back, so a
  history of calls leaves the state of the last successful one.
\<close>

datatype escrow_call =
    Initialize maddress
  | CreateEscrow maddress u64 maddress maddress u64
  | Deposit maddress maddress u64
  | ResolveWin maddress u64 maddress
  | ResolveDraw maddress u64

fun escrow_exec :: "escrow_state \<Rightarrow> escrow_call \<Rightarrow> move_error + escrow_state" where
  "escrow_exec s (Initialize a) = escrow_initialize s a"
| "escrow_exec s (CreateEscrow a m p1 p2 amt) = create_escrow s a m p1 p2 amt"
| "escrow_exec s (Deposit p a m) = deposit s p a m"
| "escrow_exec s (ResolveWin a m w) = resolve_win s a m w"
| "escrow_exec s (ResolveDraw a m) = resolve_draw s a m"

fun escrow_run :: "escrow_state \<Rightarrow> escrow_call list \<Rightarrow> escrow_state" where
  "escrow_run s [] = s"
| "escrow_run s (c # cs) =
     escrow_run (case escrow_exec s c of Inl e \<Rightarrow> s | Inr s' \<Rightarrow> s') cs"


section \<open>Move module \<^verbatim>\<open>chess_escrow::prediction_market\<close>\<close>

definition EMARKET_NOT_FOUND :: u64 where "EMARKET_NOT_FOUND = 2"
definition EMARKET_ALREADY_EXISTS :: u64 where "EMARKET_ALREADY_EXISTS = 3"
definition EMARKET_ALREADY_RESOLVED :: u64 where "EMARKET_ALREADY_RESOLVED = 4"
definition EINVALID_OUTCOME :: u64 where "EINVALID_OUTCOME = 5"
definition EZERO_BET :: u64 where "EZERO_BET = 6"
definition ENOT_RESOLVED :: u64 where "ENOT_RESOLVED = 7"
definition ENO_SHARES :: u64 where "ENO_SHARES = 8"
definition EALREADY_CLAIMED :: u64 where "EALREADY_CLAIMED = 9"

text \<open>Outcome and status codes; the Solidity contract declares the same constants.\<close>

definition OUTCOME_PLAYER1 :: u8 where "OUTCOME_PLAYER1 = 1"
definition OUTCOME_PLAYER2 :: u8 where "OUTCOME_PLAYER2 = 2"
definition OUTCOME_DRAW :: u8 where "OUTCOME_DRAW = 3"
definition STATUS_ACTIVE :: u8 where "STATUS_ACTIVE = 1"
definition STATUS_RESOLVED :: u8 where "STATUS_RESOLVED = 2"

text \<open>Checked \<^verbatim>\<open>u64\<close> arithmetic: the Move VM aborts instead of wrapping.\<close>

definition u64_add :: "u64 \<Rightarrow> u64 \<Rightarrow> move_error + u64" where
  "u64_add a b = (if unat a + unat b < 2 ^ 64 then Inr (a + b) else Inl ARITHMETIC_ERROR)"

definition u64_mul :: "u64 \<Rightarrow> u64 \<Rightarrow> move_error + u64" where
  "u64_mul a b = (if unat a * unat b < 2 ^ 64 then Inr (a * b) else Inl ARITHMETIC_ERROR)"

text \<open>
  \<^verbatim>\<open>struct Market\<close>.  The field \<^verbatim>\<open>pool: Coin<AptosCoin>\<close> holds the staked coins inside
  the record; \<open>m_pool\<close> is its value (\<^verbatim>\<open>coin::value\<close>), a \<^verbatim>\<open>u64\<close> which \<^verbatim>\<open>coin::merge\<close>
  raises (an overflowing sum aborts) and \<^verbatim>\<open>coin::extract\<close> lowers (it aborts when
  the coin holds less).  The other field names carry the prefix \<open>m_\<close> where the
  escrow or the Solidity struct uses the same name.
\<close>

record Market =
  m_admin :: maddress
  match_id :: u64
  m_player1 :: maddress
  m_player2 :: maddress
  m_status :: u8
  winning_outcome :: u8
  m_pool :: u64
  original_pool_size :: u64
  player1_shares :: u64
  player2_shares :: u64
  draw_shares :: u64

text \<open>
  The three resources \<^verbatim>\<open>MarketStore\<close>, \<^verbatim>\<open>OutcomeSharesStore\<close> and \<^verbatim>\<open>ClaimTrackingStore\<close>
  live under the administrator's address.  Each is a struct around one table, as are
  \<^verbatim>\<open>UserShares\<close> and \<^verbatim>\<open>ClaimStatus\<close>; they are identified with their tables.
\<close>

type_synonym UserShares = "maddress \<rightharpoonup> u64"
type_synonym ClaimStatus = "maddress \<rightharpoonup> bool"
type_synonym MarketStore = "u64 \<rightharpoonup> Market"
type_synonym OutcomeSharesStore = "u64 \<rightharpoonup> (u8 \<rightharpoonup> UserShares)"
type_synonym ClaimTrackingStore = "u64 \<rightharpoonup> ClaimStatus"

record market_state =
  market_stores :: "maddress \<rightharpoonup> MarketStore"
  shares_stores :: "maddress \<rightharpoonup> OutcomeSharesStore"
  claim_stores :: "maddress \<rightharpoonup> ClaimTrackingStore"
  coin_store :: coin_ledger

definition pm_initialize :: "market_state \<Rightarrow> maddress \<Rightarrow> move_error + market_state" where
  "pm_initialize s admin_addr =
     (let s1 = (if market_stores s admin_addr = None
                then s\<lparr>market_stores := (market_stores s)(admin_addr \<mapsto> Map.empty)\<rparr> else s);
          s2 = (if shares_stores s1 admin_addr = None
                then s1\<lparr>shares_stores := (shares_stores s1)(admin_addr \<mapsto> Map.empty)\<rparr> else s1);
          s3 = (if claim_stores s2 admin_addr = None
                then s2\<lparr>claim_stores := (claim_stores s2)(admin_addr \<mapsto> Map.empty)\<rparr> else s2)
      in Inr s3)"

definition create_market ::
  "market_state \<Rightarrow> maddress \<Rightarrow> u64 \<Rightarrow> maddress \<Rightarrow> maddress \<Rightarrow> move_error + market_state" where
  "create_market s admin_addr mid player1 player2 =
     (case market_stores s admin_addr of
        None \<Rightarrow> Inl MISSING_DATA
      | Some store \<Rightarrow>
          if store mid \<noteq> None then Inl (Abort EMARKET_ALREADY_EXISTS)
          else Inr (s\<lparr>market_stores := (market_stores s)(admin_addr \<mapsto> store(mid \<mapsto>
                 \<lparr>m_admin = admin_addr, match_id = mid, m_player1 = player1,
                  m_player2 = player2, m_status = STATUS_ACTIVE, winning_outcome = 0,
                  m_pool = 0, original_pool_size = 0, player1_shares = 0,
                  player2_shares = 0, draw_shares = 0\<rparr>))\<rparr>))"

text \<open>
  The \<^verbatim>\<open>if\<close>/\<^verbatim>\<open>else if\<close>/\<^verbatim>\<open>else\<close> of \<^verbatim>\<open>bet\<close> that raises the total of the chosen
  outcome (source lines 282 to 288).
\<close>

definition add_outcome_shares :: "Market \<Rightarrow> u8 \<Rightarrow> u64 \<Rightarrow> move_error + Market" where
  "add_outcome_shares market outcome amt =
     (if outcome = OUTCOME_PLAYER1 then
        (case u64_add (player1_shares market) amt of
           Inl e \<Rightarrow> Inl e | Inr v \<Rightarrow> Inr (market\<lparr>player1_shares := v\<rparr>))
      else if outcome = OUTCOME_PLAYER2 then
        (case u64_add (player2_shares market) amt of
           Inl e \<Rightarrow> Inl e | Inr v \<Rightarrow> Inr (market\<lparr>player2_shares := v\<rparr>))
      else
        (case u64_add (draw_shares market) amt of
           Inl e \<Rightarrow> Inl e | Inr v \<Rightarrow> Inr (market\<lparr>draw_shares := v\<rparr>)))"

text \<open>
  The user-share update of \<^verbatim>\<open>bet\<close> (source lines 291 to 310): missing tables and a
  missing entry are created on the way, then the entry is raised by the amount.
\<close>

definition add_user_shares ::
  "OutcomeSharesStore \<Rightarrow> u64 \<Rightarrow> u8 \<Rightarrow> maddress \<Rightarrow> u64 \<Rightarrow> move_error + OutcomeSharesStore" where
  "add_user_shares shares mid outcome user_addr amt =
     (let outcome_table = (case shares mid of None \<Rightarrow> Map.empty | Some t \<Rightarrow> t);
          user_shares = (case outcome_table outcome of None \<Rightarrow> Map.empty | Some t \<Rightarrow> t);
          current_shares = (case user_shares user_addr of None \<Rightarrow> 0 | Some v \<Rightarrow> v)
      in case u64_add current_shares amt of
           Inl e \<Rightarrow> Inl e
         | Inr v \<Rightarrow> Inr (shares(mid \<mapsto> outcome_table(outcome \<mapsto> user_shares(user_addr \<mapsto> v)))))"

definition pm_bet ::
  "market_state \<Rightarrow> maddress \<Rightarrow> maddress \<Rightarrow> u64 \<Rightarrow> u8 \<Rightarrow> u64 \<Rightarrow> move_error + market_state" where
  "pm_bet s user_addr admin mid outcome amt =
     (if \<not> (outcome = OUTCOME_PLAYER1 \<or> outcome = OUTCOME_PLAYER2 \<or> outcome = OUTCOME_DRAW)
      then Inl (Abort EINVALID_OUTCOME)
      else if \<not> 0 < amt then Inl (Abort EZERO_BET)
      else case market_stores s admin of
        None \<Rightarrow> Inl MISSING_DATA
      | Some store \<Rightarrow>
         (case store mid of
            None \<Rightarrow> Inl (Abort EMARKET_NOT_FOUND)
          | Some market \<Rightarrow>
              if m_status market \<noteq> STATUS_ACTIVE then Inl (Abort EMARKET_ALREADY_RESOLVED)
              else case coin_withdraw (coin_store s) user_addr amt of
                Inl e \<Rightarrow> Inl e
              | Inr coins' \<Rightarrow>
                 (case u64_add (m_pool market) amt of
                    Inl e \<Rightarrow> Inl e
                  | Inr pool' \<Rightarrow>
                     (case add_outcome_shares (market\<lparr>m_pool := pool'\<rparr>) outcome amt of
                        Inl e \<Rightarrow> Inl e
                      | Inr market' \<Rightarrow>
                         (case shares_stores s admin of
                            None \<Rightarrow> Inl MISSING_DATA
                          | Some shares \<Rightarrow>
                             (case add_user_shares shares mid outcome user_addr amt of
                                Inl e \<Rightarrow> Inl e
                              | Inr shares' \<Rightarrow>
                                  Inr (s\<lparr>market_stores := (market_stores s)(admin \<mapsto>
                                           store(mid \<mapsto> market')),
                                         shares_stores := (shares_stores s)(admin \<mapsto> shares'),
                                         coin_store := coins'\<rparr>)))))))"

definition resolve_market ::
  "market_state \<Rightarrow> maddress \<Rightarrow> u64 \<Rightarrow> u8 \<Rightarrow> move_error + market_state" where
  "resolve_market s admin_addr mid outcome =
     (case market_stores s admin_addr of
        None \<Rightarrow> Inl MISSING_DATA
      | Some store \<Rightarrow>
         (case store mid of
            None \<Rightarrow> Inl (Abort EMARKET_NOT_FOUND)
          | Some market \<Rightarrow>
              if \<not> (outcome = OUTCOME_PLAYER1 \<or> outcome = OUTCOME_PLAYER2 \<or> outcome = OUTCOME_DRAW)
              then Inl (Abort EINVALID_OUTCOME)
              else if admin_addr \<noteq> m_admin market then Inl (Abort ENOT_ADMIN)
              else if m_status market \<noteq> STATUS_ACTIVE then Inl (Abort EMARKET_ALREADY_RESOLVED)
              else case claim_stores s admin_addr of
                None \<Rightarrow> Inl MISSING_DATA
              | Some claims \<Rightarrow>
                  Inr (s\<lparr>market_stores := (market_stores s)(admin_addr \<mapsto> store(mid \<mapsto>
                           market\<lparr>m_status := STATUS_RESOLVED, winning_outcome := outcome,
                                  original_pool_size := m_pool market\<rparr>)),
                         claim_stores := (claim_stores s)(admin_addr \<mapsto>
                           (if claims mid = None then claims(mid \<mapsto> Map.empty) else claims))\<rparr>)))"

text \<open>
  Two expressions occur twice in the module, in \<^verbatim>\<open>claim_rewards\<close> and in
  \<^verbatim>\<open>get_potential_reward\<close>: the \<^verbatim>\<open>if\<close>/\<^verbatim>\<open>else if\<close>/\<^verbatim>\<open>else\<close> that picks the total of
  an outcome (any code other than 1 and 2 reads the draw total), and the reward
  \<^verbatim>\<open>(shares * pool) / outcome_shares\<close>, whose product is formed in \<^verbatim>\<open>u64\<close> first.
\<close>

definition outcome_shares_of :: "Market \<Rightarrow> u8 \<Rightarrow> u64" where
  "outcome_shares_of market outcome =
     (if outcome = OUTCOME_PLAYER1 then player1_shares market
      else if outcome = OUTCOME_PLAYER2 then player2_shares market
      else draw_shares market)"

definition reward_of :: "u64 \<Rightarrow> u64 \<Rightarrow> u64 \<Rightarrow> move_error + u64" where
  "reward_of shares pool_size outcome_shares =
     (case u64_mul shares pool_size of
        Inl e \<Rightarrow> Inl e
      | Inr product \<Rightarrow> Inr (product div outcome_shares))"

text \<open>
  \<^verbatim>\<open>claim_rewards(user, admin, match_id)\<close>.  The reward is
  \<^verbatim>\<open>(user_share_amount * total_pool) / winning_outcome_shares\<close> with
  \<^verbatim>\<open>total_pool = market.original_pool_size\<close>.  The coins
  are taken out of the record's pool (\<^verbatim>\<open>coin::extract\<close> aborts when the pool holds
  less) and deposited with the user.
\<close>

definition claim_rewards ::
  "market_state \<Rightarrow> maddress \<Rightarrow> maddress \<Rightarrow> u64 \<Rightarrow> move_error + market_state" where
  "claim_rewards s user_addr admin mid =
     (case market_stores s admin of
        None \<Rightarrow> Inl MISSING_DATA
      | Some store \<Rightarrow>
      (case store mid of
        None \<Rightarrow> Inl (Abort EMARKET_NOT_FOUND)
      | Some market \<Rightarrow>
      if m_status market \<noteq> STATUS_RESOLVED then Inl (Abort ENOT_RESOLVED)
      else if winning_outcome market = 0 then Inl (Abort ENOT_RESOLVED)
      else case claim_stores s admin of
        None \<Rightarrow> Inl MISSING_DATA
      | Some claims \<Rightarrow>
      (case claims mid of
        None \<Rightarrow> Inl TABLE_ENOT_FOUND
      | Some claim_status \<Rightarrow>
      if claim_status user_addr = Some True then Inl (Abort EALREADY_CLAIMED)
      else case shares_stores s admin of
        None \<Rightarrow> Inl MISSING_DATA
      | Some shares \<Rightarrow>
      (case shares mid of
        None \<Rightarrow> Inl (Abort EMARKET_NOT_FOUND)
      | Some outcome_table \<Rightarrow>
      (case outcome_table (winning_outcome market) of
        None \<Rightarrow> Inl (Abort EMARKET_NOT_FOUND)
      | Some user_shares \<Rightarrow>
      (case user_shares user_addr of
        None \<Rightarrow> Inl (Abort ENO_SHARES)
      | Some user_share_amount \<Rightarrow>
      if \<not> 0 < user_share_amount then Inl (Abort ENO_SHARES)
      else
        let winning_outcome_shares = outcome_shares_of market (winning_outcome market)
        in if \<not> 0 < winning_outcome_shares then Inl (Abort ENO_SHARES)
        else case reward_of user_share_amount (original_pool_size market)
                    winning_outcome_shares of
          Inl e \<Rightarrow> Inl e
        | Inr reward \<Rightarrow>
               if m_pool market < reward then Inl EINSUFFICIENT_BALANCE
               else Inr (s\<lparr>market_stores := (market_stores s)(admin \<mapsto> store(mid \<mapsto>
                              market\<lparr>m_pool := m_pool market - reward\<rparr>)),
                            shares_stores := (shares_stores s)(admin \<mapsto> shares(mid \<mapsto>
                              outcome_table(winning_outcome market \<mapsto>
                                user_shares(user_addr := None)))),
                            claim_stores := (claim_stores s)(admin \<mapsto> claims(mid \<mapsto>
                              claim_status(user_addr \<mapsto> True))),
                            coin_store := coin_deposit (coin_store s) user_addr reward\<rparr>)))))))"

subsection \<open>Read functions of the Move market\<close>

definition get_market_stats ::
  "market_state \<Rightarrow> maddress \<Rightarrow> u64 \<Rightarrow> move_error + (u8 \<times> u8 \<times> u64 \<times> u64 \<times> u64 \<times> u64)" where
  "get_market_stats s admin mid =
     (case market_stores s admin of
        None \<Rightarrow> Inl MISSING_DATA
      | Some store \<Rightarrow>
         (case store mid of
            None \<Rightarrow> Inl (Abort EMARKET_NOT_FOUND)
          | Some market \<Rightarrow>
              Inr (m_status market, winning_outcome market, m_pool market,
                   player1_shares market, player2_shares market, draw_shares market)))"

definition get_user_shares ::
  "market_state \<Rightarrow> maddress \<Rightarrow> u64 \<Rightarrow> u8 \<Rightarrow> maddress \<Rightarrow> move_error + u64" where
  "get_user_shares s admin mid outcome user =
     (case shares_stores s admin of
        None \<Rightarrow> Inl MISSING_DATA
      | Some shares \<Rightarrow>
         (case shares mid of
            None \<Rightarrow> Inr 0
          | Some outcome_table \<Rightarrow>
             (case outcome_table outcome of
                None \<Rightarrow> Inr 0
              | Some user_shares \<Rightarrow>
                 (case user_shares user of None \<Rightarrow> Inr 0 | Some v \<Rightarrow> Inr v))))"

definition has_claimed :: "market_state \<Rightarrow> maddress \<Rightarrow> u64 \<Rightarrow> maddress \<Rightarrow> move_error + bool" where
  "has_claimed s admin mid user =
     (case claim_stores s admin of
        None \<Rightarrow> Inl MISSING_DATA
      | Some claims \<Rightarrow>
         (case claims mid of
            None \<Rightarrow> Inr False
          | Some claim_status \<Rightarrow>
             (case claim_status user of None \<Rightarrow> Inr False | Some b \<Rightarrow> Inr b)))"

text \<open>
  \<^verbatim>\<open>get_potential_reward\<close> takes \<^verbatim>\<open>coin::value(&market.pool)\<close> as the pool in every
  status; it never reads \<^verbatim>\<open>original_pool_size\<close>.
\<close>

definition get_potential_reward ::
  "market_state \<Rightarrow> maddress \<Rightarrow> u64 \<Rightarrow> u8 \<Rightarrow> maddress \<Rightarrow> move_error + u64" where
  "get_potential_reward s admin mid outcome user =
     (case market_stores s admin of
        None \<Rightarrow> Inl MISSING_DATA
      | Some store \<Rightarrow>
         (case store mid of
            None \<Rightarrow> Inr 0
          | Some market \<Rightarrow>
             (case get_user_shares s admin mid outcome user of
                Inl e \<Rightarrow> Inl e
              | Inr user_shares \<Rightarrow>
                  if user_shares = 0 then Inr 0
                  else if m_status market = STATUS_RESOLVED \<and> winning_outcome market \<noteq> outcome
                  then Inr 0
                  else
                    let outcome_shares = outcome_shares_of market outcome
                    in if outcome_shares = 0 then Inr 0
                       else reward_of user_shares (m_pool market) outcome_shares)))"

definition get_user_all_shares ::
  "market_state \<Rightarrow> maddress \<Rightarrow> u64 \<Rightarrow> maddress \<Rightarrow> move_error + (u64 \<times> u64 \<times> u64)" where
  "get_user_all_shares s admin mid user =
     (case get_user_shares s admin mid OUTCOME_PLAYER1 user of
        Inl e \<Rightarrow> Inl e
      | Inr a \<Rightarrow>
         (case get_user_shares s admin mid OUTCOME_PLAYER2 user of
            Inl e \<Rightarrow> Inl e
          | Inr b \<Rightarrow>
             (case get_user_shares s admin mid OUTCOME_DRAW user of
                Inl e \<Rightarrow> Inl e
              | Inr c \<Rightarrow> Inr (a, b, c))))"

definition market_exists :: "market_state \<Rightarrow> maddress \<Rightarrow> u64 \<Rightarrow> move_error + bool" where
  "market_exists s admin mid =
     (case market_stores s admin of
        None \<Rightarrow> Inl MISSING_DATA
      | Some store \<Rightarrow> Inr (store mid \<noteq> None))"

definition get_market_admin :: "market_state \<Rightarrow> maddress \<Rightarrow> u64 \<Rightarrow> move_error + maddress" where
  "get_market_admin s admin mid =
     (case market_stores s admin of
        None \<Rightarrow> Inl MISSING_DATA
      | Some store \<Rightarrow>
         (case store mid of
            None \<Rightarrow> Inl (Abort EMARKET_NOT_FOUND)
          | Some market \<Rightarrow> Inr (m_admin market)))"

text \<open>Transactions against the module; an aborted one leaves the state as it was.\<close>

datatype pm_call =
    PmInitialize maddress
  | CreateMarket maddress u64 maddress maddress
  | Bet maddress maddress u64 u8 u64
  | ResolveMarket maddress u64 u8
  | ClaimRewards maddress maddress u64

fun pm_exec :: "market_state \<Rightarrow> pm_call \<Rightarrow> move_error + market_state" where
  "pm_exec s (PmInitialize a) = pm_initialize s a"
| "pm_exec s (CreateMarket a m p1 p2) = create_market s a m p1 p2"
| "pm_exec s (Bet u a m outcome amt) = pm_bet s u a m outcome amt"
| "pm_exec s (ResolveMarket a m outcome) = resolve_market s a m outcome"
| "pm_exec s (ClaimRewards u a m) = claim_rewards s u a m"

fun pm_run :: "market_state \<Rightarrow> pm_call list \<Rightarrow> market_state" where
  "pm_run s [] = s"
| "pm_run s (c # cs) = pm_run (case pm_exec s c of Inl e \<Rightarrow> s | Inr s' \<Rightarrow> s') cs"

section \<open>Solidity contract \<^verbatim>\<open>PredictionMarket\<close>\<close>

type_synonym address = "160 word"

text \<open>
  Reverts of the two Solidity contracts: the nine custom errors of
  \<^verbatim>\<open>PredictionMarket\<close> and the five of \<^verbatim>\<open>ChessEscrow\<close> (\<^verbatim>\<open>NotAdmin\<close> is declared by
  both); \<open>Error msg\<close> for a failing \<^verbatim>\<open>require(_, msg)\<close>; \<open>Panic\<close> for checked
  arithmetic overflowing (Solidity 0.8); \<open>TransferFailed\<close> for the token refusing a
  transfer.
\<close>

datatype sol_error =
    NotAdmin
  | MarketNotFound
  | MarketAlreadyExists
  | MarketAlreadyResolved
  | InvalidOutcome
  | ZeroBet
  | NotResolved
  | NoShares
  | AlreadyClaimed
  | AlreadyDeposited
  | EscrowNotReady
  | EscrowNotFound
  | EscrowAlreadyExists
  | Error string
  | Panic
  | TransferFailed

definition u256_add :: "uint256 \<Rightarrow> uint256 \<Rightarrow> sol_error + uint256" where
  "u256_add a b = (if unat a + unat b < 2 ^ 256 then Inr (a + b) else Inl Panic)"

definition u256_mul :: "uint256 \<Rightarrow> uint256 \<Rightarrow> sol_error + uint256" where
  "u256_mul a b = (if unat a * unat b < 2 ^ 256 then Inr (a * b) else Inl Panic)"

text \<open>
  Modelled from the spec: the ledger of the ERC-20 token, an external contract that
  the source reaches through \<^verbatim>\<open>token.safeTransferFrom\<close> and \<^verbatim>\<open>token.safeTransfer\<close>.  As
  sections 1 and 7 of the specification describe the funds-transfer primitive, a
  transfer moves value from payer to payee and fails on insufficient balance or
  allowance.  Balances and allowances are natural numbers.
\<close>

record erc20 =
  balanceOf :: "address \<Rightarrow> nat"
  allowance :: "address \<Rightarrow> address \<Rightarrow> nat"

definition safeTransfer :: "erc20 \<Rightarrow> address \<Rightarrow> address \<Rightarrow> uint256 \<Rightarrow> sol_error + erc20" where
  "safeTransfer tok from to amt =
     (if balanceOf tok from < unat amt then Inl TransferFailed
      else let bal = (balanceOf tok)(from := balanceOf tok from - unat amt)
           in Inr (tok\<lparr>balanceOf := bal(to := bal to + unat amt)\<rparr>))"

definition safeTransferFrom ::
  "erc20 \<Rightarrow> address \<Rightarrow> address \<Rightarrow> address \<Rightarrow> uint256 \<Rightarrow> sol_error + erc20" where
  "safeTransferFrom tok spender from to amt =
     (if allowance tok from spender < unat amt then Inl TransferFailed
      else case safeTransfer tok from to amt of
             Inl e \<Rightarrow> Inl e
           | Inr tok' \<Rightarrow>
               Inr (tok'\<lparr>allowance := (allowance tok)(from :=
                      (allowance tok from)(spender := allowance tok from spender - unat amt))\<rparr>))"

text \<open>\<^verbatim>\<open>struct Market\<close> of the Solidity contract, with the source's field names.\<close>

record SolMarket =
  admin :: address
  matchId :: u64
  player1 :: address
  player2 :: address
  status :: u8
  winningOutcome :: u8
  pool :: uint256
  originalPoolSize :: uint256
  player1Shares :: uint256
  player2Shares :: uint256
  drawShares :: uint256

text \<open>
  Contract storage.  A Solidity mapping is total and reads as zero where nothing was
  written, so the mappings are functions.  \<open>this\<close> is the contract's own address and
  \<open>token\<close> the ledger of the token it was constructed with.
\<close>

record PredictionMarket =
  this :: address
  token :: erc20
  markets :: "u64 \<Rightarrow> SolMarket"
  userShares :: "u64 \<Rightarrow> u8 \<Rightarrow> address \<Rightarrow> uint256"
  hasClaimed :: "u64 \<Rightarrow> address \<Rightarrow> bool"

definition createMarket ::
  "PredictionMarket \<Rightarrow> address \<Rightarrow> u64 \<Rightarrow> address \<Rightarrow> address \<Rightarrow> sol_error + PredictionMarket" where
  "createMarket s sender mid p1 p2 =
     (if \<not> admin (markets s mid) = 0 then Inl (Error ''MarketAlreadyExists'')
      else if \<not> (p1 \<noteq> 0 \<and> p2 \<noteq> 0) then Inl (Error ''Invalid players'')
      else Inr (s\<lparr>markets := (markets s)(mid :=
             \<lparr>admin = sender, matchId = mid, player1 = p1, player2 = p2,
              status = STATUS_ACTIVE, winningOutcome = 0, pool = 0, originalPoolSize = 0,
              player1Shares = 0, player2Shares = 0, drawShares = 0\<rparr>)\<rparr>))"

text \<open>The \<^verbatim>\<open>if\<close>/\<^verbatim>\<open>else if\<close>/\<^verbatim>\<open>else\<close> of \<^verbatim>\<open>bet\<close> over the outcome (source lines 127 to 133).\<close>

definition addOutcomeShares :: "SolMarket \<Rightarrow> u8 \<Rightarrow> uint256 \<Rightarrow> sol_error + SolMarket" where
  "addOutcomeShares market outcome amt =
     (if outcome = OUTCOME_PLAYER1 then
        (case u256_add (player1Shares market) amt of
           Inl e \<Rightarrow> Inl e | Inr v \<Rightarrow> Inr (market\<lparr>player1Shares := v\<rparr>))
      else if outcome = OUTCOME_PLAYER2 then
        (case u256_add (player2Shares market) amt of
           Inl e \<Rightarrow> Inl e | Inr v \<Rightarrow> Inr (market\<lparr>player2Shares := v\<rparr>))
      else
        (case u256_add (drawShares market) amt of
           Inl e \<Rightarrow> Inl e | Inr v \<Rightarrow> Inr (market\<lparr>drawShares := v\<rparr>)))"

definition bet ::
  "PredictionMarket \<Rightarrow> address \<Rightarrow> u64 \<Rightarrow> u8 \<Rightarrow> uint256 \<Rightarrow> sol_error + PredictionMarket" where
  "bet s sender mid outcome amt =
     (if outcome \<noteq> OUTCOME_PLAYER1 \<and> outcome \<noteq> OUTCOME_PLAYER2 \<and> outcome \<noteq> OUTCOME_DRAW
      then Inl InvalidOutcome
      else if amt = 0 then Inl ZeroBet
      else if admin (markets s mid) = 0 then Inl MarketNotFound
      else if status (markets s mid) \<noteq> STATUS_ACTIVE then Inl MarketAlreadyResolved
      else case safeTransferFrom (token s) (this s) sender (this s) amt of
        Inl e \<Rightarrow> Inl e
      | Inr tok' \<Rightarrow>
         (case addOutcomeShares (markets s mid) outcome amt of
            Inl e \<Rightarrow> Inl e
          | Inr market1 \<Rightarrow>
             (case u256_add (pool market1) amt of
                Inl e \<Rightarrow> Inl e
              | Inr pool' \<Rightarrow>
                 (case u256_add (userShares s mid outcome sender) amt of
                    Inl e \<Rightarrow> Inl e
                  | Inr shares' \<Rightarrow>
                      Inr (s\<lparr>token := tok',
                             markets := (markets s)(mid := market1\<lparr>pool := pool'\<rparr>),
                             userShares := (userShares s)(mid := (userShares s mid)(outcome :=
                               (userShares s mid outcome)(sender := shares')))\<rparr>)))))"

definition resolveMarket ::
  "PredictionMarket \<Rightarrow> address \<Rightarrow> u64 \<Rightarrow> u8 \<Rightarrow> sol_error + PredictionMarket" where
  "resolveMarket s sender mid outcome =
     (if outcome \<noteq> OUTCOME_PLAYER1 \<and> outcome \<noteq> OUTCOME_PLAYER2 \<and> outcome \<noteq> OUTCOME_DRAW
      then Inl InvalidOutcome
      else if admin (markets s mid) = 0 then Inl MarketNotFound
      else if sender \<noteq> admin (markets s mid) then Inl NotAdmin
      else if status (markets s mid) \<noteq> STATUS_ACTIVE then Inl MarketAlreadyResolved
      else Inr (s\<lparr>markets := (markets s)(mid := (markets s mid)
             \<lparr>status := STATUS_RESOLVED, winningOutcome := outcome,
              originalPoolSize := pool (markets s mid)\<rparr>)\<rparr>))"

text \<open>
  Two expressions occur twice in the contract, in \<^verbatim>\<open>claimRewards\<close> and in
  \<^verbatim>\<open>getPotentialReward\<close>: the \<^verbatim>\<open>if\<close>/\<^verbatim>\<open>else if\<close>/\<^verbatim>\<open>else\<close> that picks the total of an
  outcome, and the reward \<^verbatim>\<open>(shares * poolSize) / outcomeShares\<close> in checked
  \<^verbatim>\<open>uint256\<close> arithmetic.
\<close>

definition outcomeSharesOf :: "SolMarket \<Rightarrow> u8 \<Rightarrow> uint256" where
  "outcomeSharesOf market outcome =
     (if outcome = OUTCOME_PLAYER1 then player1Shares market
      else if outcome = OUTCOME_PLAYER2 then player2Shares market
      else drawShares market)"

definition rewardOf :: "uint256 \<Rightarrow> uint256 \<Rightarrow> uint256 \<Rightarrow> sol_error + uint256" where
  "rewardOf shares poolSize outcomeShares =
     (case u256_mul shares poolSize of
        Inl e \<Rightarrow> Inl e
      | Inr product \<Rightarrow> Inr (product div outcomeShares))"

text \<open>
  \<^verbatim>\<open>claimRewards(matchId)\<close>:
  \<^verbatim>\<open>reward = (userShareAmount * market.originalPoolSize) / winningOutcomeShares\<close>.
\<close>

definition claimRewards ::
  "PredictionMarket \<Rightarrow> address \<Rightarrow> u64 \<Rightarrow> sol_error + PredictionMarket" where
  "claimRewards s sender mid =
     (let market = markets s mid in
      if admin market = 0 then Inl MarketNotFound
      else if status market \<noteq> STATUS_RESOLVED \<or> winningOutcome market = 0 then Inl NotResolved
      else if hasClaimed s mid sender then Inl AlreadyClaimed
      else
        let userShareAmount = userShares s mid (winningOutcome market) sender in
        if userShareAmount = 0 then Inl NoShares
        else
          let winningOutcomeShares = outcomeSharesOf market (winningOutcome market)
          in if winningOutcomeShares = 0 then Inl NoShares
          else case rewardOf userShareAmount (originalPoolSize market) winningOutcomeShares of
            Inl e \<Rightarrow> Inl e
          | Inr reward \<Rightarrow>
                 case safeTransfer (token s) (this s) sender reward of
                   Inl e \<Rightarrow> Inl e
                 | Inr tok' \<Rightarrow>
                     Inr (s\<lparr>hasClaimed := (hasClaimed s)(mid := (hasClaimed s mid)(sender := True)),
                            userShares := (userShares s)(mid := (userShares s mid)
                              (winningOutcome market :=
                                 (userShares s mid (winningOutcome market))(sender := 0))),
                            token := tok'\<rparr>))"

subsection \<open>View functions of the Solidity contract\<close>

definition getMarketStats ::
  "PredictionMarket \<Rightarrow> u64 \<Rightarrow> sol_error + (u8 \<times> u8 \<times> uint256 \<times> uint256 \<times> uint256 \<times> uint256)" where
  "getMarketStats s mid =
     (let market = markets s mid in
      if admin market = 0 then Inl MarketNotFound
      else Inr (status market, winningOutcome market, pool market,
                player1Shares market, player2Shares market, drawShares market))"

definition getUserShares ::
  "PredictionMarket \<Rightarrow> u64 \<Rightarrow> u8 \<Rightarrow> address \<Rightarrow> sol_error + uint256" where
  "getUserShares s mid outcome user = Inr (userShares s mid outcome user)"

definition hasUserClaimed :: "PredictionMarket \<Rightarrow> u64 \<Rightarrow> address \<Rightarrow> sol_error + bool" where
  "hasUserClaimed s mid user = Inr (hasClaimed s mid user)"

text \<open>\<^verbatim>\<open>getPotentialReward\<close> reads \<^verbatim>\<open>market.pool\<close> in every status.\<close>

definition getPotentialReward ::
  "PredictionMarket \<Rightarrow> u64 \<Rightarrow> u8 \<Rightarrow> address \<Rightarrow> sol_error + uint256" where
  "getPotentialReward s mid outcome user =
     (let market = markets s mid in
      if admin market = 0 then Inr 0
      else
        let userShareAmount = userShares s mid outcome user in
        if userShareAmount = 0 then Inr 0
        else if status market = STATUS_RESOLVED \<and> winningOutcome market \<noteq> outcome then Inr 0
        else
          let outcomeShares = outcomeSharesOf market outcome
          in if outcomeShares = 0 then Inr 0
             else rewardOf userShareAmount (pool market) outcomeShares)"

definition getUserAllShares ::
  "PredictionMarket \<Rightarrow> u64 \<Rightarrow> address \<Rightarrow> sol_error + (uint256 \<times> uint256 \<times> uint256)" where
  "getUserAllShares s mid user =
     Inr (userShares s mid OUTCOME_PLAYER1 user,
          userShares s mid OUTCOME_PLAYER2 user,
          userShares s mid OUTCOME_DRAW user)"

definition marketExists :: "PredictionMarket \<Rightarrow> u64 \<Rightarrow> sol_error + bool" where
  "marketExists s mid = Inr (admin (markets s mid) \<noteq> 0)"

definition getMarketAdmin :: "PredictionMarket \<Rightarrow> u64 \<Rightarrow> sol_error + address" where
  "getMarketAdmin s mid =
     (if admin (markets s mid) = 0 then Inl MarketNotFound
      else Inr (admin (markets s mid)))"

text \<open>
  The state after the constructor, and transactions against the contract.  A
  transaction that reverts leaves the state as it was.
\<close>

definition deployed :: "address \<Rightarrow> erc20 \<Rightarrow> PredictionMarket" where
  "deployed self tok =
     \<lparr>this = self, token = tok,
      markets = (\<lambda>_. \<lparr>admin = 0, matchId = 0, player1 = 0, player2 = 0, status = 0,
                       winningOutcome = 0, pool = 0, originalPoolSize = 0,
                       player1Shares = 0, player2Shares = 0, drawShares = 0\<rparr>),
      userShares = (\<lambda>_ _ _. 0),
      hasClaimed = (\<lambda>_ _. False)\<rparr>"

datatype sol_call =
    CallCreateMarket address u64 address address
  | CallBet address u64 u8 uint256
  | CallResolveMarket address u64 u8
  | CallClaimRewards address u64

fun sol_exec :: "PredictionMarket \<Rightarrow> sol_call \<Rightarrow> sol_error + PredictionMarket" where
  "sol_exec s (CallCreateMarket sender m p1 p2) = createMarket s sender m p1 p2"
| "sol_exec s (CallBet sender m outcome amt) = bet s sender m outcome amt"
| "sol_exec s (CallResolveMarket sender m outcome) = resolveMarket s sender m outcome"
| "sol_exec s (CallClaimRewards sender m) = claimRewards s sender m"

fun sol_run :: "PredictionMarket \<Rightarrow> sol_call list \<Rightarrow> PredictionMarket" where
  "sol_run s [] = s"
| "sol_run s (c # cs) = sol_run (case sol_exec s c of Inl e \<Rightarrow> s | Inr s' \<Rightarrow> s') cs"

section \<open>Solidity contract \<^verbatim>\<open>ChessEscrow\<close>\<close>

text \<open>
  \<^verbatim>\<open>struct Escrow { admin, player1, player2, amount, total, deposited1, deposited2 }\<close>
  of \<^verbatim>\<open>ChessEscrow.sol\<close>.  The Move record and the market struct use the same field
  names, so the fields carry the prefix \<open>escrow\<close>.
\<close>

record SolEscrow =
  escrowAdmin :: address
  escrowPlayer1 :: address
  escrowPlayer2 :: address
  escrowAmount :: uint256
  escrowTotal :: uint256
  escrowDeposited1 :: bool
  escrowDeposited2 :: bool

definition FEE_PERCENTAGE :: uint256 where "FEE_PERCENTAGE = 5"

text \<open>
  Contract storage: \<^verbatim>\<open>mapping(uint64 => Escrow) escrows\<close>, the contract's own address
  and the ledger of its token.  \<open>noEscrow\<close> is the all-zero struct that an unwritten
  slot reads as and that \<^verbatim>\<open>delete escrows[matchId]\<close> leaves behind.
\<close>

record ChessEscrow =
  escrowThis :: address
  escrowToken :: erc20
  escrows :: "u64 \<Rightarrow> SolEscrow"

definition noEscrow :: SolEscrow where
  "noEscrow = \<lparr>escrowAdmin = 0, escrowPlayer1 = 0, escrowPlayer2 = 0, escrowAmount = 0,
               escrowTotal = 0, escrowDeposited1 = False, escrowDeposited2 = False\<rparr>"

definition createEscrow ::
  "ChessEscrow \<Rightarrow> address \<Rightarrow> u64 \<Rightarrow> address \<Rightarrow> address \<Rightarrow> uint256 \<Rightarrow> sol_error + ChessEscrow" where
  "createEscrow s sender mid p1 p2 amt =
     (if escrowAdmin (escrows s mid) \<noteq> 0 then Inl EscrowAlreadyExists
      else if \<not> (p1 \<noteq> 0 \<and> p2 \<noteq> 0) then Inl (Error ''Invalid players'')
      else if \<not> 0 < amt then Inl (Error ''Invalid amount'')
      else Inr (s\<lparr>escrows := (escrows s)(mid :=
             \<lparr>escrowAdmin = sender, escrowPlayer1 = p1, escrowPlayer2 = p2, escrowAmount = amt,
              escrowTotal = 0, escrowDeposited1 = False, escrowDeposited2 = False\<rparr>)\<rparr>))"

text \<open>
  \<^verbatim>\<open>deposit(matchId)\<close> of the contract; the name \<open>deposit\<close> belongs to the Move
  function above.  The stake moves from the sender to the contract.  The final
  \<^verbatim>\<open>else\<close> reverts with \<^verbatim>\<open>EscrowNotFound\<close>.
\<close>

definition deposit_sol :: "ChessEscrow \<Rightarrow> address \<Rightarrow> u64 \<Rightarrow> sol_error + ChessEscrow" where
  "deposit_sol s sender mid =
     (let escrow = escrows s mid in
      if escrowAdmin escrow = 0 then Inl EscrowNotFound
      else if sender = escrowPlayer1 escrow then
        if escrowDeposited1 escrow then Inl AlreadyDeposited
        else (case safeTransferFrom (escrowToken s) (escrowThis s) sender (escrowThis s)
                     (escrowAmount escrow) of
            Inl e \<Rightarrow> Inl e
          | Inr tok' \<Rightarrow>
             (case u256_add (escrowTotal escrow) (escrowAmount escrow) of
                Inl e \<Rightarrow> Inl e
              | Inr total' \<Rightarrow>
                  Inr (s\<lparr>escrowToken := tok',
                         escrows := (escrows s)(mid :=
                           escrow\<lparr>escrowDeposited1 := True, escrowTotal := total'\<rparr>)\<rparr>)))
      else if sender = escrowPlayer2 escrow then
        if escrowDeposited2 escrow then Inl AlreadyDeposited
        else (case safeTransferFrom (escrowToken s) (escrowThis s) sender (escrowThis s)
                     (escrowAmount escrow) of
            Inl e \<Rightarrow> Inl e
          | Inr tok' \<Rightarrow>
             (case u256_add (escrowTotal escrow) (escrowAmount escrow) of
                Inl e \<Rightarrow> Inl e
              | Inr total' \<Rightarrow>
                  Inr (s\<lparr>escrowToken := tok',
                         escrows := (escrows s)(mid :=
                           escrow\<lparr>escrowDeposited2 := True, escrowTotal := total'\<rparr>)\<rparr>)))
      else Inl EscrowNotFound)"

text \<open>
  \<^verbatim>\<open>resolveWin(matchId, winner)\<close>: \<^verbatim>\<open>fee = (total * FEE_PERCENTAGE) / 100\<close>,
  \<^verbatim>\<open>payout = total - fee\<close>; the contract pays the winner, then the fee to the
  administrator when the fee is positive, and deletes the record.  The product is
  checked; the subtraction cannot underflow, since the fee is at most the total.
\<close>

definition resolveWin ::
  "ChessEscrow \<Rightarrow> address \<Rightarrow> u64 \<Rightarrow> address \<Rightarrow> sol_error + ChessEscrow" where
  "resolveWin s sender mid winner =
     (let escrow = escrows s mid in
      if escrowAdmin escrow = 0 then Inl EscrowNotFound
      else if sender \<noteq> escrowAdmin escrow then Inl NotAdmin
      else if \<not> escrowDeposited1 escrow \<or> \<not> escrowDeposited2 escrow then Inl EscrowNotReady
      else case u256_mul (escrowTotal escrow) FEE_PERCENTAGE of
        Inl e \<Rightarrow> Inl e
      | Inr product \<Rightarrow>
          let fee = product div 100;
              payout = escrowTotal escrow - fee
          in (case safeTransfer (escrowToken s) (escrowThis s) winner payout of
                Inl e \<Rightarrow> Inl e
              | Inr tok1 \<Rightarrow>
                 (case (if 0 < fee
                        then safeTransfer tok1 (escrowThis s) (escrowAdmin escrow) fee
                        else Inr tok1) of
                    Inl e \<Rightarrow> Inl e
                  | Inr tok2 \<Rightarrow>
                      Inr (s\<lparr>escrowToken := tok2,
                             escrows := (escrows s)(mid := noEscrow)\<rparr>))))"

text \<open>
  \<^verbatim>\<open>resolveDraw(matchId)\<close>: \<^verbatim>\<open>split = (total - fee) / 2\<close> goes to each player, the fee
  to the administrator when it is positive; what the halving leaves over is not
  transferred.
\<close>

definition resolveDraw :: "ChessEscrow \<Rightarrow> address \<Rightarrow> u64 \<Rightarrow> sol_error + ChessEscrow" where
  "resolveDraw s sender mid =
     (let escrow = escrows s mid in
      if escrowAdmin escrow = 0 then Inl EscrowNotFound
      else if sender \<noteq> escrowAdmin escrow then Inl NotAdmin
      else if \<not> escrowDeposited1 escrow \<or> \<not> escrowDeposited2 escrow then Inl EscrowNotReady
      else case u256_mul (escrowTotal escrow) FEE_PERCENTAGE of
        Inl e \<Rightarrow> Inl e
      | Inr product \<Rightarrow>
          let fee = product div 100;
              remaining = escrowTotal escrow - fee;
              split = remaining div 2
          in (case safeTransfer (escrowToken s) (escrowThis s) (escrowPlayer1 escrow) split of
                Inl e \<Rightarrow> Inl e
              | Inr tok1 \<Rightarrow>
                 (case safeTransfer tok1 (escrowThis s) (escrowPlayer2 escrow) split of
                    Inl e \<Rightarrow> Inl e
                  | Inr tok2 \<Rightarrow>
                     (case (if 0 < fee
                            then safeTransfer tok2 (escrowThis s) (escrowAdmin escrow) fee
                            else Inr tok2) of
                        Inl e \<Rightarrow> Inl e
                      | Inr tok3 \<Rightarrow>
                          Inr (s\<lparr>escrowToken := tok3,
                                 escrows := (escrows s)(mid := noEscrow)\<rparr>)))))"

definition escrowExists :: "ChessEscrow \<Rightarrow> u64 \<Rightarrow> sol_error + bool" where
  "escrowExists s mid = Inr (escrowAdmin (escrows s mid) \<noteq> 0)"

definition getEscrow ::
  "ChessEscrow \<Rightarrow> u64 \<Rightarrow>
   sol_error + (address \<times> address \<times> address \<times> uint256 \<times> uint256 \<times> bool \<times> bool)" where
  "getEscrow s mid =
     (let escrow = escrows s mid in
      if escrowAdmin escrow = 0 then Inl EscrowNotFound
      else Inr (escrowAdmin escrow, escrowPlayer1 escrow, escrowPlayer2 escrow,
                escrowAmount escrow, escrowTotal escrow,
                escrowDeposited1 escrow, escrowDeposited2 escrow))"

text \<open>
  The state after the constructor, and transactions against the contract, each with
  its \<^verbatim>\<open>msg.sender\<close>.  A transaction that reverts leaves the state as it was.
\<close>

definition escrowDeployed :: "address \<Rightarrow> erc20 \<Rightarrow> ChessEscrow" where
  "escrowDeployed self tok = \<lparr>escrowThis = self, escrowToken = tok, escrows = (\<lambda>_. noEscrow)\<rparr>"

datatype ce_call =
    CallCreateEscrow address u64 address address uint256
  | CallDeposit address u64
  | CallResolveWin address u64 address
  | CallResolveDraw address u64

fun ce_caller :: "ce_call \<Rightarrow> address" where
  "ce_caller (CallCreateEscrow sender m p1 p2 amt) = sender"
| "ce_caller (CallDeposit sender m) = sender"
| "ce_caller (CallResolveWin sender m w) = sender"
| "ce_caller (CallResolveDraw sender m) = sender"

fun ce_exec :: "ChessEscrow \<Rightarrow> ce_call \<Rightarrow> sol_error + ChessEscrow" where
  "ce_exec s (CallCreateEscrow sender m p1 p2 amt) = createEscrow s sender m p1 p2 amt"
| "ce_exec s (CallDeposit sender m) = deposit_sol s sender m"
| "ce_exec s (CallResolveWin sender m w) = resolveWin s sender m w"
| "ce_exec s (CallResolveDraw sender m) = resolveDraw s sender m"

fun ce_run :: "ChessEscrow \<Rightarrow> ce_call list \<Rightarrow> ChessEscrow" where
  "ce_run s [] = s"
| "ce_run s (c # cs) = ce_run (case ce_exec s c of Inl e \<Rightarrow> s | Inr s' \<Rightarrow> s') cs"

section \<open>Predicates and example states for the escrow\<close>

definition escrow_at :: "escrow_state \<Rightarrow> maddress \<Rightarrow> u64 \<Rightarrow> Escrow option" where
  "escrow_at s a m = (case escrow_stores s a of None \<Rightarrow> None | Some store \<Rightarrow> store m)"

text \<open>
  An escrow of administrator \<open>a\<close> whose two player slots both name \<open>p\<close> and whose
  second deposit flag is clear; and the same with the first flag set.
\<close>

definition same_player_unfunded :: "escrow_state \<Rightarrow> maddress \<Rightarrow> u64 \<Rightarrow> maddress \<Rightarrow> bool" where
  "same_player_unfunded s a m p =
     (case escrow_at s a m of
        None \<Rightarrow> False
      | Some e \<Rightarrow> e_admin e = a \<and> e_player1 e = p \<and> e_player2 e = p \<and> \<not> deposited2 e)"

definition same_player_half_funded :: "escrow_state \<Rightarrow> maddress \<Rightarrow> u64 \<Rightarrow> maddress \<Rightarrow> bool" where
  "same_player_half_funded s a m p =
     (case escrow_at s a m of
        None \<Rightarrow> False
      | Some e \<Rightarrow> e_admin e = a \<and> e_player1 e = p \<and> e_player2 e = p \<and>
                  deposited1 e \<and> \<not> deposited2 e)"

text \<open>
  The data-model invariant of an escrow record: \<open>total\<close> is the stake times the
  number of deposit flags that are set.  \<open>escrow_empty\<close> is global storage before
  any store has been initialised.
\<close>

definition total_tracks_flags :: "Escrow \<Rightarrow> bool" where
  "total_tracks_flags e \<longleftrightarrow>
     unat (total e) = (if deposited1 e then unat (amount e) else 0)
                    + (if deposited2 e then unat (amount e) else 0)"

definition escrow_total_ok :: "escrow_state \<Rightarrow> maddress \<Rightarrow> u64 \<Rightarrow> bool" where
  "escrow_total_ok s a m = (case escrow_at s a m of None \<Rightarrow> True | Some e \<Rightarrow> total_tracks_flags e)"

definition escrow_empty :: "coin_ledger \<Rightarrow> escrow_state" where
  "escrow_empty bal = \<lparr>escrow_stores = Map.empty, coin_balance = bal\<rparr>"

text \<open>
  Example history: every account starts with 100 units; administrator \<open>10\<close>
  initialises its store and creates match \<open>1\<close> between players \<open>11\<close> and \<open>12\<close>, who
  both deposit.  Account \<open>13\<close> takes no part.
\<close>

definition ex_genesis :: escrow_state where
  "ex_genesis = escrow_empty (\<lambda>_. 100)"

definition ex_initialized :: escrow_state where
  "ex_initialized = escrow_run ex_genesis [Initialize 10]"

definition ex_created :: "u64 \<Rightarrow> escrow_state" where
  "ex_created stake = escrow_run ex_initialized [CreateEscrow 10 1 11 12 stake]"

definition ex_funded :: "u64 \<Rightarrow> escrow_state" where
  "ex_funded stake = escrow_run (ex_created stake) [Deposit 11 10 1, Deposit 12 10 1]"

definition ex_escrow :: "u64 \<Rightarrow> u64 \<Rightarrow> bool \<Rightarrow> Escrow" where
  "ex_escrow stake tot dep =
     \<lparr>e_admin = 10, e_player1 = 11, e_player2 = 12, amount = stake, total = tot,
      deposited1 = dep, deposited2 = dep\<rparr>"

definition ex_same_player :: escrow_state where
  "ex_same_player = escrow_run ex_initialized [CreateEscrow 10 1 11 11 5]"


section \<open>Predicates and example states for the markets\<close>

text \<open>
  The pool of a market equals the sum of its three outcome totals, as unsigned
  values.  The Solidity contract never lowers \<^verbatim>\<open>pool\<close>; the Move module takes paid
  rewards out of the pool coin, so there the equation is required of active markets.
\<close>

definition pool_consistent :: "SolMarket \<Rightarrow> bool" where
  "pool_consistent m \<longleftrightarrow>
     unat (pool m) = unat (player1Shares m) + unat (player2Shares m) + unat (drawShares m)"

definition market_at :: "market_state \<Rightarrow> maddress \<Rightarrow> u64 \<Rightarrow> Market option" where
  "market_at s a m = (case market_stores s a of None \<Rightarrow> None | Some store \<Rightarrow> store m)"

definition active_pool_consistent :: "Market \<Rightarrow> bool" where
  "active_pool_consistent m \<longleftrightarrow>
     (m_status m = STATUS_ACTIVE \<longrightarrow>
        unat (m_pool m) = unat (player1_shares m) + unat (player2_shares m) + unat (draw_shares m))"

definition market_pool_ok :: "market_state \<Rightarrow> maddress \<Rightarrow> u64 \<Rightarrow> bool" where
  "market_pool_ok s a m = (case market_at s a m of None \<Rightarrow> True | Some mk \<Rightarrow> active_pool_consistent mk)"

definition pm_genesis :: "coin_ledger \<Rightarrow> market_state" where
  "pm_genesis coins =
     \<lparr>market_stores = Map.empty, shares_stores = Map.empty, claim_stores = Map.empty,
      coin_store = coins\<rparr>"


text \<open>
  Example history of the Solidity contract, with the accounts of its test suite:
  administrator \<open>1\<close>, players \<open>2\<close> and \<open>3\<close>, bettors \<open>4\<close>, \<open>5\<close> and \<open>6\<close>; the
  contract itself is at \<open>99\<close>.  Every account holds 10000 tokens and has approved
  as much.
\<close>

definition ex_token :: erc20 where
  "ex_token = \<lparr>balanceOf = (\<lambda>_. 10000), allowance = (\<lambda>_ _. 10000)\<rparr>"

definition ex_sol_created :: PredictionMarket where
  "ex_sol_created = sol_run (deployed 99 ex_token) [CallCreateMarket 1 1 2 3]"

text \<open>
  The specification's example of two winners: accounts \<open>4\<close> and \<open>5\<close> stake \<open>1000\<close> and
  \<open>2000\<close> on player 1, account \<open>6\<close> stakes \<open>1500\<close> on player 2, and the administrator
  resolves the market for player 1.
\<close>

definition ex_sol_resolved :: PredictionMarket where
  "ex_sol_resolved = sol_run ex_sol_created
     [CallBet 4 1 OUTCOME_PLAYER1 1000, CallBet 5 1 OUTCOME_PLAYER1 2000,
      CallBet 6 1 OUTCOME_PLAYER2 1500, CallResolveMarket 1 1 OUTCOME_PLAYER1]"

text \<open>
  Example history of the Move module: every account holds \<open>10^10\<close> octas (100 coins);
  administrator \<open>10\<close> initialises its stores and creates match \<open>1\<close>.
\<close>

definition ex_pm_created :: market_state where
  "ex_pm_created = pm_run (pm_genesis (\<lambda>_. 10000000000)) [PmInitialize 10, CreateMarket 10 1 11 12]"

text \<open>
  A single bettor, account \<open>20\<close>, stakes 50 coins (\<open>5 * 10^9\<close> octas) on player 1 and
  the administrator resolves the market for player 1.
\<close>

definition ex_pm_large_bet :: market_state where
  "ex_pm_large_bet = pm_run ex_pm_created
     [Bet 20 10 1 OUTCOME_PLAYER1 5000000000, ResolveMarket 10 1 OUTCOME_PLAYER1]"

text \<open>
  The specification's example of two winners: accounts \<open>20\<close> and \<open>21\<close> stake \<open>1000\<close>
  and \<open>2000\<close> on player 1, account \<open>22\<close> stakes \<open>1500\<close> on player 2, the market is
  resolved for player 1, and account \<open>20\<close> claims.
\<close>

definition ex_pm_resolved :: market_state where
  "ex_pm_resolved = pm_run ex_pm_created
     [Bet 20 10 1 OUTCOME_PLAYER1 1000, Bet 21 10 1 OUTCOME_PLAYER1 2000,
      Bet 22 10 1 OUTCOME_PLAYER2 1500, ResolveMarket 10 1 OUTCOME_PLAYER1]"

definition ex_pm_first_claimed :: market_state where
  "ex_pm_first_claimed = pm_run ex_pm_resolved [ClaimRewards 20 10 1]"

text \<open>
  Bookkeeping of the Move stores under administrator \<open>a\<close>, for match \<open>m\<close>: the three
  resources exist together, and where the market table has no record for \<open>m\<close> the
  share and claim tables have none either.
\<close>

definition pm_tidy :: "market_state \<Rightarrow> maddress \<Rightarrow> u64 \<Rightarrow> bool" where
  "pm_tidy s a m \<longleftrightarrow>
     (market_stores s a = None \<longleftrightarrow> shares_stores s a = None) \<and>
     (market_stores s a = None \<longleftrightarrow> claim_stores s a = None) \<and>
     (market_at s a m = None \<longrightarrow>
        (case shares_stores s a of None \<Rightarrow> True | Some sh \<Rightarrow> sh m = None) \<and>
        (case claim_stores s a of None \<Rightarrow> True | Some cl \<Rightarrow> cl m = None))"

section \<open>Predicates and example states for the Solidity escrow\<close>

text \<open>
  The data-model invariant of a \<^verbatim>\<open>ChessEscrow\<close> record, and the sum of the totals of
  all records, which is what the contract owes.  Match ids are 64-bit, so the sum is
  finite.
\<close>

definition sol_total_tracks_flags :: "SolEscrow \<Rightarrow> bool" where
  "sol_total_tracks_flags e \<longleftrightarrow>
     unat (escrowTotal e) = (if escrowDeposited1 e then unat (escrowAmount e) else 0)
                          + (if escrowDeposited2 e then unat (escrowAmount e) else 0)"

definition escrowed :: "ChessEscrow \<Rightarrow> nat" where
  "escrowed s = (\<Sum>m\<in>UNIV. unat (escrowTotal (escrows s m)))"

text \<open>
  A state is solvent when every record's total is what its deposit flags say and the
  contract's own token balance covers the totals of all records.
\<close>

definition escrow_solvent :: "ChessEscrow \<Rightarrow> bool" where
  "escrow_solvent s \<longleftrightarrow>
     (\<forall>m. sol_total_tracks_flags (escrows s m)) \<and>
     escrowed s \<le> balanceOf (escrowToken s) (escrowThis s)"

text \<open>
  Example history, with the accounts of the contract's test suite: administrator
  \<open>1\<close>, players \<open>2\<close> and \<open>3\<close>, a non-player \<open>4\<close>; the contract is at \<open>99\<close>.  Every
  account but the contract's holds 10000 tokens and has approved as much.
\<close>

definition ex_ce_token :: erc20 where
  "ex_ce_token = \<lparr>balanceOf = (\<lambda>x. if x = 99 then 0 else 10000), allowance = (\<lambda>_ _. 10000)\<rparr>"

definition ex_ce_deployed :: ChessEscrow where
  "ex_ce_deployed = escrowDeployed 99 ex_ce_token"

definition ex_ce_created :: "uint256 \<Rightarrow> ChessEscrow" where
  "ex_ce_created stake = ce_run ex_ce_deployed [CallCreateEscrow 1 1 2 3 stake]"

definition ex_ce_funded :: "uint256 \<Rightarrow> ChessEscrow" where
  "ex_ce_funded stake = ce_run (ex_ce_created stake) [CallDeposit 2 1, CallDeposit 3 1]"

definition ex_sol_escrow :: "uint256 \<Rightarrow> uint256 \<Rightarrow> bool \<Rightarrow> SolEscrow" where
  "ex_sol_escrow stake tot dep =
     \<lparr>escrowAdmin = 1, escrowPlayer1 = 2, escrowPlayer2 = 3, escrowAmount = stake,
      escrowTotal = tot, escrowDeposited1 = dep, escrowDeposited2 = dep\<rparr>"

section \<open>The Move escrow: fee arithmetic and transfers\<close>

lemma unat_fee:
  fixes t :: u64
  assumes "unat t * 5 < 2 ^ 64"
  shows "unat (t * 5 div 100) = unat t * 5 div 100"
proof -
  have "unat (t * 5) = unat t * unat (5 :: u64)"
    using assms by (simp add: unat_mult_lem [THEN iffD1])
  then show ?thesis by (simp add: unat_div)
qed

lemma fee_le_total:
  fixes t :: u64
  assumes "unat t * 5 < 2 ^ 64"
  shows "t * 5 div 100 \<le> t"
  using unat_fee [OF assms] by (simp add: word_le_nat_alt)

lemma unat_payout:
  fixes t :: u64
  assumes "unat t * 5 < 2 ^ 64"
  shows "unat (t - t * 5 div 100) = unat t - unat t * 5 div 100"
  using fee_le_total [OF assms] unat_fee [OF assms] by (simp add: unat_sub)

lemma unat_split:
  fixes t :: u64
  assumes "unat t * 5 < 2 ^ 64"
  shows "unat ((t - t * 5 div 100) div 2) = (unat t - unat t * 5 div 100) div 2"
  using unat_payout [OF assms] by (simp add: unat_div)

lemmas escrow_ops =
  escrow_initialize_def create_escrow_def deposit_def resolve_win_def resolve_draw_def
  coin_transfer_def coin_withdraw_def coin_deposit_def

subsection \<open>The example history, evaluated\<close>

lemma ex_initialized_eq:
  "ex_initialized = \<lparr>escrow_stores = [10 \<mapsto> Map.empty], coin_balance = (\<lambda>_. 100)\<rparr>"
  by (simp add: ex_initialized_def ex_genesis_def escrow_empty_def escrow_ops)

lemma ex_created_eq:
  "ex_created stake =
     \<lparr>escrow_stores = [10 \<mapsto> [1 \<mapsto> ex_escrow stake 0 False]], coin_balance = (\<lambda>_. 100)\<rparr>"
  by (simp add: ex_created_def ex_initialized_eq ex_escrow_def escrow_ops)

lemma ex_funded_10:
  "ex_funded 10 =
     \<lparr>escrow_stores = [10 \<mapsto> [1 \<mapsto> ex_escrow 10 20 True]],
      coin_balance = (\<lambda>x. if x = 10 then 120 else if x = 11 \<or> x = 12 then 90 else 100)\<rparr>"
  by (simp add: ex_funded_def ex_created_eq ex_escrow_def escrow_ops fun_eq_iff)


lemma ex_same_player_eq:
  "ex_same_player =
     \<lparr>escrow_stores = [10 \<mapsto> [1 \<mapsto>
        \<lparr>e_admin = 10, e_player1 = 11, e_player2 = 11, amount = 5, total = 0,
         deposited1 = False, deposited2 = False\<rparr>]],
      coin_balance = (\<lambda>_. 100)\<rparr>"
  by (simp add: ex_same_player_def ex_initialized_eq escrow_ops)

subsection \<open>Creation\<close>

text \<open>
  The Move \<^verbatim>\<open>create_escrow\<close> has a single \<^verbatim>\<open>assert!\<close>, on the key: on an initialised
  store it fails with \<^verbatim>\<open>EESCROW_ALREADY_EXISTS\<close> when the match id is already a key of
  the administrator's table, and otherwise inserts a fresh record with \<open>total = 0\<close> and
  both deposit flags false, whatever the stake and the player identities are.
\<close>

lemma create_escrow_checks_key_only:
  assumes "escrow_stores s a = Some store"
  shows "create_escrow s a m p1 p2 amt =
           (if store m \<noteq> None then Inl (Abort EESCROW_ALREADY_EXISTS)
            else Inr (s\<lparr>escrow_stores := (escrow_stores s)(a \<mapsto> store(m \<mapsto>
              \<lparr>e_admin = a, e_player1 = p1, e_player2 = p2, amount = amt,
               total = 0, deposited1 = False, deposited2 = False\<rparr>))\<rparr>))"
  using assms by (simp add: create_escrow_def)

subsection \<open>Deposits\<close>

lemma deposit_Inr_cases:
  assumes "deposit s q a m = Inr s'"
  obtains (noop) store e where "escrow_stores s a = Some store" "store m = Some e"
      "q \<noteq> e_player1 e" "q \<noteq> e_player2 e" "s' = s"
  | (first) store e bal' where "escrow_stores s a = Some store" "store m = Some e"
      "q = e_player1 e" "\<not> deposited1 e"
      "coin_transfer (coin_balance s) q a (amount e) = Inr bal'"
      "unat (total e) + unat (amount e) < 2 ^ 64"
      "s' = s\<lparr>escrow_stores := (escrow_stores s)(a \<mapsto>
              store(m \<mapsto> e\<lparr>deposited1 := True, total := total e + amount e\<rparr>)),
            coin_balance := bal'\<rparr>"
  | (second) store e bal' where "escrow_stores s a = Some store" "store m = Some e"
      "q \<noteq> e_player1 e" "q = e_player2 e" "\<not> deposited2 e"
      "coin_transfer (coin_balance s) q a (amount e) = Inr bal'"
      "unat (total e) + unat (amount e) < 2 ^ 64"
      "s' = s\<lparr>escrow_stores := (escrow_stores s)(a \<mapsto>
              store(m \<mapsto> e\<lparr>deposited2 := True, total := total e + amount e\<rparr>)),
            coin_balance := bal'\<rparr>"
proof (cases "escrow_stores s a")
  case None
  with assms show ?thesis by (simp add: deposit_def)
next
  case (Some store)
  note st = this
  show ?thesis
  proof (cases "store m")
    case None
    with st assms show ?thesis by (simp add: deposit_def)
  next
    case (Some e)
    note es = this
    show ?thesis
    proof (cases "q = e_player1 e")
      case True
      with st es assms obtain bal' where
        "\<not> deposited1 e" "coin_transfer (coin_balance s) q a (amount e) = Inr bal'"
        "unat (total e) + unat (amount e) < 2 ^ 64"
        "s' = s\<lparr>escrow_stores := (escrow_stores s)(a \<mapsto>
              store(m \<mapsto> e\<lparr>deposited1 := True, total := total e + amount e\<rparr>)),
            coin_balance := bal'\<rparr>"
        by (simp add: deposit_def split: if_splits sum.splits)
      with st es True show ?thesis by (rule_tac first)
    next
      case False
      note np1 = this
      show ?thesis
      proof (cases "q = e_player2 e")
        case True
        with st es np1 assms obtain bal' where
          "\<not> deposited2 e" "coin_transfer (coin_balance s) q a (amount e) = Inr bal'"
          "unat (total e) + unat (amount e) < 2 ^ 64"
          "s' = s\<lparr>escrow_stores := (escrow_stores s)(a \<mapsto>
                store(m \<mapsto> e\<lparr>deposited2 := True, total := total e + amount e\<rparr>)),
              coin_balance := bal'\<rparr>"
          by (simp add: deposit_def split: if_splits sum.splits)
        with st es np1 True show ?thesis by (rule_tac second)
      next
        case False
        with st es np1 assms have "s' = s" by (simp add: deposit_def)
        with st es np1 False show ?thesis by (rule_tac noop)
      qed
    qed
  qed
qed

text \<open>
  The Move \<^verbatim>\<open>deposit\<close> has no branch for a caller that is neither player: for every
  existing escrow such a call returns normally and leaves the state as it was.
\<close>

lemma deposit_outsider_is_noop:
  assumes "escrow_stores s a = Some store" and "store m = Some e"
    and "sender \<noteq> e_player1 e" and "sender \<noteq> e_player2 e"
  shows "deposit s sender a m = Inr s"
  using assms by (simp add: deposit_def)

lemma resolve_win_Inr_ready:
  assumes "resolve_win s a m w = Inr s'"
  obtains store e bal' where "escrow_stores s a = Some store" "store m = Some e"
    "deposited1 e" "deposited2 e"
    "s' = s\<lparr>escrow_stores := (escrow_stores s)(a \<mapsto> store(m := None)), coin_balance := bal'\<rparr>"
proof (cases "escrow_stores s a")
  case None
  with assms show ?thesis by (simp add: resolve_win_def)
next
  case (Some store)
  note st = this
  show ?thesis
  proof (cases "store m")
    case None
    with st assms show ?thesis by (simp add: resolve_win_def)
  next
    case (Some e)
    with st assms obtain bal' where "deposited1 e" "deposited2 e"
      "s' = s\<lparr>escrow_stores := (escrow_stores s)(a \<mapsto> store(m := None)), coin_balance := bal'\<rparr>"
      by (auto simp: resolve_win_def Let_def split: if_splits sum.splits)
    with st Some show ?thesis by (rule_tac that)
  qed
qed

lemma resolve_draw_Inr_ready:
  assumes "resolve_draw s a m = Inr s'"
  obtains store e bal' where "escrow_stores s a = Some store" "store m = Some e"
    "deposited1 e" "deposited2 e"
    "s' = s\<lparr>escrow_stores := (escrow_stores s)(a \<mapsto> store(m := None)), coin_balance := bal'\<rparr>"
proof (cases "escrow_stores s a")
  case None
  with assms show ?thesis by (simp add: resolve_draw_def)
next
  case (Some store)
  note st = this
  show ?thesis
  proof (cases "store m")
    case None
    with st assms show ?thesis by (simp add: resolve_draw_def)
  next
    case (Some e)
    with st assms obtain bal' where "deposited1 e" "deposited2 e"
      "s' = s\<lparr>escrow_stores := (escrow_stores s)(a \<mapsto> store(m := None)), coin_balance := bal'\<rparr>"
      by (auto simp: resolve_draw_def Let_def split: if_splits sum.splits)
    with st Some show ?thesis by (rule_tac that)
  qed
qed


subsection \<open>The total follows the deposit flags\<close>

lemma unat_add_u64:
  fixes x y :: u64
  assumes "unat x + unat y < 2 ^ 64"
  shows "unat (x + y) = unat x + unat y"
  using assms by (simp add: unat_add_lem [THEN iffD1])

lemma deposit_total_ok:
  assumes "deposit s q a' m' = Inr s'" and "escrow_total_ok s a m"
  shows "escrow_total_ok s' a m"
  using assms(1)
proof (cases rule: deposit_Inr_cases)
  case (noop store e)
  with assms(2) show ?thesis by simp
next
  case (first store e bal')
  show ?thesis
  proof (cases "a = a' \<and> m = m'")
    case False
    with first(1,7) assms(2) show ?thesis
      by (auto simp: escrow_total_ok_def escrow_at_def)
  next
    case True
    with assms(2) first(1,2) have "total_tracks_flags e"
      by (simp add: escrow_total_ok_def escrow_at_def)
    with first(4) have "total_tracks_flags (e\<lparr>deposited1 := True, total := total e + amount e\<rparr>)"
      by (simp add: total_tracks_flags_def unat_add_u64 [OF first(6)])
    with True first(7) show ?thesis
      by (simp add: escrow_total_ok_def escrow_at_def)
  qed
next
  case (second store e bal')
  show ?thesis
  proof (cases "a = a' \<and> m = m'")
    case False
    with second(1,8) assms(2) show ?thesis
      by (auto simp: escrow_total_ok_def escrow_at_def)
  next
    case True
    with assms(2) second(1,2) have "total_tracks_flags e"
      by (simp add: escrow_total_ok_def escrow_at_def)
    with second(5) have "total_tracks_flags (e\<lparr>deposited2 := True, total := total e + amount e\<rparr>)"
      by (simp add: total_tracks_flags_def unat_add_u64 [OF second(7)])
    with True second(8) show ?thesis
      by (simp add: escrow_total_ok_def escrow_at_def)
  qed
qed

lemma escrow_exec_total_ok:
  assumes "escrow_exec s c = Inr s'" and "escrow_total_ok s a m"
  shows "escrow_total_ok s' a m"
proof (cases c)
  case (Initialize a')
  with assms show ?thesis
    by (auto simp: escrow_initialize_def escrow_total_ok_def escrow_at_def
        split: if_splits option.splits)
next
  case (CreateEscrow a' m' p1 p2 amt)
  with assms show ?thesis
    by (auto simp: create_escrow_def escrow_total_ok_def escrow_at_def total_tracks_flags_def
        split: if_splits option.splits)
next
  case (Deposit q a' m')
  with assms show ?thesis by (simp add: deposit_total_ok)
next
  case (ResolveWin a' m' w)
  with assms(1) have "resolve_win s a' m' w = Inr s'" by simp
  then show ?thesis
  proof (cases rule: resolve_win_Inr_ready)
    case (1 store e bal')
    with assms(2) show ?thesis
      by (auto simp: escrow_total_ok_def escrow_at_def split: option.splits)
  qed
next
  case (ResolveDraw a' m')
  with assms(1) have "resolve_draw s a' m' = Inr s'" by simp
  then show ?thesis
  proof (cases rule: resolve_draw_Inr_ready)
    case (1 store e bal')
    with assms(2) show ?thesis
      by (auto simp: escrow_total_ok_def escrow_at_def split: option.splits)
  qed
qed

lemma escrow_run_total_ok: "escrow_total_ok s a m \<Longrightarrow> escrow_total_ok (escrow_run s cs) a m"
proof (induction cs arbitrary: s)
  case Nil
  then show ?case by simp
next
  case (Cons c cs)
  show ?case
  proof (cases "escrow_exec s c")
    case (Inl e)
    with Cons show ?thesis by simp
  next
    case (Inr s')
    with Cons escrow_exec_total_ok [OF Inr Cons.prems] show ?thesis by simp
  qed
qed

text \<open>After both deposits the escrow holds twice the stake.\<close>

lemma funded_total_is_twice_stake:
  assumes "s = escrow_run (escrow_empty bal) cs"
    and "escrow_stores s a = Some store" and "store m = Some e"
    and "deposited1 e" and "deposited2 e"
  shows "unat (total e) = 2 * unat (amount e)"
proof -
  have "escrow_total_ok s a m"
    unfolding assms(1)
    by (rule escrow_run_total_ok) (simp add: escrow_total_ok_def escrow_at_def escrow_empty_def)
  with assms(2-5) show ?thesis
    by (simp add: escrow_total_ok_def escrow_at_def total_tracks_flags_def)
qed

lemma escrow_run_append: "escrow_run s (cs @ ds) = escrow_run (escrow_run s cs) ds"
  by (induction cs arbitrary: s) simp_all

lemma ex_funded_history:
  "ex_funded stake = escrow_run (escrow_empty (\<lambda>_. 100))
     [Initialize 10, CreateEscrow 10 1 11 12 stake, Deposit 11 10 1, Deposit 12 10 1]"
  by (simp add: ex_funded_def ex_created_def ex_initialized_def ex_genesis_def
      escrow_run_append [symmetric])

subsection \<open>Winner takes all\<close>

text \<open>
  The Move \<^verbatim>\<open>resolve_win\<close>: the deposits were transferred to the administrator's
  account, and the winner is paid \<open>total - floor(total * 5 / 100)\<close> out of it, provided
  \<open>5 * total\<close> fits in 64 bits and the account still covers the payout.  No second
  transfer is made; the fee is what the administrator's account keeps of the deposits.
\<close>

lemma resolve_win_pays_from_admin:
  assumes "escrow_stores s a = Some store" and "store m = Some e"
    and "e_admin e = a" and "deposited1 e" and "deposited2 e"
    and "unat (total e) * 5 < 2 ^ 64"
    and "fee = unat (total e) * 5 div 100"
    and "payout = unat (total e) - fee"
    and "payout \<le> coin_balance s a"
  shows "resolve_win s a m w =
           Inr (s\<lparr>escrow_stores := (escrow_stores s)(a \<mapsto> store(m := None)),
                  coin_balance :=
                    (if w = a then coin_balance s
                     else (coin_balance s)(a := coin_balance s a - payout,
                                           w := coin_balance s w + payout))\<rparr>) \<and>
         (\<forall>bal cs. s = escrow_run (escrow_empty bal) cs \<longrightarrow>
            unat (total e) = 2 * unat (amount e))"
proof -
  have p: "unat (total e - total e * 5 div 100) = payout"
    using assms(6-8) by (simp add: unat_payout)
  have "coin_transfer (coin_balance s) a w (total e - total e * 5 div 100) =
          Inr (if w = a then coin_balance s
               else (coin_balance s)(a := coin_balance s a - payout,
                                     w := coin_balance s w + payout))"
    using assms(9) by (auto simp: coin_transfer_def coin_withdraw_def coin_deposit_def p)
  with assms(1-6) have "resolve_win s a m w =
           Inr (s\<lparr>escrow_stores := (escrow_stores s)(a \<mapsto> store(m := None)),
                  coin_balance :=
                    (if w = a then coin_balance s
                     else (coin_balance s)(a := coin_balance s a - payout,
                                           w := coin_balance s w + payout))\<rparr>)"
    by (simp add: resolve_win_def Let_def)
  moreover have "\<forall>bal cs. s = escrow_run (escrow_empty bal) cs \<longrightarrow>
            unat (total e) = 2 * unat (amount e)"
    using funded_total_is_twice_stake [OF _ assms(1,2,4,5)] by blast
  ultimately show ?thesis by blast
qed

subsection \<open>Draw\<close>

text \<open>
  The Move \<^verbatim>\<open>resolve_draw\<close> makes two transfers, both out of the administrator's
  account: \<open>half = floor((total - fee) / 2)\<close> to each player.  The administrator's
  account keeps \<open>total - 2 * half\<close> of the deposits, which is the fee plus the
  remainder of 0 or 1 unit.
\<close>

lemma resolve_draw_splits_from_admin:
  assumes "escrow_stores s a = Some store" and "store m = Some e"
    and "e_admin e = a" and "deposited1 e" and "deposited2 e"
    and "unat (total e) * 5 < 2 ^ 64"
    and "fee = unat (total e) * 5 div 100"
    and "half = (unat (total e) - fee) div 2"
    and "2 * half \<le> coin_balance s a"
  shows "resolve_draw s a m =
           Inr (s\<lparr>escrow_stores := (escrow_stores s)(a \<mapsto> store(m := None)),
                  coin_balance := (\<lambda>x. coin_balance s x
                     + (if x = e_player1 e then half else 0)
                     + (if x = e_player2 e then half else 0)
                     - (if x = a then 2 * half else 0))\<rparr>) \<and>
         unat (total e) - 2 * half = fee + (unat (total e) - fee - 2 * half) \<and>
         fee + 2 * half + (unat (total e) - fee - 2 * half) = unat (total e) \<and>
         unat (total e) - fee - 2 * half \<le> 1"
proof -
  let ?sp = "(total e - total e * 5 div 100) div 2"
  let ?bal = "coin_balance s"
  let ?bal1 = "(?bal(a := ?bal a - half))(e_player1 e := (?bal(a := ?bal a - half)) (e_player1 e) + half)"
  let ?bal2 = "(?bal1(a := ?bal1 a - half))(e_player2 e := (?bal1(a := ?bal1 a - half)) (e_player2 e) + half)"
  have sp: "unat ?sp = half"
    using assms(6-8) by (simp add: unat_split)
  have t1: "coin_transfer ?bal a (e_player1 e) ?sp = Inr ?bal1"
    using assms(9) by (simp add: coin_transfer_def coin_withdraw_def coin_deposit_def sp)
  have "half \<le> ?bal1 a"
    using assms(9) by (cases "a = e_player1 e") auto
  then have t2: "coin_transfer ?bal1 a (e_player2 e) ?sp = Inr ?bal2"
    by (simp add: coin_transfer_def coin_withdraw_def coin_deposit_def sp del: fun_upd_apply)
  have eq: "?bal2 = (\<lambda>x. coin_balance s x
                     + (if x = e_player1 e then half else 0)
                     + (if x = e_player2 e then half else 0)
                     - (if x = a then 2 * half else 0))"
    using assms(9) by (auto simp: fun_eq_iff)
  have "resolve_draw s a m =
           Inr (s\<lparr>escrow_stores := (escrow_stores s)(a \<mapsto> store(m := None)),
                  coin_balance := ?bal2\<rparr>)"
    using assms(1-6) t1 t2 by (simp add: resolve_draw_def Let_def del: fun_upd_apply)
  moreover have "fee \<le> unat (total e)"
    using assms(7) by simp
  ultimately show ?thesis
    using assms(8) unfolding eq by (simp; linarith)
qed

subsection \<open>An escrow whose two players are the same identity\<close>

lemma initialize_escrow_at:
  "escrow_initialize s a' = Inr s' \<Longrightarrow> escrow_at s a m = Some e \<Longrightarrow> escrow_at s' a m = Some e"
  by (auto simp: escrow_initialize_def escrow_at_def split: if_splits option.splits)

lemma create_escrow_at:
  "create_escrow s a' m' p1 p2 amt = Inr s' \<Longrightarrow> escrow_at s a m = Some e \<Longrightarrow> escrow_at s' a m = Some e"
  by (auto simp: create_escrow_def escrow_at_def split: if_splits option.splits)

lemma resolve_win_escrow_at:
  assumes "resolve_win s a' m' w = Inr s'" and "escrow_at s a m = Some e" and "\<not> deposited2 e"
  shows "escrow_at s' a m = Some e"
  using assms(1)
proof (cases rule: resolve_win_Inr_ready)
  case (1 store e' bal')
  with assms(2,3) show ?thesis by (auto simp: escrow_at_def)
qed

lemma resolve_draw_escrow_at:
  assumes "resolve_draw s a' m' = Inr s'" and "escrow_at s a m = Some e" and "\<not> deposited2 e"
  shows "escrow_at s' a m = Some e"
  using assms(1)
proof (cases rule: resolve_draw_Inr_ready)
  case (1 store e' bal')
  with assms(2,3) show ?thesis by (auto simp: escrow_at_def)
qed

lemma deposit_escrow_at:
  assumes "deposit s q a' m' = Inr s'" and "escrow_at s a m = Some e"
    and "e_player1 e = e_player2 e" and "\<not> deposited2 e"
  shows "\<exists>e'. escrow_at s' a m = Some e' \<and> e_admin e' = e_admin e \<and>
           e_player1 e' = e_player1 e \<and> e_player2 e' = e_player2 e \<and>
           \<not> deposited2 e' \<and> (deposited1 e \<longrightarrow> deposited1 e') \<and>
           (a' = a \<and> m' = m \<and> q = e_player1 e \<longrightarrow> deposited1 e')"
  using assms(1)
proof (cases rule: deposit_Inr_cases)
  case (noop store e0)
  with assms(2-) show ?thesis by (auto simp: escrow_at_def)
next
  case (first store e0 bal')
  with assms(2-) show ?thesis by (auto simp: escrow_at_def)
next
  case (second store e0 bal')
  with assms(2-) show ?thesis by (auto simp: escrow_at_def)
qed

lemma unfunded_step:
  assumes "same_player_unfunded s a m p" and "escrow_exec s c = Inr s'"
  shows "same_player_unfunded s' a m p"
proof -
  from assms(1) obtain e where e: "escrow_at s a m = Some e" "e_admin e = a"
      "e_player1 e = p" "e_player2 e = p" "\<not> deposited2 e"
    by (auto simp: same_player_unfunded_def split: option.splits)
  show ?thesis
  proof (cases c)
    case (Initialize a')
    with assms(2) e show ?thesis
      by (simp add: same_player_unfunded_def initialize_escrow_at)
  next
    case (CreateEscrow a' m' p1 p2 amt)
    with assms(2) e show ?thesis
      by (simp add: same_player_unfunded_def create_escrow_at)
  next
    case (Deposit q a' m')
    with assms(2) have "deposit s q a' m' = Inr s'" by simp
    from deposit_escrow_at [OF this e(1)] e show ?thesis
      by (auto simp: same_player_unfunded_def)
  next
    case (ResolveWin a' m' w)
    with assms(2) e show ?thesis
      by (simp add: same_player_unfunded_def resolve_win_escrow_at)
  next
    case (ResolveDraw a' m')
    with assms(2) e show ?thesis
      by (simp add: same_player_unfunded_def resolve_draw_escrow_at)
  qed
qed

lemma half_funded_step:
  assumes "same_player_half_funded s a m p" and "escrow_exec s c = Inr s'"
  shows "same_player_half_funded s' a m p"
proof -
  from assms(1) obtain e where e: "escrow_at s a m = Some e" "e_admin e = a"
      "e_player1 e = p" "e_player2 e = p" "deposited1 e" "\<not> deposited2 e"
    by (auto simp: same_player_half_funded_def split: option.splits)
  show ?thesis
  proof (cases c)
    case (Initialize a')
    with assms(2) e show ?thesis
      by (simp add: same_player_half_funded_def initialize_escrow_at)
  next
    case (CreateEscrow a' m' p1 p2 amt)
    with assms(2) e show ?thesis
      by (simp add: same_player_half_funded_def create_escrow_at)
  next
    case (Deposit q a' m')
    with assms(2) have "deposit s q a' m' = Inr s'" by simp
    from deposit_escrow_at [OF this e(1)] e show ?thesis
      by (auto simp: same_player_half_funded_def)
  next
    case (ResolveWin a' m' w)
    with assms(2) e show ?thesis
      by (simp add: same_player_half_funded_def resolve_win_escrow_at)
  next
    case (ResolveDraw a' m')
    with assms(2) e show ?thesis
      by (simp add: same_player_half_funded_def resolve_draw_escrow_at)
  qed
qed

lemma unfunded_run: "same_player_unfunded s a m p \<Longrightarrow> same_player_unfunded (escrow_run s cs) a m p"
proof (induction cs arbitrary: s)
  case Nil
  then show ?case by simp
next
  case (Cons c cs)
  show ?case
  proof (cases "escrow_exec s c")
    case (Inl e)
    with Cons show ?thesis by simp
  next
    case (Inr s')
    with Cons unfunded_step [OF Cons.prems Inr] show ?thesis by simp
  qed
qed

lemma half_funded_run:
  "same_player_half_funded s a m p \<Longrightarrow> same_player_half_funded (escrow_run s cs) a m p"
proof (induction cs arbitrary: s)
  case Nil
  then show ?case by simp
next
  case (Cons c cs)
  show ?case
  proof (cases "escrow_exec s c")
    case (Inl e)
    with Cons show ?thesis by simp
  next
    case (Inr s')
    with Cons half_funded_step [OF Cons.prems Inr] show ?thesis by simp
  qed
qed

lemma create_same_player_unfunded:
  "create_escrow s0 a m p p amt = Inr s1 \<Longrightarrow> same_player_unfunded s1 a m p"
  by (auto simp: create_escrow_def same_player_unfunded_def escrow_at_def
      split: option.splits if_splits)

lemma unfunded_not_ready:
  assumes "same_player_unfunded s a m p"
  shows "resolve_win s a m w = Inl (Abort EESCROW_NOT_READY)"
    and "resolve_draw s a m = Inl (Abort EESCROW_NOT_READY)"
proof -
  from assms obtain store e where e: "escrow_stores s a = Some store" "store m = Some e"
      "e_admin e = a" "\<not> deposited2 e"
    by (auto simp: same_player_unfunded_def escrow_at_def split: option.splits)
  from e show "resolve_win s a m w = Inl (Abort EESCROW_NOT_READY)"
    by (simp add: resolve_win_def)
  from e show "resolve_draw s a m = Inl (Abort EESCROW_NOT_READY)"
    by (simp add: resolve_draw_def)
qed

lemma unfunded_deposit:
  assumes "same_player_unfunded s a m p" and "deposit s p a m = Inr s'"
  shows "same_player_half_funded s' a m p"
proof -
  from assms(1) obtain e where e: "escrow_at s a m = Some e" "e_admin e = a"
      "e_player1 e = p" "e_player2 e = p" "\<not> deposited2 e"
    by (auto simp: same_player_unfunded_def split: option.splits)
  from deposit_escrow_at [OF assms(2) e(1)] e show ?thesis
    by (auto simp: same_player_half_funded_def)
qed

lemma half_funded_deposit:
  assumes "same_player_half_funded s a m p"
  shows "deposit s p a m = Inl (Abort EALREADY_DEPOSITED)"
proof -
  from assms obtain store e where "escrow_stores s a = Some store" "store m = Some e"
      "e_player1 e = p" "deposited1 e"
    by (auto simp: same_player_half_funded_def escrow_at_def split: option.splits)
  then show ?thesis by (simp add: deposit_def)
qed

text \<open>
  Claim C10: for every escrow created with \<open>player1 = player2 = p\<close>, after every
  history \<open>cs\<close> of transactions (by any callers, aborted ones rolled back) the record
  is still there with its second deposit flag clear, so \<^verbatim>\<open>resolve_win\<close> (for every
  winner) and \<^verbatim>\<open>resolve_draw\<close> by the administrator abort with \<^verbatim>\<open>EESCROW_NOT_READY\<close>.
  A deposit by \<open>p\<close> that succeeds sets the first flag only, and after it every
  deposit by \<open>p\<close>, at any later point \<open>cs'\<close>, aborts with \<^verbatim>\<open>EALREADY_DEPOSITED\<close>.  The
  fully funded state is unreachable and the stake is never paid out by the module.
\<close>

theorem same_player_escrow_never_resolves:
  assumes "create_escrow s0 a m p p amt = Inr s1"
  shows "same_player_unfunded (escrow_run s1 cs) a m p \<and>
         resolve_win (escrow_run s1 cs) a m w = Inl (Abort EESCROW_NOT_READY) \<and>
         resolve_draw (escrow_run s1 cs) a m = Inl (Abort EESCROW_NOT_READY) \<and>
         (\<forall>s'. deposit (escrow_run s1 cs) p a m = Inr s' \<longrightarrow>
            same_player_half_funded s' a m p \<and>
            deposit (escrow_run s' cs') p a m = Inl (Abort EALREADY_DEPOSITED))"
proof -
  have u: "same_player_unfunded (escrow_run s1 cs) a m p"
    by (rule unfunded_run [OF create_same_player_unfunded [OF assms]])
  show ?thesis
    using u unfunded_not_ready [OF u] unfunded_deposit [OF u]
      half_funded_deposit [OF half_funded_run]
    by blast
qed

theorem same_player_escrow_never_resolves_witness:
  "create_escrow ex_initialized 10 1 11 11 5 = Inr ex_same_player \<and>
   resolve_win (escrow_run ex_same_player [Deposit 11 10 1, Deposit 12 10 1]) 10 1 11
     = Inl (Abort EESCROW_NOT_READY) \<and>
   resolve_draw (escrow_run ex_same_player [Deposit 11 10 1, Deposit 12 10 1]) 10 1
     = Inl (Abort EESCROW_NOT_READY) \<and>
   deposit ex_same_player 11 10 1 = Inr (escrow_run ex_same_player [Deposit 11 10 1]) \<and>
   same_player_half_funded (escrow_run ex_same_player [Deposit 11 10 1]) 10 1 11 \<and>
   deposit (escrow_run ex_same_player [Deposit 11 10 1]) 11 10 1
     = Inl (Abort EALREADY_DEPOSITED)"
proof -
  have h: "create_escrow ex_initialized 10 1 11 11 5 = Inr ex_same_player"
    by (simp add: ex_same_player_eq ex_initialized_eq create_escrow_def)
  have d: "deposit (escrow_run ex_same_player []) 11 10 1
             = Inr (escrow_run ex_same_player [Deposit 11 10 1])"
    by (simp add: ex_same_player_eq escrow_ops)
  have A: "resolve_win (escrow_run ex_same_player [Deposit 11 10 1, Deposit 12 10 1]) 10 1 11
             = Inl (Abort EESCROW_NOT_READY) \<and>
           resolve_draw (escrow_run ex_same_player [Deposit 11 10 1, Deposit 12 10 1]) 10 1
             = Inl (Abort EESCROW_NOT_READY)"
    using same_player_escrow_never_resolves [OF h, of "[Deposit 11 10 1, Deposit 12 10 1]" 11 "[]"]
    by blast
  have B: "same_player_half_funded (escrow_run ex_same_player [Deposit 11 10 1]) 10 1 11 \<and>
           deposit (escrow_run (escrow_run ex_same_player [Deposit 11 10 1]) []) 11 10 1
             = Inl (Abort EALREADY_DEPOSITED)"
    using same_player_escrow_never_resolves [OF h, of "[]" 11 "[]"] d
    by blast
  have e: "escrow_run ex_same_player [] = ex_same_player"
    "escrow_run (escrow_run ex_same_player [Deposit 11 10 1]) []
       = escrow_run ex_same_player [Deposit 11 10 1]"
    by (simp_all only: escrow_run.simps)
  show ?thesis
    using h d A B unfolding e by blast
qed

section \<open>The Solidity escrow: fee arithmetic and transfers\<close>

lemmas ce_ops =
  createEscrow_def deposit_sol_def resolveWin_def resolveDraw_def noEscrow_def
  FEE_PERCENTAGE_def u256_add_def u256_mul_def safeTransfer_def safeTransferFrom_def

subsection \<open>The example history, evaluated\<close>


lemma ex_ce_created_eq:
  "stake \<noteq> 0 \<Longrightarrow> ex_ce_created stake = \<lparr>escrowThis = 99, escrowToken = ex_ce_token,
      escrows = (\<lambda>_. noEscrow)(1 := ex_sol_escrow stake 0 False)\<rparr>"
  by (simp add: ex_ce_created_def ex_ce_deployed_def escrowDeployed_def ex_sol_escrow_def ce_ops
      word_gt_0)

lemma ex_ce_funded_10:
  "ex_ce_funded 10 = \<lparr>escrowThis = 99,
      escrowToken = \<lparr>balanceOf = (\<lambda>x. if x = 99 then 20 else if x = 2 \<or> x = 3 then 9990 else 10000),
                      allowance = (\<lambda>x y. if (x = 2 \<or> x = 3) \<and> y = 99 then 9990 else 10000)\<rparr>,
      escrows = (\<lambda>_. noEscrow)(1 := ex_sol_escrow 10 20 True)\<rparr>"
  by (simp add: ex_ce_funded_def ex_ce_created_eq ex_ce_token_def ex_sol_escrow_def ce_ops Let_def
      fun_eq_iff)



subsection \<open>Payouts\<close>

lemma fee256:
  fixes t :: uint256
  assumes "unat t * 5 < 2 ^ 256"
  shows "u256_mul t FEE_PERCENTAGE = Inr (t * 5)"
    and "unat (t * 5 div 100) = unat t * 5 div 100"
    and "unat (t - t * 5 div 100) = unat t - unat t * 5 div 100"
    and "unat ((t - t * 5 div 100) div 2) = (unat t - unat t * 5 div 100) div 2"
proof -
  show "u256_mul t FEE_PERCENTAGE = Inr (t * 5)"
    using assms by (simp add: u256_mul_def FEE_PERCENTAGE_def)
  have "unat (t * 5) = unat t * unat (5 :: uint256)"
    using assms by (simp add: unat_mult_lem [THEN iffD1])
  then show fee: "unat (t * 5 div 100) = unat t * 5 div 100"
    by (simp add: unat_div)
  then have "t * 5 div 100 \<le> t" by (simp add: word_le_nat_alt)
  then show pay: "unat (t - t * 5 div 100) = unat t - unat t * 5 div 100"
    using fee by (simp add: unat_sub)
  then show "unat ((t - t * 5 div 100) div 2) = (unat t - unat t * 5 div 100) div 2"
    by (simp add: unat_div)
qed

lemma safeTransfer_ok:
  assumes "unat amt \<le> balanceOf tok from"
  shows "safeTransfer tok from to amt =
           Inr (tok\<lparr>balanceOf := ((balanceOf tok)(from := balanceOf tok from - unat amt))
                  (to := ((balanceOf tok)(from := balanceOf tok from - unat amt)) to + unat amt)\<rparr>)"
  using assms by (simp add: safeTransfer_def Let_def)

text \<open>
  \<^verbatim>\<open>resolveWin\<close> called by the administrator of a fully funded escrow, when the
  contract holds the total: the winner receives \<open>total - fee\<close>, the administrator the
  fee, both out of the contract's balance, and the record is deleted.
\<close>

lemma resolveWin_pays:
  assumes "escrowAdmin (escrows s mid) = a" and "a \<noteq> 0"
    and "escrowDeposited1 (escrows s mid)" and "escrowDeposited2 (escrows s mid)"
    and "escrowTotal (escrows s mid) = t"
    and "unat t * 5 < 2 ^ 256"
    and "fee = unat t * 5 div 100" and "payout = unat t - fee"
    and "unat t \<le> balanceOf (escrowToken s) (escrowThis s)"
  shows "resolveWin s a mid w =
           Inr (s\<lparr>escrowToken := (escrowToken s)\<lparr>balanceOf :=
                    (\<lambda>x. balanceOf (escrowToken s) x
                       + (if x = w then payout else 0)
                       + (if x = a then fee else 0)
                       - (if x = escrowThis s then unat t else 0))\<rparr>,
                  escrows := (escrows s)(mid := noEscrow)\<rparr>)"
proof -
  let ?self = "escrowThis s"
  let ?tok = "escrowToken s"
  let ?bal = "balanceOf ?tok"
  let ?wfee = "t * 5 div 100"
  let ?wpay = "t - t * 5 div 100"
  note f = fee256 [OF assms(6)]
  have fee: "unat ?wfee = fee" and pay: "unat ?wpay = payout"
    using f(2,3) assms(7,8) by simp_all
  have le: "fee \<le> unat t" using assms(7) by simp
  define b1 where "b1 = (?bal(?self := ?bal ?self - payout))
                          (w := (?bal(?self := ?bal ?self - payout)) w + payout)"
  define tok1 where "tok1 = ?tok\<lparr>balanceOf := b1\<rparr>"
  define b2 where "b2 = (b1(?self := b1 ?self - fee))(a := (b1(?self := b1 ?self - fee)) a + fee)"
  define tok2 where "tok2 = ?tok\<lparr>balanceOf := b2\<rparr>"
  have t1: "safeTransfer ?tok ?self w ?wpay = Inr tok1"
    unfolding tok1_def b1_def
    using safeTransfer_ok [of ?wpay ?tok ?self w] assms(8,9) by (simp add: pay)
  have cover: "fee \<le> b1 ?self"
    unfolding b1_def using assms(8,9) le by (cases "w = ?self") auto
  have t2: "(if 0 < ?wfee then safeTransfer tok1 ?self a ?wfee else Inr tok1) = Inr tok2"
  proof (cases "0 < ?wfee")
    case True
    have "safeTransfer tok1 ?self a ?wfee = Inr tok2"
      unfolding tok2_def b2_def
      using safeTransfer_ok [of ?wfee tok1 ?self a] cover
      by (simp add: fee tok1_def)
    with True show ?thesis by simp
  next
    case False
    then have "fee = 0" using fee by (simp add: word_gt_0 unat_eq_zero)
    then have "b2 = b1" by (simp add: b2_def fun_eq_iff)
    with False show ?thesis by (simp add: tok1_def tok2_def)
  qed
  have eq: "b2 = (\<lambda>x. ?bal x + (if x = w then payout else 0) + (if x = a then fee else 0)
                     - (if x = ?self then unat t else 0))"
    unfolding b2_def b1_def using assms(8,9) le by (auto simp: fun_eq_iff)
  have "resolveWin s a mid w =
          Inr (s\<lparr>escrowToken := tok2, escrows := (escrows s)(mid := noEscrow)\<rparr>)"
    using assms(1-5) f(1) t1 t2
    by (simp add: resolveWin_def Let_def split: if_splits)
  then show ?thesis unfolding tok2_def eq .
qed

text \<open>
  \<^verbatim>\<open>resolveDraw\<close> likewise: each player receives \<open>half = floor((total - fee) / 2)\<close>, the
  administrator the fee; the contract's balance falls by \<open>2 * half + fee\<close>.
\<close>

lemma resolveDraw_pays:
  assumes "escrowAdmin (escrows s mid) = a" and "a \<noteq> 0"
    and "escrowDeposited1 (escrows s mid)" and "escrowDeposited2 (escrows s mid)"
    and "escrowTotal (escrows s mid) = t"
    and "escrowPlayer1 (escrows s mid) = p1" and "escrowPlayer2 (escrows s mid) = p2"
    and "unat t * 5 < 2 ^ 256"
    and "fee = unat t * 5 div 100" and "half = (unat t - fee) div 2"
    and "unat t \<le> balanceOf (escrowToken s) (escrowThis s)"
  shows "resolveDraw s a mid =
           Inr (s\<lparr>escrowToken := (escrowToken s)\<lparr>balanceOf :=
                    (\<lambda>x. balanceOf (escrowToken s) x
                       + (if x = p1 then half else 0)
                       + (if x = p2 then half else 0)
                       + (if x = a then fee else 0)
                       - (if x = escrowThis s then 2 * half + fee else 0))\<rparr>,
                  escrows := (escrows s)(mid := noEscrow)\<rparr>)"
proof -
  let ?self = "escrowThis s"
  let ?tok = "escrowToken s"
  let ?bal = "balanceOf ?tok"
  let ?wfee = "t * 5 div 100"
  let ?whalf = "(t - t * 5 div 100) div 2"
  note f = fee256 [OF assms(8)]
  have fee: "unat ?wfee = fee" and half: "unat ?whalf = half"
    using f(2,4) assms(9,10) by simp_all
  have le: "2 * half + fee \<le> unat t" using assms(9,10) by simp
  define b1 where "b1 = (?bal(?self := ?bal ?self - half))
                          (p1 := (?bal(?self := ?bal ?self - half)) p1 + half)"
  define tok1 where "tok1 = ?tok\<lparr>balanceOf := b1\<rparr>"
  define b2 where "b2 = (b1(?self := b1 ?self - half))(p2 := (b1(?self := b1 ?self - half)) p2 + half)"
  define tok2 where "tok2 = ?tok\<lparr>balanceOf := b2\<rparr>"
  define b3 where "b3 = (b2(?self := b2 ?self - fee))(a := (b2(?self := b2 ?self - fee)) a + fee)"
  define tok3 where "tok3 = ?tok\<lparr>balanceOf := b3\<rparr>"
  have t1: "safeTransfer ?tok ?self p1 ?whalf = Inr tok1"
    unfolding tok1_def b1_def
    using safeTransfer_ok [of ?whalf ?tok ?self p1] assms(11) le by (simp add: half)
  have c1: "half \<le> b1 ?self"
    unfolding b1_def using assms(11) le by (cases "p1 = ?self") auto
  have t2: "safeTransfer tok1 ?self p2 ?whalf = Inr tok2"
    unfolding tok2_def b2_def
    using safeTransfer_ok [of ?whalf tok1 ?self p2] c1 by (simp add: half tok1_def)
  have c2: "fee \<le> b2 ?self"
    unfolding b2_def b1_def using assms(11) le by (cases "p1 = ?self"; cases "p2 = ?self") auto
  have t3: "(if 0 < ?wfee then safeTransfer tok2 ?self a ?wfee else Inr tok2) = Inr tok3"
  proof (cases "0 < ?wfee")
    case True
    have "safeTransfer tok2 ?self a ?wfee = Inr tok3"
      unfolding tok3_def b3_def
      using safeTransfer_ok [of ?wfee tok2 ?self a] c2
      by (simp add: fee tok2_def)
    with True show ?thesis by simp
  next
    case False
    then have "fee = 0" using fee by (simp add: word_gt_0 unat_eq_zero)
    then have "b3 = b2" by (simp add: b3_def fun_eq_iff)
    with False show ?thesis by (simp add: tok2_def tok3_def)
  qed
  have eq: "b3 = (\<lambda>x. ?bal x + (if x = p1 then half else 0) + (if x = p2 then half else 0)
                     + (if x = a then fee else 0)
                     - (if x = ?self then 2 * half + fee else 0))"
    unfolding b3_def b2_def b1_def using assms(11) le by (auto simp: fun_eq_iff)
  have "resolveDraw s a mid =
          Inr (s\<lparr>escrowToken := tok3, escrows := (escrows s)(mid := noEscrow)\<rparr>)"
    using assms(1-7) f(1) t1 t2 t3
    by (simp add: resolveDraw_def Let_def split: if_splits)
  then show ?thesis unfolding tok3_def eq .
qed

subsection \<open>Creation and deposits\<close>

text \<open>
  \<^verbatim>\<open>createEscrow\<close> rejects an existing key, a zero player address and a zero stake, in
  this order, and otherwise writes a fresh record with no deposits.
\<close>

lemma createEscrow_validates:
  "createEscrow s sender mid p1 p2 amt =
     (if escrowAdmin (escrows s mid) \<noteq> 0 then Inl EscrowAlreadyExists
      else if p1 = 0 \<or> p2 = 0 then Inl (Error ''Invalid players'')
      else if amt = 0 then Inl (Error ''Invalid amount'')
      else Inr (s\<lparr>escrows := (escrows s)(mid :=
             \<lparr>escrowAdmin = sender, escrowPlayer1 = p1, escrowPlayer2 = p2, escrowAmount = amt,
              escrowTotal = 0, escrowDeposited1 = False, escrowDeposited2 = False\<rparr>)\<rparr>))"
  by (simp add: createEscrow_def word_gt_0)

text \<open>
  A caller that is neither player of the record is refused with \<^verbatim>\<open>EscrowNotFound\<close>,
  whether the record exists or not; the transaction changes nothing.
\<close>

lemma deposit_sol_outsider_not_found:
  assumes "sender \<noteq> escrowPlayer1 (escrows s mid)" and "sender \<noteq> escrowPlayer2 (escrows s mid)"
  shows "deposit_sol s sender mid = Inl EscrowNotFound"
    and "ce_run s [CallDeposit sender mid] = s"
  using assms by (simp_all add: deposit_sol_def Let_def)

lemma safeTransferFrom_Inr:
  assumes "safeTransferFrom tok spender from to amt = Inr tok'"
  shows "balanceOf tok' = ((balanceOf tok)(from := balanceOf tok from - unat amt))
           (to := ((balanceOf tok)(from := balanceOf tok from - unat amt)) to + unat amt)"
  using assms
  by (auto simp: safeTransferFrom_def safeTransfer_def Let_def split: if_splits)

lemma deposit_sol_Inr_cases:
  assumes "deposit_sol s sender mid = Inr s'"
  obtains (first) tok' where "sender = escrowPlayer1 (escrows s mid)"
      "\<not> escrowDeposited1 (escrows s mid)"
      "safeTransferFrom (escrowToken s) (escrowThis s) sender (escrowThis s)
         (escrowAmount (escrows s mid)) = Inr tok'"
      "unat (escrowTotal (escrows s mid)) + unat (escrowAmount (escrows s mid)) < 2 ^ 256"
      "s' = s\<lparr>escrowToken := tok', escrows := (escrows s)(mid := (escrows s mid)
             \<lparr>escrowDeposited1 := True,
              escrowTotal := escrowTotal (escrows s mid) + escrowAmount (escrows s mid)\<rparr>)\<rparr>"
  | (second) tok' where "sender \<noteq> escrowPlayer1 (escrows s mid)"
      "sender = escrowPlayer2 (escrows s mid)"
      "\<not> escrowDeposited2 (escrows s mid)"
      "safeTransferFrom (escrowToken s) (escrowThis s) sender (escrowThis s)
         (escrowAmount (escrows s mid)) = Inr tok'"
      "unat (escrowTotal (escrows s mid)) + unat (escrowAmount (escrows s mid)) < 2 ^ 256"
      "s' = s\<lparr>escrowToken := tok', escrows := (escrows s)(mid := (escrows s mid)
             \<lparr>escrowDeposited2 := True,
              escrowTotal := escrowTotal (escrows s mid) + escrowAmount (escrows s mid)\<rparr>)\<rparr>"
proof (cases "sender = escrowPlayer1 (escrows s mid)")
  case True
  with assms obtain tok' where "\<not> escrowDeposited1 (escrows s mid)"
      "safeTransferFrom (escrowToken s) (escrowThis s) sender (escrowThis s)
         (escrowAmount (escrows s mid)) = Inr tok'"
      "unat (escrowTotal (escrows s mid)) + unat (escrowAmount (escrows s mid)) < 2 ^ 256"
      "s' = s\<lparr>escrowToken := tok', escrows := (escrows s)(mid := (escrows s mid)
             \<lparr>escrowDeposited1 := True,
              escrowTotal := escrowTotal (escrows s mid) + escrowAmount (escrows s mid)\<rparr>)\<rparr>"
    by (auto simp: deposit_sol_def Let_def u256_add_def split: if_splits sum.splits)
  with True show ?thesis by (rule_tac first)
next
  case False
  with assms obtain tok' where "sender = escrowPlayer2 (escrows s mid)"
      "\<not> escrowDeposited2 (escrows s mid)"
      "safeTransferFrom (escrowToken s) (escrowThis s) sender (escrowThis s)
         (escrowAmount (escrows s mid)) = Inr tok'"
      "unat (escrowTotal (escrows s mid)) + unat (escrowAmount (escrows s mid)) < 2 ^ 256"
      "s' = s\<lparr>escrowToken := tok', escrows := (escrows s)(mid := (escrows s mid)
             \<lparr>escrowDeposited2 := True,
              escrowTotal := escrowTotal (escrows s mid) + escrowAmount (escrows s mid)\<rparr>)\<rparr>"
    by (auto simp: deposit_sol_def Let_def u256_add_def split: if_splits sum.splits)
  with False show ?thesis by (rule_tac second)
qed

lemma resolveWin_Inr_guards:
  assumes "resolveWin s sender mid w = Inr s'"
  shows "escrowAdmin (escrows s mid) = sender \<and> sender \<noteq> 0 \<and>
         escrowDeposited1 (escrows s mid) \<and> escrowDeposited2 (escrows s mid) \<and>
         unat (escrowTotal (escrows s mid)) * 5 < 2 ^ 256"
proof -
  from assms have g: "escrowAdmin (escrows s mid) \<noteq> 0" "sender = escrowAdmin (escrows s mid)"
      "escrowDeposited1 (escrows s mid)" "escrowDeposited2 (escrows s mid)"
    by (auto simp: resolveWin_def Let_def split: if_splits)
  with assms have "u256_mul (escrowTotal (escrows s mid)) FEE_PERCENTAGE \<noteq> Inl Panic"
    by (auto simp: resolveWin_def Let_def)
  then have "unat (escrowTotal (escrows s mid)) * 5 < 2 ^ 256"
    by (simp add: u256_mul_def FEE_PERCENTAGE_def split: if_splits)
  with g show ?thesis by simp
qed

lemma resolveDraw_Inr_guards:
  assumes "resolveDraw s sender mid = Inr s'"
  shows "escrowAdmin (escrows s mid) = sender \<and> sender \<noteq> 0 \<and>
         escrowDeposited1 (escrows s mid) \<and> escrowDeposited2 (escrows s mid) \<and>
         unat (escrowTotal (escrows s mid)) * 5 < 2 ^ 256"
proof -
  from assms have g: "escrowAdmin (escrows s mid) \<noteq> 0" "sender = escrowAdmin (escrows s mid)"
      "escrowDeposited1 (escrows s mid)" "escrowDeposited2 (escrows s mid)"
    by (auto simp: resolveDraw_def Let_def split: if_splits)
  with assms have "u256_mul (escrowTotal (escrows s mid)) FEE_PERCENTAGE \<noteq> Inl Panic"
    by (auto simp: resolveDraw_def Let_def)
  then have "unat (escrowTotal (escrows s mid)) * 5 < 2 ^ 256"
    by (simp add: u256_mul_def FEE_PERCENTAGE_def split: if_splits)
  with g show ?thesis by simp
qed

subsection \<open>The contract's balance covers what the records hold\<close>

lemma escrowed_upd:
  assumes "escrows s' = (escrows s)(mid := e)"
  shows "escrowed s' + unat (escrowTotal (escrows s mid)) = escrowed s + unat (escrowTotal e)"
proof -
  let ?g = "\<lambda>m. unat (escrowTotal (escrows s m))"
  let ?g' = "\<lambda>m. unat (escrowTotal (((escrows s)(mid := e)) m))"
  have fin: "finite (UNIV :: u64 set)" by simp
  have a: "sum ?g UNIV = ?g mid + sum ?g (UNIV - {mid})"
    by (rule sum.remove [OF fin]) simp
  have b: "sum ?g' UNIV = ?g' mid + sum ?g' (UNIV - {mid})"
    by (rule sum.remove [OF fin]) simp
  have c: "sum ?g' (UNIV - {mid}) = sum ?g (UNIV - {mid})"
    by (rule sum.cong) simp_all
  show ?thesis
    unfolding escrowed_def assms using a b c by simp
qed

lemma total_le_escrowed: "unat (escrowTotal (escrows s mid)) \<le> escrowed s"
proof -
  have "(\<lambda>m. unat (escrowTotal (escrows s m))) mid
          \<le> (\<Sum>m\<in>UNIV. unat (escrowTotal (escrows s m)))"
    by (rule member_le_sum) simp_all
  then show ?thesis by (simp add: escrowed_def)
qed

lemma fee_split_le:
  fixes t :: nat
  shows "t * 5 div 100 \<le> t" and "2 * ((t - t * 5 div 100) div 2) + t * 5 div 100 \<le> t"
  by simp_all

lemma ce_exec_solvent:
  assumes "ce_exec s c = Inr s'" and "escrow_solvent s" and "ce_caller c \<noteq> escrowThis s"
  shows "escrow_solvent s' \<and> escrowThis s' = escrowThis s"
proof (cases c)
  case (CallCreateEscrow sender mid p1 p2 amt)
  with assms(1) have s': "s' = s\<lparr>escrows := (escrows s)(mid :=
             \<lparr>escrowAdmin = sender, escrowPlayer1 = p1, escrowPlayer2 = p2, escrowAmount = amt,
              escrowTotal = 0, escrowDeposited1 = False, escrowDeposited2 = False\<rparr>)\<rparr>"
    by (simp add: createEscrow_def split: if_splits)
  have "escrows s' = (escrows s)(mid :=
             \<lparr>escrowAdmin = sender, escrowPlayer1 = p1, escrowPlayer2 = p2, escrowAmount = amt,
              escrowTotal = 0, escrowDeposited1 = False, escrowDeposited2 = False\<rparr>)"
    by (simp add: s')
  from escrowed_upd [OF this] have "escrowed s' \<le> escrowed s" by simp
  with assms(2) show ?thesis
    by (simp add: escrow_solvent_def s' sol_total_tracks_flags_def)
next
  case (CallDeposit sender mid)
  with assms(1) have d: "deposit_sol s sender mid = Inr s'" by simp
  from CallDeposit assms(3) have ns: "sender \<noteq> escrowThis s" by simp
  from assms(2) have tf: "sol_total_tracks_flags (escrows s mid)"
    and others: "\<forall>m. sol_total_tracks_flags (escrows s m)"
    and cover: "escrowed s \<le> balanceOf (escrowToken s) (escrowThis s)"
    by (simp_all add: escrow_solvent_def)
  from d show ?thesis
  proof (cases rule: deposit_sol_Inr_cases)
    case (first tok')
    have bal: "balanceOf tok' (escrowThis s)
                 = balanceOf (escrowToken s) (escrowThis s) + unat (escrowAmount (escrows s mid))"
      using safeTransferFrom_Inr [OF first(3)] ns by simp
    have tot: "unat (escrowTotal (escrows s mid) + escrowAmount (escrows s mid))
                 = unat (escrowTotal (escrows s mid)) + unat (escrowAmount (escrows s mid))"
      using first(4) by (simp add: unat_add_lem [THEN iffD1])
    have "escrows s' = (escrows s)(mid := (escrows s mid)
             \<lparr>escrowDeposited1 := True,
              escrowTotal := escrowTotal (escrows s mid) + escrowAmount (escrows s mid)\<rparr>)"
      by (simp add: first(5))
    from escrowed_upd [OF this]
    have "escrowed s' = escrowed s + unat (escrowAmount (escrows s mid))"
      using tot by simp
    with cover bal have c': "escrowed s' \<le> balanceOf (escrowToken s') (escrowThis s')"
      by (simp add: first(5))
    have tf': "\<forall>m. sol_total_tracks_flags (escrows s' m)"
      using others tf first(2) tot by (simp add: first(5) sol_total_tracks_flags_def)
    have th: "escrowThis s' = escrowThis s" by (simp add: first(5))
    show ?thesis unfolding escrow_solvent_def using tf' c' th by blast
  next
    case (second tok')
    have bal: "balanceOf tok' (escrowThis s)
                 = balanceOf (escrowToken s) (escrowThis s) + unat (escrowAmount (escrows s mid))"
      using safeTransferFrom_Inr [OF second(4)] ns by simp
    have tot: "unat (escrowTotal (escrows s mid) + escrowAmount (escrows s mid))
                 = unat (escrowTotal (escrows s mid)) + unat (escrowAmount (escrows s mid))"
      using second(5) by (simp add: unat_add_lem [THEN iffD1])
    have "escrows s' = (escrows s)(mid := (escrows s mid)
             \<lparr>escrowDeposited2 := True,
              escrowTotal := escrowTotal (escrows s mid) + escrowAmount (escrows s mid)\<rparr>)"
      by (simp add: second(6))
    from escrowed_upd [OF this]
    have "escrowed s' = escrowed s + unat (escrowAmount (escrows s mid))"
      using tot by simp
    with cover bal have c': "escrowed s' \<le> balanceOf (escrowToken s') (escrowThis s')"
      by (simp add: second(6))
    have tf': "\<forall>m. sol_total_tracks_flags (escrows s' m)"
      using others tf second(3) tot by (simp add: second(6) sol_total_tracks_flags_def)
    have th: "escrowThis s' = escrowThis s" by (simp add: second(6))
    show ?thesis unfolding escrow_solvent_def using tf' c' th by blast
  qed
next
  case (CallResolveWin sender mid w)
  with assms(1) have r: "resolveWin s sender mid w = Inr s'" by simp
  note g = resolveWin_Inr_guards [OF r]
  let ?t = "unat (escrowTotal (escrows s mid))"
  from assms(2) have others: "\<forall>m. sol_total_tracks_flags (escrows s m)"
    and cover: "escrowed s \<le> balanceOf (escrowToken s) (escrowThis s)"
    by (simp_all add: escrow_solvent_def)
  have le: "?t \<le> balanceOf (escrowToken s) (escrowThis s)"
    using total_le_escrowed [of s mid] cover by simp
  have "resolveWin s sender mid w =
           Inr (s\<lparr>escrowToken := (escrowToken s)\<lparr>balanceOf :=
                    (\<lambda>x. balanceOf (escrowToken s) x
                       + (if x = w then ?t - ?t * 5 div 100 else 0)
                       + (if x = sender then ?t * 5 div 100 else 0)
                       - (if x = escrowThis s then ?t else 0))\<rparr>,
                  escrows := (escrows s)(mid := noEscrow)\<rparr>)"
    using g le by (intro resolveWin_pays) simp_all
  with r have s': "s' = s\<lparr>escrowToken := (escrowToken s)\<lparr>balanceOf :=
                    (\<lambda>x. balanceOf (escrowToken s) x
                       + (if x = w then ?t - ?t * 5 div 100 else 0)
                       + (if x = sender then ?t * 5 div 100 else 0)
                       - (if x = escrowThis s then ?t else 0))\<rparr>,
                  escrows := (escrows s)(mid := noEscrow)\<rparr>"
    by simp
  have "escrows s' = (escrows s)(mid := noEscrow)" by (simp add: s')
  from escrowed_upd [OF this] have e: "escrowed s' + ?t = escrowed s"
    by (simp add: noEscrow_def)
  define f where "f = ?t * 5 div 100"
  have b: "balanceOf (escrowToken s') (escrowThis s') =
             balanceOf (escrowToken s) (escrowThis s)
               + (if escrowThis s = w then ?t - f else 0)
               + (if escrowThis s = sender then f else 0) - ?t"
    by (simp add: s' f_def)
  have "balanceOf (escrowToken s) (escrowThis s) - ?t
          \<le> balanceOf (escrowToken s') (escrowThis s')"
    unfolding b by simp
  with e cover have c': "escrowed s' \<le> balanceOf (escrowToken s') (escrowThis s')"
    by linarith
  have tf': "\<forall>m. sol_total_tracks_flags (escrows s' m)"
    using others by (simp add: s' sol_total_tracks_flags_def noEscrow_def)
  have th: "escrowThis s' = escrowThis s" by (simp add: s')
  show ?thesis unfolding escrow_solvent_def using tf' c' th by blast
next
  case (CallResolveDraw sender mid)
  with assms(1) have r: "resolveDraw s sender mid = Inr s'" by simp
  note g = resolveDraw_Inr_guards [OF r]
  let ?t = "unat (escrowTotal (escrows s mid))"
  let ?h = "(?t - ?t * 5 div 100) div 2"
  from assms(2) have others: "\<forall>m. sol_total_tracks_flags (escrows s m)"
    and cover: "escrowed s \<le> balanceOf (escrowToken s) (escrowThis s)"
    by (simp_all add: escrow_solvent_def)
  have le: "?t \<le> balanceOf (escrowToken s) (escrowThis s)"
    using total_le_escrowed [of s mid] cover by simp
  have "resolveDraw s sender mid =
           Inr (s\<lparr>escrowToken := (escrowToken s)\<lparr>balanceOf :=
                    (\<lambda>x. balanceOf (escrowToken s) x
                       + (if x = escrowPlayer1 (escrows s mid) then ?h else 0)
                       + (if x = escrowPlayer2 (escrows s mid) then ?h else 0)
                       + (if x = sender then ?t * 5 div 100 else 0)
                       - (if x = escrowThis s then 2 * ?h + ?t * 5 div 100 else 0))\<rparr>,
                  escrows := (escrows s)(mid := noEscrow)\<rparr>)"
    using g le by (intro resolveDraw_pays) simp_all
  with r have s': "s' = s\<lparr>escrowToken := (escrowToken s)\<lparr>balanceOf :=
                    (\<lambda>x. balanceOf (escrowToken s) x
                       + (if x = escrowPlayer1 (escrows s mid) then ?h else 0)
                       + (if x = escrowPlayer2 (escrows s mid) then ?h else 0)
                       + (if x = sender then ?t * 5 div 100 else 0)
                       - (if x = escrowThis s then 2 * ?h + ?t * 5 div 100 else 0))\<rparr>,
                  escrows := (escrows s)(mid := noEscrow)\<rparr>"
    by simp
  have "escrows s' = (escrows s)(mid := noEscrow)" by (simp add: s')
  from escrowed_upd [OF this] have e: "escrowed s' + ?t = escrowed s"
    by (simp add: noEscrow_def)
  define f where "f = ?t * 5 div 100"
  define h where "h = (?t - ?t * 5 div 100) div 2"
  have hf: "2 * h + f \<le> ?t" unfolding h_def f_def by (rule fee_split_le)
  have b: "balanceOf (escrowToken s') (escrowThis s') =
             balanceOf (escrowToken s) (escrowThis s)
               + (if escrowThis s = escrowPlayer1 (escrows s mid) then h else 0)
               + (if escrowThis s = escrowPlayer2 (escrows s mid) then h else 0)
               + (if escrowThis s = sender then f else 0) - (2 * h + f)"
    by (simp add: s' f_def h_def)
  have "balanceOf (escrowToken s) (escrowThis s) - ?t
          \<le> balanceOf (escrowToken s') (escrowThis s')"
    unfolding b using hf by simp
  with e cover have c': "escrowed s' \<le> balanceOf (escrowToken s') (escrowThis s')"
    by linarith
  have tf': "\<forall>m. sol_total_tracks_flags (escrows s' m)"
    using others by (simp add: s' sol_total_tracks_flags_def noEscrow_def)
  have th: "escrowThis s' = escrowThis s" by (simp add: s')
  show ?thesis unfolding escrow_solvent_def using tf' c' th by blast
qed

lemma ce_run_solvent:
  assumes "escrow_solvent s" and "\<forall>c\<in>set cs. ce_caller c \<noteq> escrowThis s"
  shows "escrow_solvent (ce_run s cs) \<and> escrowThis (ce_run s cs) = escrowThis s"
  using assms
proof (induction cs arbitrary: s)
  case Nil
  then show ?case by simp
next
  case (Cons c cs)
  show ?case
  proof (cases "ce_exec s c")
    case (Inl e)
    with Cons.IH [of s] Cons.prems show ?thesis by simp
  next
    case (Inr s1)
    with Cons.prems have "escrow_solvent s1 \<and> escrowThis s1 = escrowThis s"
      by (intro ce_exec_solvent [of s c]) simp_all
    with Cons.IH [of s1] Cons.prems Inr show ?thesis by simp
  qed
qed

lemma escrowDeployed_solvent: "escrow_solvent (escrowDeployed self tok)"
  by (simp add: escrow_solvent_def escrowDeployed_def escrowed_def sol_total_tracks_flags_def
      noEscrow_def)

lemma ce_reachable:
  assumes "s = ce_run (escrowDeployed self tok) cs" and "\<forall>c\<in>set cs. ce_caller c \<noteq> self"
  shows "escrow_solvent s" and "escrowThis s = self"
proof -
  have "escrowThis (escrowDeployed self tok) = self" by (simp add: escrowDeployed_def)
  with assms(2) have "\<forall>c\<in>set cs. ce_caller c \<noteq> escrowThis (escrowDeployed self tok)"
    by simp
  from ce_run_solvent [OF escrowDeployed_solvent this]
  show "escrow_solvent s" and "escrowThis s = self"
    by (simp_all add: assms(1) escrowDeployed_def)
qed

text \<open>After both deposits the record holds twice the stake, and the contract holds it.\<close>

lemma funded_sol_total_is_twice_stake:
  assumes "escrow_solvent s"
    and "escrowDeposited1 (escrows s mid)" and "escrowDeposited2 (escrows s mid)"
  shows "unat (escrowTotal (escrows s mid)) = 2 * unat (escrowAmount (escrows s mid))"
    and "unat (escrowTotal (escrows s mid)) \<le> balanceOf (escrowToken s) (escrowThis s)"
proof -
  from assms(1) have "sol_total_tracks_flags (escrows s mid)"
    by (simp add: escrow_solvent_def)
  with assms(2,3) show "unat (escrowTotal (escrows s mid)) = 2 * unat (escrowAmount (escrows s mid))"
    by (simp add: sol_total_tracks_flags_def)
  from assms(1) have "escrowed s \<le> balanceOf (escrowToken s) (escrowThis s)"
    by (simp add: escrow_solvent_def)
  with total_le_escrowed [of s mid]
  show "unat (escrowTotal (escrows s mid)) \<le> balanceOf (escrowToken s) (escrowThis s)"
    by simp
qed

section \<open>The two escrows compared\<close>

subsection \<open>Creation\<close>

text \<open>
  Claim C9: creating an escrow fails when the match id is taken; otherwise it requires
  a positive stake and two player identities other than the zero identity, rejects
  the call when a requirement is violated, and on success inserts a fresh record with
  \<open>total = 0\<close> and both deposit flags false.  The Solidity \<^verbatim>\<open>createEscrow\<close> does so
  (lemma \<open>createEscrow_validates\<close>): on the deployed contract it answers
  \<open>Invalid players\<close> and \<open>Invalid amount\<close>, creates match \<open>1\<close> for players \<open>2\<close> and \<open>3\<close>
  with stake \<open>10\<close>, and then answers \<^verbatim>\<open>EscrowAlreadyExists\<close>.  The Move
  \<^verbatim>\<open>create_escrow\<close> checks the key only: on an initialised store it creates a match
  with stake \<open>0\<close> and both players \<open>0x0\<close>, a match with stake \<open>0\<close>, and a match whose
  first player is \<open>0x0\<close>.
\<close>

theorem create_escrow_accepts_zero_stake_and_players:
  "create_escrow ex_initialized 10 1 0 0 0 =
     Inr (ex_initialized\<lparr>escrow_stores := [10 \<mapsto> [1 \<mapsto>
            \<lparr>e_admin = 10, e_player1 = 0, e_player2 = 0, amount = 0, total = 0,
             deposited1 = False, deposited2 = False\<rparr>]]\<rparr>) \<and>
   create_escrow ex_initialized 10 1 11 12 0 = Inr (ex_created 0) \<and>
   create_escrow ex_initialized 10 1 0 12 10 =
     Inr (ex_initialized\<lparr>escrow_stores := [10 \<mapsto> [1 \<mapsto>
            \<lparr>e_admin = 10, e_player1 = 0, e_player2 = 12, amount = 10, total = 0,
             deposited1 = False, deposited2 = False\<rparr>]]\<rparr>) \<and>
   createEscrow ex_ce_deployed 1 1 0 0 0 = Inl (Error ''Invalid players'') \<and>
   createEscrow ex_ce_deployed 1 1 2 3 0 = Inl (Error ''Invalid amount'') \<and>
   createEscrow ex_ce_deployed 1 1 0 3 10 = Inl (Error ''Invalid players'') \<and>
   createEscrow ex_ce_deployed 1 1 2 0 10 = Inl (Error ''Invalid players'') \<and>
   createEscrow ex_ce_deployed 1 1 2 3 10 = Inr (ex_ce_created 10) \<and>
   createEscrow (ex_ce_created 10) 1 1 2 3 10 = Inl EscrowAlreadyExists"
  by (simp add: ex_initialized_eq ex_created_eq ex_escrow_def create_escrow_def
      ex_ce_created_eq ex_sol_escrow_def ex_ce_deployed_def escrowDeployed_def createEscrow_def
      noEscrow_def)

subsection \<open>A deposit by an outsider\<close>

text \<open>
  Claim C6: for an existing escrow, a deposit by an identity that is neither player
  fails with NotFound and leaves record and balances unchanged.  The Solidity
  \<^verbatim>\<open>deposit\<close> does so (lemma \<open>deposit_sol_outsider_not_found\<close>): account \<open>4\<close> is refused
  with \<^verbatim>\<open>EscrowNotFound\<close> on the match of players \<open>2\<close> and \<open>3\<close>.  The Move \<^verbatim>\<open>deposit\<close>
  has no final \<^verbatim>\<open>else\<close>: account \<open>13\<close> deposits into the match of players \<open>11\<close> and
  \<open>12\<close>, and the call does not abort with \<^verbatim>\<open>EESCROW_NOT_FOUND\<close>, it returns normally
  with the state it was given.
\<close>

theorem deposit_outsider_falls_through:
  "escrow_at (ex_created 10) 10 1 = Some (ex_escrow 10 0 False) \<and>
   e_player1 (ex_escrow 10 0 False) = 11 \<and> e_player2 (ex_escrow 10 0 False) = 12 \<and>
   deposit (ex_created 10) 13 10 1 = Inr (ex_created 10) \<and>
   deposit (ex_created 10) 13 10 1 \<noteq> Inl (Abort EESCROW_NOT_FOUND) \<and>
   escrows (ex_ce_created 10) 1 = ex_sol_escrow 10 0 False \<and>
   escrowPlayer1 (ex_sol_escrow 10 0 False) = 2 \<and> escrowPlayer2 (ex_sol_escrow 10 0 False) = 3 \<and>
   deposit_sol (ex_ce_created 10) 4 1 = Inl EscrowNotFound \<and>
   ce_run (ex_ce_created 10) [CallDeposit 4 1] = ex_ce_created 10"
  by (simp add: ex_created_eq ex_escrow_def escrow_at_def deposit_def
      ex_ce_created_eq ex_sol_escrow_def deposit_sol_def Let_def)

subsection \<open>Winner takes all\<close>




subsection \<open>Draw\<close>

text \<open>
  The Solidity \<^verbatim>\<open>resolveDraw\<close> in every state that transactions have produced from the
  deployed contract: for a fully funded escrow it pays \<open>half\<close> to each player and the
  fee to the administrator and deletes the record; the contract's balance falls by
  \<open>total - stranded\<close>, where \<open>stranded = total - fee - 2 * half\<close> is 0 or 1.
\<close>

lemma resolveDraw_splits_and_strands:
  assumes "s = ce_run (escrowDeployed self tok) cs"
    and "\<forall>c\<in>set cs. ce_caller c \<noteq> self"
    and "escrowAdmin (escrows s mid) = a" and "a \<noteq> 0"
    and "escrowDeposited1 (escrows s mid)" and "escrowDeposited2 (escrows s mid)"
    and "escrowTotal (escrows s mid) = t"
    and "escrowPlayer1 (escrows s mid) = p1" and "escrowPlayer2 (escrows s mid) = p2"
    and "unat t * 5 < 2 ^ 256"
    and "fee = unat t * 5 div 100" and "half = (unat t - fee) div 2"
    and "stranded = unat t - fee - 2 * half"
  shows "\<exists>s'. resolveDraw s a mid = Inr s' \<and>
            (\<forall>x. balanceOf (escrowToken s') x =
                   balanceOf (escrowToken s) x
                     + (if x = p1 then half else 0)
                     + (if x = p2 then half else 0)
                     + (if x = a then fee else 0)
                     - (if x = self then unat t - stranded else 0)) \<and>
            escrowExists s' mid = Inr False"
    and "fee + 2 * half + stranded = unat t" and "stranded \<le> 1"
proof -
  note r = ce_reachable [OF assms(1,2)]
  note f = funded_sol_total_is_twice_stake [OF r(1) assms(5,6)]
  have cover: "unat t \<le> balanceOf (escrowToken s) (escrowThis s)"
    using f(2) assms(7) by simp
  have le: "fee \<le> unat t" using assms(11) by simp
  show sum: "fee + 2 * half + stranded = unat t"
    using le assms(12,13) by simp
  show "stranded \<le> 1"
    using assms(12,13) by simp
  let ?s' = "s\<lparr>escrowToken := (escrowToken s)\<lparr>balanceOf :=
                    (\<lambda>x. balanceOf (escrowToken s) x
                       + (if x = p1 then half else 0)
                       + (if x = p2 then half else 0)
                       + (if x = a then fee else 0)
                       - (if x = escrowThis s then 2 * half + fee else 0))\<rparr>,
                  escrows := (escrows s)(mid := noEscrow)\<rparr>"
  have "resolveDraw s a mid = Inr ?s'"
    by (rule resolveDraw_pays [OF assms(3-12) cover])
  moreover have "2 * half + fee = unat t - stranded"
    using sum by simp
  then have "\<forall>x. balanceOf (escrowToken ?s') x =
                   balanceOf (escrowToken s) x
                     + (if x = p1 then half else 0)
                     + (if x = p2 then half else 0)
                     + (if x = a then fee else 0)
                     - (if x = self then unat t - stranded else 0)"
    by (simp add: r(2))
  moreover have "escrowExists ?s' mid = Inr False"
    by (simp add: escrowExists_def noEscrow_def)
  ultimately show "\<exists>s'. resolveDraw s a mid = Inr s' \<and>
            (\<forall>x. balanceOf (escrowToken s') x =
                   balanceOf (escrowToken s) x
                     + (if x = p1 then half else 0)
                     + (if x = p2 then half else 0)
                     + (if x = a then fee else 0)
                     - (if x = self then unat t - stranded else 0)) \<and>
            escrowExists s' mid = Inr False"
    by blast
qed

text \<open>
  Claim C4: for a fully funded escrow, resolving a draw transfers
  \<open>half = floor((total - fee) / 2)\<close> to each player and the fee
  \<open>floor(total * 5 / 100)\<close> to the administrator, deletes the record, and leaves
  \<open>total - fee - 2 * half\<close> (0 or 1) stranded, transferred to no one.  With a stake of
  \<open>10\<close> per player the escrow holds \<open>20\<close>, the fee is \<open>1\<close> and each player gets \<open>9\<close>.
  The Solidity \<^verbatim>\<open>resolveDraw\<close> does what the claim says: the administrator ends \<open>1\<close>
  above its starting balance and the contract, empty at the start, keeps \<open>1\<close>.  The
  Move \<^verbatim>\<open>resolve_draw\<close> makes two transfers, both out of the administrator's account,
  where the deposits went; that account ends \<open>2\<close> above its starting balance, the fee
  and the odd unit, and the three accounts together hold what they held at the start:
  nothing is stranded.
\<close>

theorem resolve_draw_leaves_odd_unit_with_administrator:
  "escrow_at (ex_funded 10) 10 1 = Some (ex_escrow 10 20 True) \<and>
   unat (total (ex_escrow 10 20 True)) * 5 div 100 = 1 \<and>
   coin_balance (escrow_run (ex_funded 10) [ResolveDraw 10 1]) 11 = coin_balance (ex_funded 10) 11 + 9 \<and>
   coin_balance (escrow_run (ex_funded 10) [ResolveDraw 10 1]) 12 = coin_balance (ex_funded 10) 12 + 9 \<and>
   coin_balance (escrow_run (ex_funded 10) [ResolveDraw 10 1]) 10 = coin_balance ex_genesis 10 + 2 \<and>
   coin_balance (escrow_run (ex_funded 10) [ResolveDraw 10 1]) 10
     + coin_balance (escrow_run (ex_funded 10) [ResolveDraw 10 1]) 11
     + coin_balance (escrow_run (ex_funded 10) [ResolveDraw 10 1]) 12
   = coin_balance ex_genesis 10 + coin_balance ex_genesis 11 + coin_balance ex_genesis 12 \<and>
   escrows (ex_ce_funded 10) 1 = ex_sol_escrow 10 20 True \<and>
   unat (escrowTotal (ex_sol_escrow 10 20 True)) * 5 div 100 = 1 \<and>
   balanceOf (escrowToken (ce_run (ex_ce_funded 10) [CallResolveDraw 1 1])) 2
     = balanceOf (escrowToken (ex_ce_funded 10)) 2 + 9 \<and>
   balanceOf (escrowToken (ce_run (ex_ce_funded 10) [CallResolveDraw 1 1])) 3
     = balanceOf (escrowToken (ex_ce_funded 10)) 3 + 9 \<and>
   balanceOf (escrowToken (ce_run (ex_ce_funded 10) [CallResolveDraw 1 1])) 1
     = balanceOf (escrowToken ex_ce_deployed) 1 + 1 \<and>
   balanceOf (escrowToken ex_ce_deployed) 99 = 0 \<and>
   balanceOf (escrowToken (ce_run (ex_ce_funded 10) [CallResolveDraw 1 1])) 99 = 1 \<and>
   escrowExists (ce_run (ex_ce_funded 10) [CallResolveDraw 1 1]) 1 = Inr False"
proof -
  have sol: "ce_run (ex_ce_funded 10) [CallResolveDraw 1 1] =
     \<lparr>escrowThis = 99,
      escrowToken = \<lparr>balanceOf = (\<lambda>x. if x = 99 then 1 else if x = 2 \<or> x = 3 then 9999
                                        else if x = 1 then 10001 else 10000),
                      allowance = (\<lambda>x y. if (x = 2 \<or> x = 3) \<and> y = 99 then 9990 else 10000)\<rparr>,
      escrows = (\<lambda>_. noEscrow)\<rparr>"
    by (simp add: ex_ce_funded_10 ex_sol_escrow_def ce_ops Let_def fun_eq_iff)
  have mv: "coin_balance (escrow_run (ex_funded 10) [ResolveDraw 10 1]) =
              (\<lambda>x. if x = 10 then 102 else if x = 11 \<or> x = 12 then 99 else 100)"
    by (simp add: ex_funded_10 ex_escrow_def escrow_ops Let_def fun_eq_iff)
  show ?thesis
    unfolding sol mv
    by (simp add: ex_ce_funded_10 ex_funded_10 ex_sol_escrow_def ex_escrow_def escrow_at_def
        ex_genesis_def escrow_empty_def ex_ce_deployed_def escrowDeployed_def ex_ce_token_def
        escrowExists_def noEscrow_def)
qed

section \<open>The pari-mutuel reward\<close>

subsection \<open>Rewards never add up to more than the snapshot\<close>

lemma sum_list_div_mod:
  fixes T :: nat
  shows "sum_list xs = T * sum_list (map (\<lambda>x. x div T) xs) + sum_list (map (\<lambda>x. x mod T) xs)"
proof (induction xs)
  case Nil
  show ?case by simp
next
  case (Cons x xs)
  have "x = T * (x div T) + x mod T" by simp
  with Cons show ?case by (simp add: algebra_simps)
qed

lemma sum_list_mod_bound:
  fixes T :: nat
  assumes "0 < T"
  shows "sum_list (map (\<lambda>x. x mod T) xs) \<le> length xs * (T - 1)"
proof (induction xs)
  case Nil
  show ?case by simp
next
  case (Cons x xs)
  have "x mod T \<le> T - 1" using assms by (simp add: less_Suc_eq_le [symmetric])
  with Cons show ?case by simp
qed

lemma sum_list_scaled: "sum_list (map (\<lambda>s. s * P) ss) = sum_list ss * (P :: nat)"
  by (induction ss) (simp_all add: algebra_simps)

lemma floor_shares_sum_le:
  fixes T P :: nat
  assumes "0 < T" and "sum_list ss \<le> T"
  shows "sum_list (map (\<lambda>s. s * P div T) ss) \<le> P"
proof -
  let ?q = "sum_list (map (\<lambda>x. x div T) (map (\<lambda>s. s * P) ss))"
  have "T * ?q \<le> sum_list (map (\<lambda>s. s * P) ss)"
    using sum_list_div_mod [of "map (\<lambda>s. s * P) ss" T] by simp
  also have "\<dots> = sum_list ss * P" by (rule sum_list_scaled)
  also have "\<dots> \<le> T * P" using assms(2) by simp
  finally have "?q \<le> P" using assms(1) by simp
  then show ?thesis by (simp add: comp_def)
qed

lemma floor_shares_dust:
  fixes T P :: nat
  assumes "0 < T" and "sum_list ss = T" and "ss \<noteq> []"
  shows "P - sum_list (map (\<lambda>s. s * P div T) ss) \<le> length ss - 1"
proof -
  let ?xs = "map (\<lambda>s. s * P) ss"
  let ?q = "sum_list (map (\<lambda>x. x div T) ?xs)"
  let ?r = "sum_list (map (\<lambda>x. x mod T) ?xs)"
  have k: "0 < length ss" using assms(3) by simp
  have a: "T * P = T * ?q + ?r"
    using sum_list_div_mod [of ?xs T] assms(2) by (simp add: sum_list_scaled)
  have b: "?r \<le> length ss * (T - 1)"
    using sum_list_mod_bound [OF assms(1), of ?xs] by simp
  have "T - 1 < T" using assms(1) by simp
  then have c: "length ss * (T - 1) < length ss * T"
    using k by (rule mult_strict_left_mono)
  have d: "length ss * T = T * length ss" by (rule mult.commute)
  from a b c d have "T * P < T * ?q + T * length ss" by linarith
  then have "T * P < T * (?q + length ss)" by (simp only: distrib_left)
  then have "P < ?q + length ss" by simp
  then have "P - ?q \<le> length ss - 1" using k by linarith
  then show ?thesis by (simp add: comp_def)
qed

lemma rewardOf_Inr:
  assumes "rewardOf u P T = Inr r"
  shows "unat r = unat u * unat P div unat T"
proof -
  from assms have lt: "unat u * unat P < 2 ^ 256" and r: "r = u * P div T"
    by (auto simp: rewardOf_def u256_mul_def split: if_splits)
  have "unat (u * P) = unat u * unat P"
    using lt by (simp add: unat_mult_lem [THEN iffD1])
  then show ?thesis by (simp add: r unat_div)
qed

lemma rewards_unat:
  assumes "list_all2 (\<lambda>u r. rewardOf u P T = Inr r) us rs"
  shows "map unat rs = map (\<lambda>s. s * unat P div unat T) (map unat us)"
  using assms by (induction us rs rule: list_all2_induct) (simp_all add: rewardOf_Inr)

text \<open>
  Rewards as the contract computes them, \<open>floor(s * P / T)\<close> each, for shares \<open>us\<close> on
  the winning outcome: if the shares add up to at most \<open>T\<close>, the rewards add up to at
  most \<open>P\<close>; if the shares add up to exactly \<open>T\<close> and there is at least one, \<open>P\<close>
  exceeds the sum of the rewards by at most the number of shares minus one.
\<close>

lemma reward_sums_bounded_by_snapshot:
  assumes "T \<noteq> 0"
    and "list_all2 (\<lambda>u r. rewardOf u P T = Inr r) us rs"
    and "sum_list (map unat us) \<le> unat T"
  shows "sum_list (map unat rs) \<le> unat P \<and>
         (sum_list (map unat us) = unat T \<and> us \<noteq> [] \<longrightarrow>
            unat P - sum_list (map unat rs) \<le> length us - 1)"
proof -
  have T: "0 < unat T" using assms(1) by (simp add: unat_gt_0)
  note eq = rewards_unat [OF assms(2)]
  have "sum_list (map unat rs) \<le> unat P"
    unfolding eq by (rule floor_shares_sum_le [OF T assms(3)])
  moreover have "unat P - sum_list (map unat rs) \<le> length us - 1"
    if "sum_list (map unat us) = unat T" "us \<noteq> []"
    unfolding eq using floor_shares_dust [OF T that(1), of "unat P"] that(2) by simp
  ultimately show ?thesis by blast
qed

section \<open>Bets and the pool\<close>

subsection \<open>Solidity\<close>

lemma u256_add_Inr: "u256_add a b = Inr c \<Longrightarrow> c = a + b \<and> unat c = unat a + unat b"
  by (auto simp: u256_add_def unat_add_lem [THEN iffD1] split: if_splits)

lemma u256_add_unat: "u256_add a b = Inr c \<Longrightarrow> unat c = unat a + unat b"
  by (simp add: u256_add_Inr)

lemma addOutcomeShares_Inr:
  assumes "addOutcomeShares m outcome amt = Inr m1"
  shows "unat (outcomeSharesOf m1 outcome) = unat (outcomeSharesOf m outcome) + unat amt"
    and "unat (player1Shares m1) = unat (player1Shares m) + (if outcome = OUTCOME_PLAYER1 then unat amt else 0)"
    and "unat (player2Shares m1) = unat (player2Shares m)
           + (if outcome \<noteq> OUTCOME_PLAYER1 \<and> outcome = OUTCOME_PLAYER2 then unat amt else 0)"
    and "unat (drawShares m1) = unat (drawShares m)
           + (if outcome \<noteq> OUTCOME_PLAYER1 \<and> outcome \<noteq> OUTCOME_PLAYER2 then unat amt else 0)"
    and "pool m1 = pool m" and "admin m1 = admin m" and "status m1 = status m"
    and "winningOutcome m1 = winningOutcome m" and "originalPoolSize m1 = originalPoolSize m"
  using assms
  by (auto simp: addOutcomeShares_def outcomeSharesOf_def dest!: u256_add_Inr
      split: if_splits sum.splits)

lemma bet_Inr_cases:
  assumes "bet s sender mid outcome amt = Inr s'"
  obtains tok' market1 pool' shares' where
    "outcome = OUTCOME_PLAYER1 \<or> outcome = OUTCOME_PLAYER2 \<or> outcome = OUTCOME_DRAW"
    "amt \<noteq> 0" "admin (markets s mid) \<noteq> 0" "status (markets s mid) = STATUS_ACTIVE"
    "safeTransferFrom (token s) (this s) sender (this s) amt = Inr tok'"
    "addOutcomeShares (markets s mid) outcome amt = Inr market1"
    "u256_add (pool market1) amt = Inr pool'"
    "u256_add (userShares s mid outcome sender) amt = Inr shares'"
    "s' = s\<lparr>token := tok',
            markets := (markets s)(mid := market1\<lparr>pool := pool'\<rparr>),
            userShares := (userShares s)(mid := (userShares s mid)(outcome :=
               (userShares s mid outcome)(sender := shares')))\<rparr>"
  using assms unfolding bet_def
  by (auto split: if_splits sum.splits)

lemma bet_pool_consistent:
  assumes "bet s sender mid outcome amt = Inr s'" and "pool_consistent (markets s m)"
  shows "pool_consistent (markets s' m)"
  using assms(1)
proof (cases rule: bet_Inr_cases)
  case (1 tok' market1 pool' shares')
  note f = addOutcomeShares_Inr [OF 1(6)]
  have p: "unat pool' = unat (pool (markets s mid)) + unat amt"
    using u256_add_unat [OF 1(7)] by (simp add: f(5))
  show ?thesis
  proof (cases "m = mid")
    case False
    with 1(9) assms(2) show ?thesis by simp
  next
    case True
    have "pool_consistent (market1\<lparr>pool := pool'\<rparr>)"
      using assms(2) p True unfolding pool_consistent_def
      by (simp add: f(2,3,4))
    with True 1(9) show ?thesis by simp
  qed
qed

lemma createMarket_pool_consistent:
  assumes "createMarket s sender mid p1 p2 = Inr s'" and "pool_consistent (markets s m)"
  shows "pool_consistent (markets s' m)"
  using assms by (auto simp: createMarket_def pool_consistent_def split: if_splits)

lemma resolveMarket_pool_consistent:
  assumes "resolveMarket s sender mid outcome = Inr s'" and "pool_consistent (markets s m)"
  shows "pool_consistent (markets s' m)"
  using assms by (auto simp: resolveMarket_def pool_consistent_def split: if_splits)

lemma claimRewards_markets:
  assumes "claimRewards s sender mid = Inr s'"
  shows "markets s' = markets s"
  using assms by (auto simp: claimRewards_def Let_def split: if_splits sum.splits)

lemma sol_exec_pool_consistent:
  assumes "sol_exec s c = Inr s'" and "pool_consistent (markets s m)"
  shows "pool_consistent (markets s' m)"
proof (cases c)
  case (CallCreateMarket sender mid p1 p2)
  with assms show ?thesis by (simp add: createMarket_pool_consistent)
next
  case (CallBet sender mid outcome amt)
  with assms show ?thesis by (simp add: bet_pool_consistent)
next
  case (CallResolveMarket sender mid outcome)
  with assms show ?thesis by (simp add: resolveMarket_pool_consistent)
next
  case (CallClaimRewards sender mid)
  with assms show ?thesis by (simp add: claimRewards_markets)
qed

lemma sol_run_pool_consistent:
  "pool_consistent (markets s m) \<Longrightarrow> pool_consistent (markets (sol_run s cs) m)"
proof (induction cs arbitrary: s)
  case Nil
  then show ?case by simp
next
  case (Cons c cs)
  show ?case
  proof (cases "sol_exec s c")
    case (Inl e)
    with Cons show ?thesis by simp
  next
    case (Inr s')
    with Cons sol_exec_pool_consistent [OF Inr Cons.prems] show ?thesis by simp
  qed
qed

lemma deployed_pool_consistent: "pool_consistent (markets (deployed self tok) m)"
  by (simp add: deployed_def pool_consistent_def)

subsection \<open>Move\<close>

lemma u64_add_unat: "u64_add a b = Inr c \<Longrightarrow> unat c = unat a + unat b"
  by (auto simp: u64_add_def unat_add_lem [THEN iffD1] split: if_splits)

lemma add_outcome_shares_Inr:
  assumes "add_outcome_shares m outcome amt = Inr m1"
  shows "unat (outcome_shares_of m1 outcome) = unat (outcome_shares_of m outcome) + unat amt"
    and "unat (player1_shares m1) = unat (player1_shares m) + (if outcome = OUTCOME_PLAYER1 then unat amt else 0)"
    and "unat (player2_shares m1) = unat (player2_shares m)
           + (if outcome \<noteq> OUTCOME_PLAYER1 \<and> outcome = OUTCOME_PLAYER2 then unat amt else 0)"
    and "unat (draw_shares m1) = unat (draw_shares m)
           + (if outcome \<noteq> OUTCOME_PLAYER1 \<and> outcome \<noteq> OUTCOME_PLAYER2 then unat amt else 0)"
    and "m_pool m1 = m_pool m" and "m_admin m1 = m_admin m" and "m_status m1 = m_status m"
    and "winning_outcome m1 = winning_outcome m" and "original_pool_size m1 = original_pool_size m"
  using assms
  by (auto simp: add_outcome_shares_def outcome_shares_of_def dest!: u64_add_unat
      split: if_splits sum.splits)

lemma pm_bet_Inr_cases:
  assumes "pm_bet s u a mid outcome amt = Inr s'"
  obtains store market coins' pool' market' shares shares' where
    "outcome = OUTCOME_PLAYER1 \<or> outcome = OUTCOME_PLAYER2 \<or> outcome = OUTCOME_DRAW"
    "amt \<noteq> 0" "market_stores s a = Some store" "store mid = Some market"
    "m_status market = STATUS_ACTIVE"
    "coin_withdraw (coin_store s) u amt = Inr coins'"
    "u64_add (m_pool market) amt = Inr pool'"
    "add_outcome_shares (market\<lparr>m_pool := pool'\<rparr>) outcome amt = Inr market'"
    "shares_stores s a = Some shares"
    "add_user_shares shares mid outcome u amt = Inr shares'"
    "s' = s\<lparr>market_stores := (market_stores s)(a \<mapsto> store(mid \<mapsto> market')),
            shares_stores := (shares_stores s)(a \<mapsto> shares'),
            coin_store := coins'\<rparr>"
  using assms unfolding pm_bet_def
  by (auto simp: word_gt_0 split: if_splits sum.splits option.splits)

lemma resolve_market_Inr_cases:
  assumes "resolve_market s a mid outcome = Inr s'"
  obtains store market claims where
    "outcome = OUTCOME_PLAYER1 \<or> outcome = OUTCOME_PLAYER2 \<or> outcome = OUTCOME_DRAW"
    "market_stores s a = Some store" "store mid = Some market"
    "m_admin market = a" "m_status market = STATUS_ACTIVE"
    "claim_stores s a = Some claims"
    "s' = s\<lparr>market_stores := (market_stores s)(a \<mapsto> store(mid \<mapsto>
               market\<lparr>m_status := STATUS_RESOLVED, winning_outcome := outcome,
                      original_pool_size := m_pool market\<rparr>)),
            claim_stores := (claim_stores s)(a \<mapsto>
               (if claims mid = None then claims(mid \<mapsto> Map.empty) else claims))\<rparr>"
  using assms unfolding resolve_market_def
  by (auto split: if_splits sum.splits option.splits)

lemma claim_rewards_Inr_cases:
  assumes "claim_rewards s u a mid = Inr s'"
  obtains store market claims claim_status shares outcome_table user_shares amt reward where
    "market_stores s a = Some store" "store mid = Some market"
    "m_status market = STATUS_RESOLVED" "winning_outcome market \<noteq> 0"
    "claim_stores s a = Some claims" "claims mid = Some claim_status"
    "claim_status u \<noteq> Some True"
    "shares_stores s a = Some shares" "shares mid = Some outcome_table"
    "outcome_table (winning_outcome market) = Some user_shares"
    "user_shares u = Some amt" "amt \<noteq> 0"
    "outcome_shares_of market (winning_outcome market) \<noteq> 0"
    "reward_of amt (original_pool_size market) (outcome_shares_of market (winning_outcome market))
       = Inr reward"
    "reward \<le> m_pool market"
    "s' = s\<lparr>market_stores := (market_stores s)(a \<mapsto> store(mid \<mapsto>
               market\<lparr>m_pool := m_pool market - reward\<rparr>)),
            shares_stores := (shares_stores s)(a \<mapsto> shares(mid \<mapsto>
               outcome_table(winning_outcome market \<mapsto> user_shares(u := None)))),
            claim_stores := (claim_stores s)(a \<mapsto> claims(mid \<mapsto> claim_status(u \<mapsto> True))),
            coin_store := coin_deposit (coin_store s) u reward\<rparr>"
  using assms unfolding claim_rewards_def
  by (auto simp: word_gt_0 Let_def not_less split: if_splits sum.splits option.splits)

lemma pm_initialize_market_at:
  "pm_initialize s a' = Inr s' \<Longrightarrow> market_at s' a m = market_at s a m"
  by (auto simp: pm_initialize_def market_at_def Let_def split: if_splits option.splits)

lemma create_market_market_at:
  assumes "create_market s a' m' p1 p2 = Inr s'"
  shows "market_at s' a m =
           (if a = a' \<and> m = m' then
              Some \<lparr>m_admin = a', match_id = m', m_player1 = p1, m_player2 = p2,
                    m_status = STATUS_ACTIVE, winning_outcome = 0, m_pool = 0,
                    original_pool_size = 0, player1_shares = 0, player2_shares = 0,
                    draw_shares = 0\<rparr>
            else market_at s a m)"
  using assms
  by (auto simp: create_market_def market_at_def split: if_splits option.splits)

lemma pm_bet_market_pool_ok:
  assumes "pm_bet s u a' m' outcome amt = Inr s'" and "market_pool_ok s a m"
  shows "market_pool_ok s' a m"
  using assms(1)
proof (cases rule: pm_bet_Inr_cases)
  case (1 store market coins' pool' market' shares shares')
  note f = add_outcome_shares_Inr [OF 1(8)]
  have p: "unat pool' = unat (m_pool market) + unat amt"
    by (rule u64_add_unat [OF 1(7)])
  show ?thesis
  proof (cases "a = a' \<and> m = m'")
    case False
    with 1(3,11) assms(2) show ?thesis
      by (auto simp: market_pool_ok_def market_at_def)
  next
    case True
    with assms(2) 1(3,4) have "active_pool_consistent market"
      by (simp add: market_pool_ok_def market_at_def)
    then have "active_pool_consistent market'"
      using p 1(5) unfolding active_pool_consistent_def
      by (simp add: f(2,3,4,5,7))
    with True 1(11) show ?thesis
      by (simp add: market_pool_ok_def market_at_def)
  qed
qed

lemma resolve_market_market_pool_ok:
  assumes "resolve_market s a' m' outcome = Inr s'" and "market_pool_ok s a m"
  shows "market_pool_ok s' a m"
  using assms(1)
proof (cases rule: resolve_market_Inr_cases)
  case (1 store market claims)
  with assms(2) show ?thesis
    by (auto simp: market_pool_ok_def market_at_def active_pool_consistent_def
        STATUS_RESOLVED_def STATUS_ACTIVE_def)
qed

lemma claim_rewards_market_pool_ok:
  assumes "claim_rewards s u a' m' = Inr s'" and "market_pool_ok s a m"
  shows "market_pool_ok s' a m"
  using assms(1)
proof (cases rule: claim_rewards_Inr_cases)
  case (1 store market claims claim_status shares outcome_table user_shares amt reward)
  with assms(2) show ?thesis
    by (auto simp: market_pool_ok_def market_at_def active_pool_consistent_def
        STATUS_RESOLVED_def STATUS_ACTIVE_def)
qed

lemma pm_exec_market_pool_ok:
  assumes "pm_exec s c = Inr s'" and "market_pool_ok s a m"
  shows "market_pool_ok s' a m"
proof (cases c)
  case (PmInitialize a')
  with assms show ?thesis by (simp add: market_pool_ok_def pm_initialize_market_at)
next
  case (CreateMarket a' m' p1 p2)
  with assms show ?thesis
    by (simp add: market_pool_ok_def create_market_market_at active_pool_consistent_def)
next
  case (Bet u a' m' outcome amt)
  with assms show ?thesis by (simp add: pm_bet_market_pool_ok)
next
  case (ResolveMarket a' m' outcome)
  with assms show ?thesis by (simp add: resolve_market_market_pool_ok)
next
  case (ClaimRewards u a' m')
  with assms show ?thesis by (simp add: claim_rewards_market_pool_ok)
qed

lemma pm_run_market_pool_ok:
  "market_pool_ok s a m \<Longrightarrow> market_pool_ok (pm_run s cs) a m"
proof (induction cs arbitrary: s)
  case Nil
  then show ?case by simp
next
  case (Cons c cs)
  show ?case
  proof (cases "pm_exec s c")
    case (Inl e)
    with Cons show ?thesis by simp
  next
    case (Inr s')
    with Cons pm_exec_market_pool_ok [OF Inr Cons.prems] show ?thesis by simp
  qed
qed

lemma pm_genesis_market_pool_ok: "market_pool_ok (pm_genesis coins) a m"
  by (simp add: pm_genesis_def market_pool_ok_def market_at_def)

lemma add_user_shares_Inr:
  assumes "add_user_shares shares mid outcome u amt = Inr shares'"
    and "shares_stores s a = Some shares"
  shows "\<exists>w w'. get_user_shares s a mid outcome u = Inr w \<and>
           get_user_shares (s\<lparr>market_stores := ms, shares_stores := (shares_stores s)(a \<mapsto> shares'),
                               coin_store := cs\<rparr>) a mid outcome u = Inr w' \<and>
           unat w' = unat w + unat amt"
  using assms
  by (auto simp: add_user_shares_def get_user_shares_def Let_def dest!: u64_add_unat
      split: sum.splits option.splits)


lemma outcome_codes_distinct:
  "OUTCOME_PLAYER1 \<noteq> OUTCOME_PLAYER2" "OUTCOME_PLAYER1 \<noteq> OUTCOME_DRAW"
  "OUTCOME_PLAYER2 \<noteq> OUTCOME_DRAW" "OUTCOME_PLAYER2 \<noteq> OUTCOME_PLAYER1"
  "OUTCOME_DRAW \<noteq> OUTCOME_PLAYER1" "OUTCOME_DRAW \<noteq> OUTCOME_PLAYER2"
  by (simp_all add: OUTCOME_PLAYER1_def OUTCOME_PLAYER2_def OUTCOME_DRAW_def)

lemma bet_effect:
  assumes "bet s sender mid outcome amt = Inr s'"
  shows "unat (pool (markets s' mid)) = unat (pool (markets s mid)) + unat amt \<and>
         unat (player1Shares (markets s' mid)) = unat (player1Shares (markets s mid))
           + (if outcome = OUTCOME_PLAYER1 then unat amt else 0) \<and>
         unat (player2Shares (markets s' mid)) = unat (player2Shares (markets s mid))
           + (if outcome = OUTCOME_PLAYER2 then unat amt else 0) \<and>
         unat (drawShares (markets s' mid)) = unat (drawShares (markets s mid))
           + (if outcome = OUTCOME_DRAW then unat amt else 0) \<and>
         unat (userShares s' mid outcome sender) = unat (userShares s mid outcome sender) + unat amt"
  using assms(1)
proof (cases rule: bet_Inr_cases)
  case (1 tok' market1 pool' shares')
  note f = addOutcomeShares_Inr [OF 1(6)]
  have "unat (pool (markets s' mid)) = unat (pool (markets s mid)) + unat amt"
    using u256_add_unat [OF 1(7)] 1(9) by (simp add: f(5))
  moreover have "unat (player1Shares (markets s' mid)) = unat (player1Shares (markets s mid))
           + (if outcome = OUTCOME_PLAYER1 then unat amt else 0)"
    using 1(9) by (simp add: f(2))
  moreover have "unat (player2Shares (markets s' mid)) = unat (player2Shares (markets s mid))
           + (if outcome = OUTCOME_PLAYER2 then unat amt else 0)"
    using 1(9) by (simp add: f(3) outcome_codes_distinct)
  moreover have "unat (drawShares (markets s' mid)) = unat (drawShares (markets s mid))
           + (if outcome = OUTCOME_DRAW then unat amt else 0)"
    using 1(1,9) by (auto simp: f(4) outcome_codes_distinct)
  moreover have "unat (userShares s' mid outcome sender)
                   = unat (userShares s mid outcome sender) + unat amt"
    using u256_add_unat [OF 1(8)] 1(9) by simp
  ultimately show ?thesis by blast
qed

lemma pm_bet_effect:
  assumes "pm_bet t u a mid outcome amt = Inr t'"
  shows "\<exists>mk mk' w w'.
           market_at t a mid = Some mk \<and> market_at t' a mid = Some mk' \<and>
           unat (m_pool mk') = unat (m_pool mk) + unat amt \<and>
           unat (player1_shares mk') = unat (player1_shares mk)
             + (if outcome = OUTCOME_PLAYER1 then unat amt else 0) \<and>
           unat (player2_shares mk') = unat (player2_shares mk)
             + (if outcome = OUTCOME_PLAYER2 then unat amt else 0) \<and>
           unat (draw_shares mk') = unat (draw_shares mk)
             + (if outcome = OUTCOME_DRAW then unat amt else 0) \<and>
           get_user_shares t a mid outcome u = Inr w \<and>
           get_user_shares t' a mid outcome u = Inr w' \<and>
           unat w' = unat w + unat amt"
  using assms(1)
proof (cases rule: pm_bet_Inr_cases)
  case (1 store market coins' pool' market' shares shares')
  note f = add_outcome_shares_Inr [OF 1(8)]
  have p: "unat pool' = unat (m_pool market) + unat amt"
    by (rule u64_add_unat [OF 1(7)])
  from add_user_shares_Inr [OF 1(10) 1(9)] 1(11)
  obtain w w' where w: "get_user_shares t a mid outcome u = Inr w"
    "get_user_shares t' a mid outcome u = Inr w'" "unat w' = unat w + unat amt"
    by blast
  have "market_at t a mid = Some market" using 1(3,4) by (simp add: market_at_def)
  moreover have "market_at t' a mid = Some market'" using 1(11) by (simp add: market_at_def)
  moreover have "unat (m_pool market') = unat (m_pool market) + unat amt"
    using p by (simp add: f(5))
  moreover have "unat (player1_shares market') = unat (player1_shares market)
             + (if outcome = OUTCOME_PLAYER1 then unat amt else 0)"
    by (simp add: f(2))
  moreover have "unat (player2_shares market') = unat (player2_shares market)
             + (if outcome = OUTCOME_PLAYER2 then unat amt else 0)"
    by (simp add: f(3) outcome_codes_distinct)
  moreover have "unat (draw_shares market') = unat (draw_shares market)
             + (if outcome = OUTCOME_DRAW then unat amt else 0)"
    using 1(1) by (auto simp: f(4) outcome_codes_distinct)
  ultimately show ?thesis using w by blast
qed


lemmas sol_ops =
  createMarket_def bet_def resolveMarket_def claimRewards_def
  addOutcomeShares_def outcomeSharesOf_def rewardOf_def u256_add_def u256_mul_def
  safeTransfer_def safeTransferFrom_def
  OUTCOME_PLAYER1_def OUTCOME_PLAYER2_def OUTCOME_DRAW_def STATUS_ACTIVE_def STATUS_RESOLVED_def

lemmas pm_ops =
  pm_initialize_def create_market_def pm_bet_def resolve_market_def claim_rewards_def
  add_outcome_shares_def add_user_shares_def outcome_shares_of_def reward_of_def
  u64_add_def u64_mul_def coin_withdraw_def coin_deposit_def
  OUTCOME_PLAYER1_def OUTCOME_PLAYER2_def OUTCOME_DRAW_def STATUS_ACTIVE_def STATUS_RESOLVED_def

lemma ex_sol_created_eq:
  "ex_sol_created = (deployed 99 ex_token)\<lparr>markets := (markets (deployed 99 ex_token))(1 :=
       \<lparr>admin = 1, matchId = 1, player1 = 2, player2 = 3, status = 1, winningOutcome = 0,
        pool = 0, originalPoolSize = 0, player1Shares = 0, player2Shares = 0, drawShares = 0\<rparr>)\<rparr>"
  by (simp add: ex_sol_created_def deployed_def sol_ops)

lemma ex_pm_created_eq:
  "ex_pm_created =
     \<lparr>market_stores = [10 \<mapsto> [1 \<mapsto>
        \<lparr>m_admin = 10, match_id = 1, m_player1 = 11, m_player2 = 12, m_status = 1,
         winning_outcome = 0, m_pool = 0, original_pool_size = 0, player1_shares = 0,
         player2_shares = 0, draw_shares = 0\<rparr>]],
      shares_stores = [10 \<mapsto> Map.empty], claim_stores = [10 \<mapsto> Map.empty],
      coin_store = (\<lambda>_. 10000000000)\<rparr>"
  by (simp add: ex_pm_created_def pm_genesis_def pm_ops Let_def)


subsection \<open>The claim\<close>

text \<open>
  Claim C3: in every state the Solidity contract reaches from its deployment, by any
  history of transactions and so by any sequence of successful bets, every market
  has \<open>pool = player1Shares + player2Shares + drawShares\<close>; in every state the Move
  module reaches, every active market has the same.  A successful bet of \<open>amt\<close> on
  \<open>outcome\<close> adds \<open>amt\<close> to the pool, to the total of that outcome and to no other,
  and to the caller's cumulative share for that outcome.  Sums are of unsigned
  values, without wrap-around.
\<close>

theorem bets_keep_pool_equal_to_outcome_totals:
  "pool_consistent (markets (sol_run (deployed self tok) calls) mid) \<and>
   (\<forall>s'. bet s sender mid outcome amt = Inr s' \<longrightarrow>
      unat (pool (markets s' mid)) = unat (pool (markets s mid)) + unat amt \<and>
      unat (player1Shares (markets s' mid)) = unat (player1Shares (markets s mid))
        + (if outcome = OUTCOME_PLAYER1 then unat amt else 0) \<and>
      unat (player2Shares (markets s' mid)) = unat (player2Shares (markets s mid))
        + (if outcome = OUTCOME_PLAYER2 then unat amt else 0) \<and>
      unat (drawShares (markets s' mid)) = unat (drawShares (markets s mid))
        + (if outcome = OUTCOME_DRAW then unat amt else 0) \<and>
      unat (userShares s' mid outcome sender) = unat (userShares s mid outcome sender) + unat amt) \<and>
   market_pool_ok (pm_run (pm_genesis coins) pcalls) a pmid \<and>
   (\<forall>t'. pm_bet t u a pmid poutcome pamt = Inr t' \<longrightarrow>
      (\<exists>mk mk' w w'.
         market_at t a pmid = Some mk \<and> market_at t' a pmid = Some mk' \<and>
         unat (m_pool mk') = unat (m_pool mk) + unat pamt \<and>
         unat (player1_shares mk') = unat (player1_shares mk)
           + (if poutcome = OUTCOME_PLAYER1 then unat pamt else 0) \<and>
         unat (player2_shares mk') = unat (player2_shares mk)
           + (if poutcome = OUTCOME_PLAYER2 then unat pamt else 0) \<and>
         unat (draw_shares mk') = unat (draw_shares mk)
           + (if poutcome = OUTCOME_DRAW then unat pamt else 0) \<and>
         get_user_shares t a pmid poutcome u = Inr w \<and>
         get_user_shares t' a pmid poutcome u = Inr w' \<and>
         unat w' = unat w + unat pamt))"
proof -
  have A: "pool_consistent (markets (sol_run (deployed self tok) calls) mid)"
    by (rule sol_run_pool_consistent [OF deployed_pool_consistent])
  have B: "market_pool_ok (pm_run (pm_genesis coins) pcalls) a pmid"
    by (rule pm_run_market_pool_ok [OF pm_genesis_market_pool_ok])
  show ?thesis
    using A B bet_effect [of s sender mid outcome amt]
      pm_bet_effect [of t u a pmid poutcome pamt]
    by blast
qed

lemma pm_run_append: "pm_run s (cs @ ds) = pm_run (pm_run s cs) ds"
  by (induction cs arbitrary: s) simp_all

theorem bets_keep_pool_equal_to_outcome_totals_witness:
  "bet ex_sol_created 4 1 OUTCOME_PLAYER1 1000
     = Inr (sol_run ex_sol_created [CallBet 4 1 OUTCOME_PLAYER1 1000]) \<and>
   unat (pool (markets (sol_run ex_sol_created [CallBet 4 1 OUTCOME_PLAYER1 1000]) 1))
     = unat (pool (markets ex_sol_created 1)) + unat (1000 :: uint256) \<and>
   unat (userShares (sol_run ex_sol_created [CallBet 4 1 OUTCOME_PLAYER1 1000]) 1 OUTCOME_PLAYER1 4)
     = unat (userShares ex_sol_created 1 OUTCOME_PLAYER1 4) + unat (1000 :: uint256) \<and>
   pool_consistent (markets (sol_run (deployed 99 ex_token)
     [CallCreateMarket 1 1 2 3, CallBet 4 1 OUTCOME_PLAYER1 1000]) 1) \<and>
   pm_bet ex_pm_created 20 10 1 OUTCOME_PLAYER1 1000
     = Inr (pm_run ex_pm_created [Bet 20 10 1 OUTCOME_PLAYER1 1000]) \<and>
   (\<exists>mk mk'. market_at ex_pm_created 10 1 = Some mk \<and>
      market_at (pm_run ex_pm_created [Bet 20 10 1 OUTCOME_PLAYER1 1000]) 10 1 = Some mk' \<and>
      unat (m_pool mk') = unat (m_pool mk) + unat (1000 :: u64) \<and>
      m_status mk' = STATUS_ACTIVE \<and>
      unat (m_pool mk') = unat (player1_shares mk') + unat (player2_shares mk') + unat (draw_shares mk'))"
proof -
  let ?hist = "[PmInitialize 10, CreateMarket 10 1 11 12, Bet 20 10 1 OUTCOME_PLAYER1 1000]"
  let ?after = "pm_run ex_pm_created [Bet 20 10 1 OUTCOME_PLAYER1 1000]"
  have hb: "bet ex_sol_created 4 1 OUTCOME_PLAYER1 1000
              = Inr (sol_run ex_sol_created [CallBet 4 1 OUTCOME_PLAYER1 1000])"
    by (simp add: ex_sol_created_eq ex_token_def deployed_def sol_ops)
  have hp: "pm_bet ex_pm_created 20 10 1 OUTCOME_PLAYER1 1000 = Inr ?after"
    by (simp add: ex_pm_created_eq pm_ops Let_def)
  have hist: "pm_run (pm_genesis (\<lambda>_. 10000000000)) ?hist = ?after"
    using pm_run_append [of "pm_genesis (\<lambda>_. 10000000000)"
        "[PmInitialize 10, CreateMarket 10 1 11 12]" "[Bet 20 10 1 OUTCOME_PLAYER1 1000]"]
    by (simp add: ex_pm_created_def)
  note t = bets_keep_pool_equal_to_outcome_totals
    [of 99 ex_token "[CallCreateMarket 1 1 2 3, CallBet 4 1 OUTCOME_PLAYER1 1000]" 1
        ex_sol_created 4 OUTCOME_PLAYER1 1000
        "\<lambda>_. 10000000000" ?hist 10 1 ex_pm_created 20 OUTCOME_PLAYER1 1000]
  from t hp obtain mk mk' where mk: "market_at ex_pm_created 10 1 = Some mk"
    "market_at ?after 10 1 = Some mk'" "unat (m_pool mk') = unat (m_pool mk) + unat (1000 :: u64)"
    by blast
  have active: "m_status mk' = STATUS_ACTIVE"
    using mk(2) by (auto simp: ex_pm_created_eq market_at_def pm_ops Let_def)
  from t have "market_pool_ok ?after 10 1"
    unfolding hist by blast
  with mk(2) active have
    "unat (m_pool mk') = unat (player1_shares mk') + unat (player2_shares mk') + unat (draw_shares mk')"
    by (simp add: market_pool_ok_def active_pool_consistent_def)
  with mk active have M: "\<exists>mk mk'. market_at ex_pm_created 10 1 = Some mk \<and>
      market_at ?after 10 1 = Some mk' \<and>
      unat (m_pool mk') = unat (m_pool mk) + unat (1000 :: u64) \<and>
      m_status mk' = STATUS_ACTIVE \<and>
      unat (m_pool mk') = unat (player1_shares mk') + unat (player2_shares mk') + unat (draw_shares mk')"
    by blast
  show ?thesis
    using hb hp t M by blast
qed


section \<open>Claiming rewards\<close>

lemma rewardOf_no_overflow:
  assumes "unat u * unat P < 2 ^ 256"
  shows "rewardOf u P T = Inr (u * P div T)" and "unat (u * P div T) = unat u * unat P div unat T"
proof -
  show "rewardOf u P T = Inr (u * P div T)"
    using assms by (simp add: rewardOf_def u256_mul_def)
  then show "unat (u * P div T) = unat u * unat P div unat T"
    by (rule rewardOf_Inr)
qed

lemma reward_of_Inr:
  assumes "reward_of u P T = Inr r"
  shows "unat r = unat u * unat P div unat T"
proof -
  from assms have lt: "unat u * unat P < 2 ^ 64" and r: "r = u * P div T"
    by (auto simp: reward_of_def u64_mul_def split: if_splits)
  have "unat (u * P) = unat u * unat P"
    using lt by (simp add: unat_mult_lem [THEN iffD1])
  then show ?thesis by (simp add: r unat_div)
qed

lemma reward_of_no_overflow:
  assumes "unat u * unat P < 2 ^ 64"
  shows "reward_of u P T = Inr (u * P div T)" and "unat (u * P div T) = unat u * unat P div unat T"
proof -
  show "reward_of u P T = Inr (u * P div T)"
    using assms by (simp add: reward_of_def u64_mul_def)
  then show "unat (u * P div T) = unat u * unat P div unat T"
    by (rule reward_of_Inr)
qed

text \<open>
  Away from the overflow the Solidity \<^verbatim>\<open>claimRewards\<close> does what claim C1 describes:
  it pays \<open>floor(u * P / T)\<close>, sets the claimed flag, zeroes the share, and a second
  claim reverts with \<^verbatim>\<open>AlreadyClaimed\<close>.
\<close>

lemma claimRewards_pays_floor_share:
  assumes "admin (markets s mid) \<noteq> 0" and "status (markets s mid) = STATUS_RESOLVED"
    and "winningOutcome (markets s mid) = wo" and "wo \<noteq> 0"
    and "\<not> hasClaimed s mid sender"
    and "userShares s mid wo sender = u" and "u \<noteq> 0"
    and "outcomeSharesOf (markets s mid) wo = T" and "T \<noteq> 0"
    and "originalPoolSize (markets s mid) = P"
    and "unat u * unat P < 2 ^ 256"
    and "reward = unat u * unat P div unat T"
    and "reward \<le> balanceOf (token s) (this s)"
  shows "\<exists>s'. claimRewards s sender mid = Inr s' \<and>
           hasClaimed s' mid sender \<and> userShares s' mid wo sender = 0 \<and>
           balanceOf (token s') =
             (if sender = this s then balanceOf (token s)
              else (balanceOf (token s))(this s := balanceOf (token s) (this s) - reward,
                                         sender := balanceOf (token s) sender + reward)) \<and>
           claimRewards s' sender mid = Inl AlreadyClaimed"
proof -
  let ?r = "u * P div T"
  have r: "rewardOf u P T = Inr ?r" "unat ?r = reward"
    using rewardOf_no_overflow [OF assms(11)] assms(12) by simp_all
  let ?bal = "(balanceOf (token s))(this s := balanceOf (token s) (this s) - reward)"
  let ?tok = "(token s)\<lparr>balanceOf := ?bal(sender := ?bal sender + reward)\<rparr>"
  have t: "safeTransfer (token s) (this s) sender ?r = Inr ?tok"
    using assms(13) by (simp add: safeTransfer_def r(2) Let_def)
  let ?s' = "s\<lparr>hasClaimed := (hasClaimed s)(mid := (hasClaimed s mid)(sender := True)),
               userShares := (userShares s)(mid := (userShares s mid)
                 (wo := (userShares s mid wo)(sender := 0))),
               token := ?tok\<rparr>"
  have c: "claimRewards s sender mid = Inr ?s'"
    using assms(1-10) r(1) t by (simp add: claimRewards_def Let_def)
  have again: "claimRewards ?s' sender mid = Inl AlreadyClaimed"
    using assms(1-4) by (simp add: claimRewards_def Let_def)
  have bal: "balanceOf (token ?s') =
             (if sender = this s then balanceOf (token s)
              else (balanceOf (token s))(this s := balanceOf (token s) (this s) - reward,
                                         sender := balanceOf (token s) sender + reward))"
    using assms(13) by (auto simp: fun_eq_iff)
  show ?thesis
    using c again bal by (intro exI [of _ ?s']) simp
qed

text \<open>The same for the Move \<^verbatim>\<open>claim_rewards\<close>, as long as the product fits in 64 bits.\<close>

lemma claim_rewards_pays_floor_share:
  assumes "market_stores s a = Some store" and "store mid = Some market"
    and "m_status market = STATUS_RESOLVED" and "winning_outcome market = wo" and "wo \<noteq> 0"
    and "claim_stores s a = Some claims" and "claims mid = Some claim_status"
    and "claim_status user \<noteq> Some True"
    and "shares_stores s a = Some shares" and "shares mid = Some outcome_table"
    and "outcome_table wo = Some user_shares" and "user_shares user = Some u" and "u \<noteq> 0"
    and "outcome_shares_of market wo = T" and "T \<noteq> 0"
    and "original_pool_size market = P"
    and "unat u * unat P < 2 ^ 64"
    and "reward = unat u * unat P div unat T"
    and "reward \<le> unat (m_pool market)"
  shows "\<exists>s'. claim_rewards s user a mid = Inr s' \<and>
           has_claimed s' a mid user = Inr True \<and>
           get_user_shares s' a mid wo user = Inr 0 \<and>
           coin_store s' = (coin_store s)(user := coin_store s user + reward) \<and>
           claim_rewards s' user a mid = Inl (Abort EALREADY_CLAIMED)"
proof -
  let ?r = "u * P div T"
  have r: "reward_of u P T = Inr ?r" "unat ?r = reward"
    using reward_of_no_overflow [OF assms(17)] assms(18) by simp_all
  have le: "\<not> m_pool market < ?r"
    using assms(19) r(2) by (simp add: word_less_nat_alt)
  let ?s' = "s\<lparr>market_stores := (market_stores s)(a \<mapsto> store(mid \<mapsto>
                 market\<lparr>m_pool := m_pool market - ?r\<rparr>)),
               shares_stores := (shares_stores s)(a \<mapsto> shares(mid \<mapsto>
                 outcome_table(wo \<mapsto> user_shares(user := None)))),
               claim_stores := (claim_stores s)(a \<mapsto> claims(mid \<mapsto>
                 claim_status(user \<mapsto> True))),
               coin_store := coin_deposit (coin_store s) user ?r\<rparr>"
  have c: "claim_rewards s user a mid = Inr ?s'"
    using assms(1-16) r(1) le by (simp add: claim_rewards_def Let_def word_gt_0)
  have again: "claim_rewards ?s' user a mid = Inl (Abort EALREADY_CLAIMED)"
    using assms(3-5) by (simp add: claim_rewards_def Let_def)
  have "has_claimed ?s' a mid user = Inr True"
    by (simp add: has_claimed_def)
  moreover have "get_user_shares ?s' a mid wo user = Inr 0"
    by (simp add: get_user_shares_def)
  moreover have "coin_store ?s' = (coin_store s)(user := coin_store s user + reward)"
    by (simp add: coin_deposit_def r(2))
  ultimately show ?thesis
    using c again by (intro exI [of _ ?s']) simp
qed

subsection \<open>The product overflows before the division\<close>

text \<open>
  Whenever the product \<open>u * P\<close> does not fit the machine word, a claim that passes
  every check dies in the multiplication: the Solidity contract reverts with a
  panic, the Move module aborts with an arithmetic error.
\<close>

lemma claimRewards_overflow_panics:
  assumes "admin (markets s mid) \<noteq> 0" and "status (markets s mid) = STATUS_RESOLVED"
    and "winningOutcome (markets s mid) = wo" and "wo \<noteq> 0"
    and "\<not> hasClaimed s mid sender"
    and "userShares s mid wo sender = u" and "u \<noteq> 0"
    and "outcomeSharesOf (markets s mid) wo \<noteq> 0"
    and "2 ^ 256 \<le> unat u * unat (originalPoolSize (markets s mid))"
  shows "claimRewards s sender mid = Inl Panic"
  using assms by (simp add: claimRewards_def Let_def rewardOf_def u256_mul_def)

lemma claim_rewards_overflow_aborts_always:
  assumes "market_stores s a = Some store" and "store mid = Some market"
    and "m_status market = STATUS_RESOLVED" and "winning_outcome market = wo" and "wo \<noteq> 0"
    and "claim_stores s a = Some claims" and "claims mid = Some claim_status"
    and "claim_status user \<noteq> Some True"
    and "shares_stores s a = Some shares" and "shares mid = Some outcome_table"
    and "outcome_table wo = Some user_shares" and "user_shares user = Some u" and "u \<noteq> 0"
    and "outcome_shares_of market wo \<noteq> 0"
    and "2 ^ 64 \<le> unat u * unat (original_pool_size market)"
  shows "claim_rewards s user a mid = Inl ARITHMETIC_ERROR"
  using assms by (simp add: claim_rewards_def Let_def reward_of_def u64_mul_def word_gt_0)

lemma ex_pm_large_bet_eq:
  "ex_pm_large_bet =
     \<lparr>market_stores = [10 \<mapsto> [1 \<mapsto>
        \<lparr>m_admin = 10, match_id = 1, m_player1 = 11, m_player2 = 12, m_status = 2,
         winning_outcome = 1, m_pool = 5000000000, original_pool_size = 5000000000,
         player1_shares = 5000000000, player2_shares = 0, draw_shares = 0\<rparr>]],
      shares_stores = [10 \<mapsto> [1 \<mapsto> [1 \<mapsto> [20 \<mapsto> 5000000000]]]],
      claim_stores = [10 \<mapsto> [1 \<mapsto> Map.empty]],
      coin_store = (\<lambda>x. if x = 20 then 5000000000 else 10000000000)\<rparr>"
  by (simp add: ex_pm_large_bet_def ex_pm_created_eq pm_ops Let_def fun_eq_iff)


text \<open>
  Claim C1 says that every caller with a positive unclaimed share \<open>u\<close> on the winning
  outcome of a resolved market with total \<open>T > 0\<close> is paid \<open>floor(u * P / T)\<close>.  The
  Move \<^verbatim>\<open>claim_rewards\<close> forms \<^verbatim>\<open>user_share_amount * total_pool\<close> in \<^verbatim>\<open>u64\<close> before it
  divides.  For the sole bettor of 50 coins (\<open>5 * 10^9\<close> octas) the reward due is
  \<open>5 * 10^9\<close>, which fits, but the product \<open>25 * 10^18\<close> exceeds \<open>2^64\<close>: the claim
  aborts with an arithmetic error, whatever the caller does, and the stake stays in
  the pool.
\<close>

theorem claim_rewards_overflow_aborts:
  "get_market_stats ex_pm_large_bet 10 1
     = Inr (STATUS_RESOLVED, OUTCOME_PLAYER1, 5000000000, 5000000000, 0, 0) \<and>
   get_user_shares ex_pm_large_bet 10 1 OUTCOME_PLAYER1 20 = Inr 5000000000 \<and>
   has_claimed ex_pm_large_bet 10 1 20 = Inr False \<and>
   (5000000000 :: nat) * 5000000000 div 5000000000 < 2 ^ 64 \<and>
   claim_rewards ex_pm_large_bet 20 10 1 = Inl ARITHMETIC_ERROR"
  by (simp add: ex_pm_large_bet_eq get_market_stats_def get_user_shares_def has_claimed_def
      pm_ops Let_def)


section \<open>All winners claim\<close>

text \<open>
  \<^verbatim>\<open>claimRewards\<close> by a winner who has not claimed, on a resolved market, when the
  product fits in 256 bits and the contract's balance covers the reward: the state
  after the call.
\<close>

lemma claimRewards_explicit:
  assumes "admin (markets s mid) \<noteq> 0" and "status (markets s mid) = STATUS_RESOLVED"
    and "winningOutcome (markets s mid) = wo" and "wo \<noteq> 0"
    and "\<not> hasClaimed s mid sender"
    and "userShares s mid wo sender \<noteq> 0"
    and "outcomeSharesOf (markets s mid) wo = T" and "T \<noteq> 0"
    and "originalPoolSize (markets s mid) = P"
    and "unat (userShares s mid wo sender) * unat P < 2 ^ 256"
    and "reward = unat (userShares s mid wo sender) * unat P div unat T"
    and "reward \<le> balanceOf (token s) (this s)"
  shows "claimRewards s sender mid =
           Inr (s\<lparr>hasClaimed := (hasClaimed s)(mid := (hasClaimed s mid)(sender := True)),
                  userShares := (userShares s)(mid := (userShares s mid)
                    (wo := (userShares s mid wo)(sender := 0))),
                  token := (token s)\<lparr>balanceOf :=
                    ((balanceOf (token s))(this s := balanceOf (token s) (this s) - reward))
                      (sender := ((balanceOf (token s))
                         (this s := balanceOf (token s) (this s) - reward)) sender + reward)\<rparr>\<rparr>)"
proof -
  let ?u = "userShares s mid wo sender"
  let ?r = "?u * P div T"
  have r: "rewardOf ?u P T = Inr ?r" "unat ?r = reward"
    using rewardOf_no_overflow [OF assms(10)] assms(11) by simp_all
  define tok' where "tok' = (token s)\<lparr>balanceOf :=
                    ((balanceOf (token s))(this s := balanceOf (token s) (this s) - reward))
                      (sender := ((balanceOf (token s))
                         (this s := balanceOf (token s) (this s) - reward)) sender + reward)\<rparr>"
  have t: "safeTransfer (token s) (this s) sender ?r = Inr tok'"
    unfolding tok'_def using assms(12) by (simp add: safeTransfer_def r(2) Let_def)
  have "claimRewards s sender mid =
           Inr (s\<lparr>hasClaimed := (hasClaimed s)(mid := (hasClaimed s mid)(sender := True)),
                  userShares := (userShares s)(mid := (userShares s mid)
                    (wo := (userShares s mid wo)(sender := 0))),
                  token := tok'\<rparr>)"
    using assms(1-9) r(1) t by (simp add: claimRewards_def Let_def)
  then show ?thesis unfolding tok'_def .
qed

text \<open>
  Distinct winners claim one after the other: each call succeeds, each claimant's
  balance grows by the floor share, the contract's balance falls by their sum, and
  nobody else's balance changes.
\<close>

lemma claims_in_turn:
  assumes "admin (markets s mid) \<noteq> 0" and "status (markets s mid) = STATUS_RESOLVED"
    and "winningOutcome (markets s mid) = wo" and "wo \<noteq> 0"
    and "outcomeSharesOf (markets s mid) wo = T" and "T \<noteq> 0"
    and "originalPoolSize (markets s mid) = P"
    and "distinct us" and "this s \<notin> set us"
    and "\<forall>u\<in>set us. \<not> hasClaimed s mid u \<and> userShares s mid wo u \<noteq> 0 \<and>
           unat (userShares s mid wo u) * unat P < 2 ^ 256"
    and "sum_list (map (\<lambda>u. unat (userShares s mid wo u) * unat P div unat T) us)
           \<le> balanceOf (token s) (this s)"
    and "s' = sol_run s (map (\<lambda>u. CallClaimRewards u mid) us)"
  shows "(\<forall>x. balanceOf (token s') x =
            (if x = this s then balanceOf (token s) x
                 - sum_list (map (\<lambda>u. unat (userShares s mid wo u) * unat P div unat T) us)
             else if x \<in> set us
               then balanceOf (token s) x + unat (userShares s mid wo x) * unat P div unat T
             else balanceOf (token s) x)) \<and>
         (\<forall>x. hasClaimed s' mid x = (hasClaimed s mid x \<or> x \<in> set us))"
  using assms
proof (induction us arbitrary: s)
  case Nil
  then show ?case by simp
next
  case (Cons u rest)
  let ?rw = "\<lambda>st x. unat (userShares st mid wo x) * unat P div unat T"
  let ?bal = "balanceOf (token s)"
  define r where "r = ?rw s u"
  define s1 where "s1 = s\<lparr>hasClaimed := (hasClaimed s)(mid := (hasClaimed s mid)(u := True)),
                  userShares := (userShares s)(mid := (userShares s mid)
                    (wo := (userShares s mid wo)(u := 0))),
                  token := (token s)\<lparr>balanceOf :=
                    (?bal(this s := ?bal (this s) - r))
                      (u := (?bal(this s := ?bal (this s) - r)) u + r)\<rparr>\<rparr>"
  from Cons.prems(9) have ne: "u \<noteq> this s" "this s \<notin> set rest" by auto
  from Cons.prems(8) have d: "u \<notin> set rest" "distinct rest" by auto
  from Cons.prems(10) have hu: "\<not> hasClaimed s mid u" "userShares s mid wo u \<noteq> 0"
      "unat (userShares s mid wo u) * unat P < 2 ^ 256"
    by auto
  from Cons.prems(11) have cover: "r + sum_list (map (?rw s) rest) \<le> ?bal (this s)"
    by (simp add: r_def)
  then have rle: "r \<le> ?bal (this s)" by simp
  have c: "claimRewards s u mid = Inr s1"
    unfolding s1_def
    by (rule claimRewards_explicit [OF Cons.prems(1-4) hu(1,2) Cons.prems(5-7) hu(3) r_def rle])
  then have run: "s' = sol_run s1 (map (\<lambda>u. CallClaimRewards u mid) rest)"
    using Cons.prems(12) by simp
  have same: "\<forall>x\<in>set rest. userShares s1 mid wo x = userShares s mid wo x \<and>
                hasClaimed s1 mid x = hasClaimed s mid x"
    using d(1) by (auto simp: s1_def)
  then have rws: "map (?rw s1) rest = map (?rw s) rest" by simp
  have m1: "markets s1 = markets s" "this s1 = this s" by (simp_all add: s1_def)
  have b1: "balanceOf (token s1) = (?bal(this s := ?bal (this s) - r))(u := ?bal u + r)"
    using ne(1) by (simp add: s1_def fun_eq_iff)
  have p10: "\<forall>x\<in>set rest. \<not> hasClaimed s1 mid x \<and> userShares s1 mid wo x \<noteq> 0 \<and>
           unat (userShares s1 mid wo x) * unat P < 2 ^ 256"
    using same Cons.prems(10) by simp
  have p11: "sum_list (map (?rw s1) rest) \<le> balanceOf (token s1) (this s1)"
    unfolding rws using cover ne(1) by (simp add: b1 m1)
  have ih: "(\<forall>x. balanceOf (token s') x =
            (if x = this s1 then balanceOf (token s1) x - sum_list (map (?rw s1) rest)
             else if x \<in> set rest then balanceOf (token s1) x + ?rw s1 x
             else balanceOf (token s1) x)) \<and>
         (\<forall>x. hasClaimed s' mid x = (hasClaimed s1 mid x \<or> x \<in> set rest))"
    by (rule Cons.IH [of s1])
       (use Cons.prems(1-7) d(2) ne(2) p10 p11 run in \<open>simp_all add: m1\<close>)
  have hc: "\<forall>x. hasClaimed s1 mid x = (hasClaimed s mid x \<or> x = u)"
    by (simp add: s1_def)
  have B: "\<forall>x. balanceOf (token s') x =
            (if x = this s then ?bal x - sum_list (map (?rw s) (u # rest))
             else if x \<in> set (u # rest) then ?bal x + ?rw s x
             else ?bal x)"
  proof
    fix x
    from ih have bx: "balanceOf (token s') x =
            (if x = this s then balanceOf (token s1) x - sum_list (map (?rw s) rest)
             else if x \<in> set rest then balanceOf (token s1) x + ?rw s1 x
             else balanceOf (token s1) x)"
      by (simp add: m1 rws)
    show "balanceOf (token s') x =
            (if x = this s then ?bal x - sum_list (map (?rw s) (u # rest))
             else if x \<in> set (u # rest) then ?bal x + ?rw s x
             else ?bal x)"
    proof (cases "x = this s")
      case True
      with bx ne(1) show ?thesis by (simp add: b1 r_def)
    next
      case False
      note nt = this
      show ?thesis
      proof (cases "x \<in> set rest")
        case True
        with d(1) have "x \<noteq> u" by auto
        with bx nt True same show ?thesis by (simp add: b1)
      next
        case False
        with bx nt show ?thesis by (simp add: b1 r_def)
      qed
    qed
  qed
  have H: "\<forall>x. hasClaimed s' mid x = (hasClaimed s mid x \<or> x \<in> set (u # rest))"
    using ih hc by auto
  from B H show ?case by blast
qed


lemma ex_sol_resolved_eq:
  "ex_sol_resolved =
     \<lparr>this = 99,
      token = \<lparr>balanceOf = (\<lambda>x. if x = 99 then 14500 else if x = 4 then 9000
                               else if x = 5 then 8000 else if x = 6 then 8500 else 10000),
               allowance = (\<lambda>x y. if y = 99 then (if x = 4 then 9000 else if x = 5 then 8000
                               else if x = 6 then 8500 else 10000) else 10000)\<rparr>,
      markets = (markets (deployed 99 ex_token))(1 :=
        \<lparr>admin = 1, matchId = 1, player1 = 2, player2 = 3, status = STATUS_RESOLVED,
         winningOutcome = OUTCOME_PLAYER1, pool = 4500, originalPoolSize = 4500,
         player1Shares = 3000, player2Shares = 1500, drawShares = 0\<rparr>),
      userShares = (\<lambda>m oc x. if m = 1 \<and> oc = OUTCOME_PLAYER1 \<and> x = 4 then 1000
                       else if m = 1 \<and> oc = OUTCOME_PLAYER1 \<and> x = 5 then 2000
                       else if m = 1 \<and> oc = OUTCOME_PLAYER2 \<and> x = 6 then 1500 else 0),
      hasClaimed = (\<lambda>_ _. False)\<rparr>"
  by (simp add: ex_sol_resolved_def ex_sol_created_eq ex_token_def deployed_def sol_ops Let_def
      fun_eq_iff)

text \<open>
  Claim C5: take a resolved market with snapshot \<open>P\<close> and winning-outcome total
  \<open>T > 0\<close>, held by a contract whose balance covers the snapshot, and distinct
  claimants \<open>us\<close> who hold shares on the winning outcome and have not claimed.  Let
  each of them call \<^verbatim>\<open>claimRewards\<close>, in any order.  Every call succeeds and transfers
  \<open>floor(s * P / T)\<close> to its caller.  If the shares add up to at most \<open>T\<close>, what the
  contract has paid adds up to at most \<open>P\<close>; if they add up to exactly \<open>T\<close> and there
  is at least one claimant, the dust \<open>P - paid\<close> that stays in the contract is at most
  the number of claimants minus one.
\<close>

theorem claimed_rewards_bounded_by_snapshot:
  assumes "admin (markets s mid) \<noteq> 0" and "status (markets s mid) = STATUS_RESOLVED"
    and "winningOutcome (markets s mid) = wo" and "wo \<noteq> 0"
    and "outcomeSharesOf (markets s mid) wo = T" and "T \<noteq> 0"
    and "originalPoolSize (markets s mid) = P"
    and "distinct us" and "this s \<notin> set us"
    and "\<forall>u\<in>set us. \<not> hasClaimed s mid u \<and> userShares s mid wo u \<noteq> 0 \<and>
           unat (userShares s mid wo u) * unat P < 2 ^ 256"
    and "sum_list (map (\<lambda>u. unat (userShares s mid wo u)) us) \<le> unat T"
    and "unat P \<le> balanceOf (token s) (this s)"
    and "s' = sol_run s (map (\<lambda>u. CallClaimRewards u mid) us)"
    and "paid = balanceOf (token s) (this s) - balanceOf (token s') (this s)"
  shows "(\<forall>u\<in>set us. hasClaimed s' mid u \<and>
            balanceOf (token s') u
              = balanceOf (token s) u + unat (userShares s mid wo u) * unat P div unat T) \<and>
         paid = sum_list (map (\<lambda>u. unat (userShares s mid wo u) * unat P div unat T) us) \<and>
         paid \<le> unat P \<and>
         (sum_list (map (\<lambda>u. unat (userShares s mid wo u)) us) = unat T \<and> us \<noteq> [] \<longrightarrow>
            unat P - paid \<le> length us - 1)"
proof -
  let ?ss = "map (\<lambda>u. unat (userShares s mid wo u)) us"
  let ?rs = "map (\<lambda>u. unat (userShares s mid wo u) * unat P div unat T) us"
  have T: "0 < unat T" using assms(6) by (simp add: unat_gt_0)
  have rs: "?rs = map (\<lambda>x. x * unat P div unat T) ?ss" by (simp add: comp_def)
  have le: "sum_list ?rs \<le> unat P"
    unfolding rs by (rule floor_shares_sum_le [OF T assms(11)])
  then have cover: "sum_list ?rs \<le> balanceOf (token s) (this s)"
    using assms(12) by simp
  note run = claims_in_turn [OF assms(1-10) cover assms(13)]
  from run assms(9) have each: "\<forall>u\<in>set us. hasClaimed s' mid u \<and>
            balanceOf (token s') u
              = balanceOf (token s) u + unat (userShares s mid wo u) * unat P div unat T"
    by auto
  from run have "balanceOf (token s') (this s) = balanceOf (token s) (this s) - sum_list ?rs"
    by simp
  with cover assms(14) have paid: "paid = sum_list ?rs" by simp
  have dust: "unat P - paid \<le> length us - 1" if "sum_list ?ss = unat T" "us \<noteq> []"
    unfolding paid rs using floor_shares_dust [OF T that(1), of "unat P"] that(2) by simp
  from each paid le dust show ?thesis by simp
qed

theorem claimed_rewards_bounded_by_snapshot_witness:
  "status (markets ex_sol_resolved 1) = STATUS_RESOLVED \<and>
   winningOutcome (markets ex_sol_resolved 1) = OUTCOME_PLAYER1 \<and>
   outcomeSharesOf (markets ex_sol_resolved 1) OUTCOME_PLAYER1 = 3000 \<and>
   originalPoolSize (markets ex_sol_resolved 1) = 4500 \<and>
   userShares ex_sol_resolved 1 OUTCOME_PLAYER1 4 = 1000 \<and>
   userShares ex_sol_resolved 1 OUTCOME_PLAYER1 5 = 2000 \<and>
   balanceOf (token ex_sol_resolved) 99 = 14500 \<and>
   balanceOf (token (sol_run ex_sol_resolved [CallClaimRewards 4 1, CallClaimRewards 5 1])) 4
     = balanceOf (token ex_sol_resolved) 4 + 1500 \<and>
   balanceOf (token (sol_run ex_sol_resolved [CallClaimRewards 4 1, CallClaimRewards 5 1])) 5
     = balanceOf (token ex_sol_resolved) 5 + 3000 \<and>
   hasClaimed (sol_run ex_sol_resolved [CallClaimRewards 4 1, CallClaimRewards 5 1]) 1 4 \<and>
   hasClaimed (sol_run ex_sol_resolved [CallClaimRewards 4 1, CallClaimRewards 5 1]) 1 5 \<and>
   balanceOf (token ex_sol_resolved) 99
     - balanceOf (token (sol_run ex_sol_resolved [CallClaimRewards 4 1, CallClaimRewards 5 1])) 99
     = 4500 \<and>
   unat (4500 :: uint256) - 4500 \<le> length [4, 5 :: address] - 1"
proof -
  let ?s' = "sol_run ex_sol_resolved (map (\<lambda>u. CallClaimRewards u 1) [4, 5])"
  have h1: "admin (markets ex_sol_resolved 1) \<noteq> 0"
    and h2: "status (markets ex_sol_resolved 1) = STATUS_RESOLVED"
    and h3: "winningOutcome (markets ex_sol_resolved 1) = OUTCOME_PLAYER1"
    and h4: "OUTCOME_PLAYER1 \<noteq> 0"
    and h5: "outcomeSharesOf (markets ex_sol_resolved 1) OUTCOME_PLAYER1 = 3000"
    and h6: "(3000 :: uint256) \<noteq> 0"
    and h7: "originalPoolSize (markets ex_sol_resolved 1) = 4500"
    by (simp_all add: ex_sol_resolved_eq outcomeSharesOf_def OUTCOME_PLAYER1_def)
  have h8: "distinct [4, 5 :: address]" and h9: "this ex_sol_resolved \<notin> set [4, 5]"
    by (simp_all add: ex_sol_resolved_eq)
  have h10: "\<forall>u\<in>set [4, 5]. \<not> hasClaimed ex_sol_resolved 1 u \<and>
           userShares ex_sol_resolved 1 OUTCOME_PLAYER1 u \<noteq> 0 \<and>
           unat (userShares ex_sol_resolved 1 OUTCOME_PLAYER1 u) * unat (4500 :: uint256) < 2 ^ 256"
    by (simp add: ex_sol_resolved_eq)
  have h11: "sum_list (map (\<lambda>u. unat (userShares ex_sol_resolved 1 OUTCOME_PLAYER1 u)) [4, 5])
               \<le> unat (3000 :: uint256)"
    by (simp add: ex_sol_resolved_eq)
  have h12: "unat (4500 :: uint256) \<le> balanceOf (token ex_sol_resolved) (this ex_sol_resolved)"
    by (simp add: ex_sol_resolved_eq)
  have sh: "userShares ex_sol_resolved 1 OUTCOME_PLAYER1 4 = 1000"
    "userShares ex_sol_resolved 1 OUTCOME_PLAYER1 5 = 2000"
    "balanceOf (token ex_sol_resolved) 99 = 14500" "this ex_sol_resolved = 99"
    by (simp_all add: ex_sol_resolved_eq)
  note t = claimed_rewards_bounded_by_snapshot
    [OF h1 h2 h3 h4 h5 h6 h7 h8 h9 h10 h11 h12 refl refl]
  have each: "hasClaimed ?s' 1 4 \<and> balanceOf (token ?s') 4 = balanceOf (token ex_sol_resolved) 4 + 1500"
    "hasClaimed ?s' 1 5 \<and> balanceOf (token ?s') 5 = balanceOf (token ex_sol_resolved) 5 + 3000"
    using t by (simp_all add: sh)
  have paid: "balanceOf (token ex_sol_resolved) 99 - balanceOf (token ?s') 99 = 4500"
    using t by (simp add: sh)
  show ?thesis
    using h2 h3 h5 h7 sh(1-3) each paid by simp
qed

section \<open>The potential-reward query\<close>

lemma ex_pm_resolved_eq:
  "ex_pm_resolved =
     \<lparr>market_stores = [10 \<mapsto> [1 \<mapsto>
        \<lparr>m_admin = 10, match_id = 1, m_player1 = 11, m_player2 = 12, m_status = 2,
         winning_outcome = 1, m_pool = 4500, original_pool_size = 4500,
         player1_shares = 3000, player2_shares = 1500, draw_shares = 0\<rparr>]],
      shares_stores = [10 \<mapsto> [1 \<mapsto> [1 \<mapsto> [20 \<mapsto> 1000, 21 \<mapsto> 2000], 2 \<mapsto> [22 \<mapsto> 1500]]]],
      claim_stores = [10 \<mapsto> [1 \<mapsto> Map.empty]],
      coin_store = (\<lambda>x. if x = 20 then 9999999000 else if x = 21 then 9999998000
                         else if x = 22 then 9999998500 else 10000000000)\<rparr>"
  by (simp add: ex_pm_resolved_def ex_pm_created_eq pm_ops Let_def fun_eq_iff)

lemma ex_pm_first_claimed_eq:
  "ex_pm_first_claimed =
     \<lparr>market_stores = [10 \<mapsto> [1 \<mapsto>
        \<lparr>m_admin = 10, match_id = 1, m_player1 = 11, m_player2 = 12, m_status = 2,
         winning_outcome = 1, m_pool = 3000, original_pool_size = 4500,
         player1_shares = 3000, player2_shares = 1500, draw_shares = 0\<rparr>]],
      shares_stores = [10 \<mapsto> [1 \<mapsto> [1 \<mapsto> [21 \<mapsto> 2000], 2 \<mapsto> [22 \<mapsto> 1500]]]],
      claim_stores = [10 \<mapsto> [1 \<mapsto> [20 \<mapsto> True]]],
      coin_store = (\<lambda>x. if x = 20 then 10000000500 else if x = 21 then 9999998000
                         else if x = 22 then 9999998500 else 10000000000)\<rparr>"
  by (simp add: ex_pm_first_claimed_def ex_pm_resolved_eq pm_ops Let_def fun_eq_iff)


text \<open>
  Claim C7 says that on a resolved market the potential-reward query returns the
  claim formula over the frozen snapshot, whatever has been paid out since.  The
  Move \<^verbatim>\<open>get_potential_reward\<close> reads \<^verbatim>\<open>coin::value(&market.pool)\<close>, which
  \<^verbatim>\<open>claim_rewards\<close> lowers.  In the two-winner example, before anyone claims the
  query gives account \<open>21\<close> its reward \<open>2000 * 4500 / 3000 = 3000\<close>; after account
  \<open>20\<close> has claimed \<open>1500\<close> it gives \<open>2000 * 3000 / 3000 = 2000\<close>, while the claim of
  account \<open>21\<close> still pays \<open>3000\<close>.
\<close>

theorem get_potential_reward_after_claim_uses_live_pool:
  "market_at ex_pm_first_claimed 10 1 = Some
     \<lparr>m_admin = 10, match_id = 1, m_player1 = 11, m_player2 = 12,
      m_status = STATUS_RESOLVED, winning_outcome = OUTCOME_PLAYER1, m_pool = 3000,
      original_pool_size = 4500, player1_shares = 3000, player2_shares = 1500,
      draw_shares = 0\<rparr> \<and>
   get_user_shares ex_pm_first_claimed 10 1 OUTCOME_PLAYER1 21 = Inr 2000 \<and>
   reward_of 2000 4500 3000 = Inr 3000 \<and>
   get_potential_reward ex_pm_resolved 10 1 OUTCOME_PLAYER1 21 = Inr 3000 \<and>
   get_potential_reward ex_pm_first_claimed 10 1 OUTCOME_PLAYER1 21 = Inr 2000 \<and>
   coin_store (pm_run ex_pm_first_claimed [ClaimRewards 21 10 1]) 21
     = coin_store ex_pm_first_claimed 21 + 3000"
  by (simp add: ex_pm_first_claimed_eq ex_pm_resolved_eq market_at_def get_user_shares_def
      get_potential_reward_def pm_ops Let_def)

subsection \<open>The Solidity sibling\<close>

lemma bet_snapshot_frozen:
  assumes "bet s sender mid outcome amt = Inr s'"
    and "status (markets s m) = STATUS_RESOLVED \<longrightarrow> pool (markets s m) = originalPoolSize (markets s m)"
  shows "status (markets s' m) = STATUS_RESOLVED \<longrightarrow> pool (markets s' m) = originalPoolSize (markets s' m)"
  using assms(1)
proof (cases rule: bet_Inr_cases)
  case (1 tok' market1 pool' shares')
  note f = addOutcomeShares_Inr [OF 1(6)]
  show ?thesis
  proof (cases "m = mid")
    case False
    with 1(9) assms(2) show ?thesis by simp
  next
    case True
    with 1(4,9) show ?thesis
      by (simp add: f(7) STATUS_ACTIVE_def STATUS_RESOLVED_def)
  qed
qed

lemma sol_exec_snapshot_frozen:
  assumes "sol_exec s c = Inr s'"
    and "status (markets s m) = STATUS_RESOLVED \<longrightarrow> pool (markets s m) = originalPoolSize (markets s m)"
  shows "status (markets s' m) = STATUS_RESOLVED \<longrightarrow> pool (markets s' m) = originalPoolSize (markets s' m)"
proof (cases c)
  case (CallCreateMarket sender mid p1 p2)
  with assms show ?thesis
    by (auto simp: createMarket_def STATUS_ACTIVE_def STATUS_RESOLVED_def split: if_splits)
next
  case (CallBet sender mid outcome amt)
  with assms bet_snapshot_frozen [of s sender mid outcome amt s' m] show ?thesis by simp
next
  case (CallResolveMarket sender mid outcome)
  with assms show ?thesis by (auto simp: resolveMarket_def split: if_splits)
next
  case (CallClaimRewards sender mid)
  with assms show ?thesis by (simp add: claimRewards_markets)
qed

lemma sol_run_snapshot_frozen:
  assumes "status (markets s m) = STATUS_RESOLVED \<longrightarrow> pool (markets s m) = originalPoolSize (markets s m)"
  shows "status (markets (sol_run s cs) m) = STATUS_RESOLVED \<longrightarrow>
           pool (markets (sol_run s cs) m) = originalPoolSize (markets (sol_run s cs) m)"
  using assms
proof (induction cs arbitrary: s)
  case Nil
  then show ?case by simp
next
  case (Cons c cs)
  show ?case
  proof (cases "sol_exec s c")
    case (Inl e)
    with Cons show ?thesis by simp
  next
    case (Inr s')
    from Cons.IH [OF sol_exec_snapshot_frozen [OF Inr Cons.prems]] Inr show ?thesis by simp
  qed
qed

text \<open>
  The Solidity \<^verbatim>\<open>getPotentialReward\<close> also reads the live \<^verbatim>\<open>pool\<close>, but that contract
  never lowers \<^verbatim>\<open>pool\<close>: in every state reached from deployment a resolved market
  has \<open>pool = originalPoolSize\<close>, and the query agrees with the claim formula.
\<close>

lemma getPotentialReward_resolved_uses_snapshot:
  assumes "s = sol_run (deployed self tok) cs"
    and "admin (markets s mid) \<noteq> 0" and "status (markets s mid) = STATUS_RESOLVED"
    and "userShares s mid (winningOutcome (markets s mid)) u \<noteq> 0"
    and "outcomeSharesOf (markets s mid) (winningOutcome (markets s mid)) \<noteq> 0"
  shows "getPotentialReward s mid (winningOutcome (markets s mid)) u =
           rewardOf (userShares s mid (winningOutcome (markets s mid)) u)
             (originalPoolSize (markets s mid))
             (outcomeSharesOf (markets s mid) (winningOutcome (markets s mid)))"
proof -
  have "status (markets s mid) = STATUS_RESOLVED \<longrightarrow>
          pool (markets s mid) = originalPoolSize (markets s mid)"
    unfolding assms(1)
    by (rule sol_run_snapshot_frozen) (simp add: deployed_def STATUS_RESOLVED_def)
  with assms(2-5) show ?thesis
    by (simp add: getPotentialReward_def Let_def)
qed


section \<open>Read-only queries\<close>

lemma claimRewards_Inr_cases:
  assumes "claimRewards s sender mid = Inr s'"
  obtains reward tok' where
    "admin (markets s mid) \<noteq> 0" "status (markets s mid) = STATUS_RESOLVED"
    "winningOutcome (markets s mid) \<noteq> 0" "\<not> hasClaimed s mid sender"
    "userShares s mid (winningOutcome (markets s mid)) sender \<noteq> 0"
    "outcomeSharesOf (markets s mid) (winningOutcome (markets s mid)) \<noteq> 0"
    "rewardOf (userShares s mid (winningOutcome (markets s mid)) sender)
       (originalPoolSize (markets s mid))
       (outcomeSharesOf (markets s mid) (winningOutcome (markets s mid))) = Inr reward"
    "safeTransfer (token s) (this s) sender reward = Inr tok'"
    "s' = s\<lparr>hasClaimed := (hasClaimed s)(mid := (hasClaimed s mid)(sender := True)),
            userShares := (userShares s)(mid := (userShares s mid)
              (winningOutcome (markets s mid) :=
                 (userShares s mid (winningOutcome (markets s mid)))(sender := 0))),
            token := tok'\<rparr>"
  using assms unfolding claimRewards_def
  by (auto simp: Let_def split: if_splits sum.splits)

lemma sol_exec_absent_clean:
  assumes "sol_exec s c = Inr s'"
    and "admin (markets s m) = 0 \<longrightarrow> (\<forall>oc u. userShares s m oc u = 0 \<and> \<not> hasClaimed s m u)"
  shows "admin (markets s' m) = 0 \<longrightarrow> (\<forall>oc u. userShares s' m oc u = 0 \<and> \<not> hasClaimed s' m u)"
proof (cases c)
  case (CallCreateMarket sender mid p1 p2)
  with assms show ?thesis
    by (auto simp: createMarket_def split: if_splits)
next
  case (CallBet sender mid outcome amt)
  with assms(1) have "bet s sender mid outcome amt = Inr s'" by simp
  then show ?thesis
  proof (cases rule: bet_Inr_cases)
    case (1 tok' market1 pool' shares')
    note f = addOutcomeShares_Inr [OF 1(6)]
    show ?thesis
    proof (cases "m = mid")
      case True
      with 1(3,9) show ?thesis by (simp add: f(6))
    next
      case False
      with 1(9) assms(2) show ?thesis by simp
    qed
  qed
next
  case (CallResolveMarket sender mid outcome)
  with assms show ?thesis by (auto simp: resolveMarket_def split: if_splits)
next
  case (CallClaimRewards sender mid)
  with assms(1) have "claimRewards s sender mid = Inr s'" by simp
  then show ?thesis
  proof (cases rule: claimRewards_Inr_cases)
    case (1 reward tok')
    show ?thesis
    proof (cases "m = mid")
      case True
      with 1(1,9) show ?thesis by simp
    next
      case False
      with 1(9) assms(2) show ?thesis by simp
    qed
  qed
qed

lemma sol_run_absent_clean:
  assumes "admin (markets s m) = 0 \<longrightarrow> (\<forall>oc u. userShares s m oc u = 0 \<and> \<not> hasClaimed s m u)"
  shows "admin (markets (sol_run s cs) m) = 0 \<longrightarrow>
           (\<forall>oc u. userShares (sol_run s cs) m oc u = 0 \<and> \<not> hasClaimed (sol_run s cs) m u)"
  using assms
proof (induction cs arbitrary: s)
  case Nil
  then show ?case by simp
next
  case (Cons c cs)
  show ?case
  proof (cases "sol_exec s c")
    case (Inl e)
    with Cons show ?thesis by simp
  next
    case (Inr s')
    from Cons.IH [OF sol_exec_absent_clean [OF Inr Cons.prems]] Inr show ?thesis by simp
  qed
qed

lemma deployed_absent_clean:
  assumes "s = sol_run (deployed self tok) cs" and "admin (markets s m) = 0"
  shows "userShares s m oc u = 0" and "\<not> hasClaimed s m u"
proof -
  have "admin (markets s m) = 0 \<longrightarrow> (\<forall>oc u. userShares s m oc u = 0 \<and> \<not> hasClaimed s m u)"
    unfolding assms(1) by (rule sol_run_absent_clean) (simp add: deployed_def)
  with assms(2) show "userShares s m oc u = 0" and "\<not> hasClaimed s m u" by simp_all
qed

lemma sol_queries:
  assumes "s = sol_run (deployed self tok) cs"
  shows "marketExists s mid = Inr (admin (markets s mid) \<noteq> 0)"
    and "getUserShares s mid outcome user = Inr (userShares s mid outcome user)"
    and "getUserAllShares s mid user =
           Inr (userShares s mid OUTCOME_PLAYER1 user, userShares s mid OUTCOME_PLAYER2 user,
                userShares s mid OUTCOME_DRAW user)"
    and "hasUserClaimed s mid user = Inr (hasClaimed s mid user)"
    and "unat (userShares s mid outcome user) * unat (pool (markets s mid)) < 2 ^ 256 \<longrightarrow>
           (\<exists>r. getPotentialReward s mid outcome user = Inr r)"
    and "getMarketStats s mid =
           (if admin (markets s mid) = 0 then Inl MarketNotFound
            else Inr (status (markets s mid), winningOutcome (markets s mid), pool (markets s mid),
                      player1Shares (markets s mid), player2Shares (markets s mid),
                      drawShares (markets s mid)))"
    and "admin (markets s mid) = 0 \<longrightarrow>
           marketExists s mid = Inr False \<and> getUserShares s mid outcome user = Inr 0 \<and>
           getUserAllShares s mid user = Inr (0, 0, 0) \<and> hasUserClaimed s mid user = Inr False \<and>
           getPotentialReward s mid outcome user = Inr 0"
proof -
  show "marketExists s mid = Inr (admin (markets s mid) \<noteq> 0)"
    by (simp add: marketExists_def)
  show "getUserShares s mid outcome user = Inr (userShares s mid outcome user)"
    by (simp add: getUserShares_def)
  show "getUserAllShares s mid user =
           Inr (userShares s mid OUTCOME_PLAYER1 user, userShares s mid OUTCOME_PLAYER2 user,
                userShares s mid OUTCOME_DRAW user)"
    by (simp add: getUserAllShares_def)
  show "hasUserClaimed s mid user = Inr (hasClaimed s mid user)"
    by (simp add: hasUserClaimed_def)
  show "unat (userShares s mid outcome user) * unat (pool (markets s mid)) < 2 ^ 256 \<longrightarrow>
           (\<exists>r. getPotentialReward s mid outcome user = Inr r)"
    by (simp add: getPotentialReward_def Let_def rewardOf_def u256_mul_def)
  show "getMarketStats s mid =
           (if admin (markets s mid) = 0 then Inl MarketNotFound
            else Inr (status (markets s mid), winningOutcome (markets s mid), pool (markets s mid),
                      player1Shares (markets s mid), player2Shares (markets s mid),
                      drawShares (markets s mid)))"
    by (simp add: getMarketStats_def Let_def)
  show "admin (markets s mid) = 0 \<longrightarrow>
           marketExists s mid = Inr False \<and> getUserShares s mid outcome user = Inr 0 \<and>
           getUserAllShares s mid user = Inr (0, 0, 0) \<and> hasUserClaimed s mid user = Inr False \<and>
           getPotentialReward s mid outcome user = Inr 0"
    using deployed_absent_clean [OF assms, of mid]
    by (simp add: marketExists_def getUserShares_def getUserAllShares_def hasUserClaimed_def
        getPotentialReward_def)
qed

lemma add_user_shares_other:
  assumes "add_user_shares shares mid outcome u amt = Inr shares'" and "m \<noteq> mid"
  shows "shares' m = shares m"
  using assms
  by (auto simp: add_user_shares_def Let_def split: sum.splits)

lemma pm_exec_tidy:
  assumes "pm_exec s c = Inr s'" and "pm_tidy s a m"
  shows "pm_tidy s' a m"
proof (cases c)
  case (PmInitialize a')
  with assms show ?thesis
    by (auto simp: pm_initialize_def pm_tidy_def market_at_def Let_def
        split: if_splits option.splits)
next
  case (CreateMarket a' m' p1 p2)
  with assms show ?thesis
    by (auto simp: create_market_def pm_tidy_def market_at_def
        split: if_splits option.splits)
next
  case (Bet u a' m' outcome amt)
  with assms(1) have "pm_bet s u a' m' outcome amt = Inr s'" by simp
  then show ?thesis
  proof (cases rule: pm_bet_Inr_cases)
    case (1 store market coins' pool' market' shares shares')
    show ?thesis
    proof (cases "a = a'")
      case False
      with 1(11) assms(2) show ?thesis
        by (auto simp: pm_tidy_def market_at_def)
    next
      case True
      show ?thesis
      proof (cases "m = m'")
        case True
        with \<open>a = a'\<close> 1(3,9,11) assms(2) show ?thesis
          by (auto simp: pm_tidy_def market_at_def)
      next
        case False
        with \<open>a = a'\<close> 1(3,9,11) assms(2) add_user_shares_other [OF 1(10), of m]
        show ?thesis
          by (auto simp: pm_tidy_def market_at_def split: option.splits)
      qed
    qed
  qed
next
  case (ResolveMarket a' m' outcome)
  with assms(1) have "resolve_market s a' m' outcome = Inr s'" by simp
  then show ?thesis
  proof (cases rule: resolve_market_Inr_cases)
    case (1 store market claims)
    with assms(2) show ?thesis
      by (auto simp: pm_tidy_def market_at_def split: option.splits if_splits)
  qed
next
  case (ClaimRewards u a' m')
  with assms(1) have "claim_rewards s u a' m' = Inr s'" by simp
  then show ?thesis
  proof (cases rule: claim_rewards_Inr_cases)
    case (1 store market claims claim_status shares outcome_table user_shares amt reward)
    with assms(2) show ?thesis
      by (auto simp: pm_tidy_def market_at_def split: option.splits if_splits)
  qed
qed

lemma pm_run_tidy: "pm_tidy s a m \<Longrightarrow> pm_tidy (pm_run s cs) a m"
proof (induction cs arbitrary: s)
  case Nil
  then show ?case by simp
next
  case (Cons c cs)
  show ?case
  proof (cases "pm_exec s c")
    case (Inl e)
    with Cons show ?thesis by simp
  next
    case (Inr s')
    with Cons pm_exec_tidy [OF Inr Cons.prems] show ?thesis by simp
  qed
qed

lemma pm_genesis_tidy: "pm_tidy (pm_genesis coins) a m"
  by (simp add: pm_genesis_def pm_tidy_def market_at_def)

lemma get_user_shares_total:
  assumes "shares_stores t a = Some sh"
  shows "\<exists>w. get_user_shares t a m outcome u = Inr w"
  using assms by (simp add: get_user_shares_def split: option.splits)

lemma pm_queries:
  assumes "t = pm_run (pm_genesis coins) cs" and "market_stores t a = Some store"
  shows "market_exists t a m = Inr (store m \<noteq> None)"
    and "\<exists>w. get_user_shares t a m outcome u = Inr w"
    and "\<exists>x y z. get_user_all_shares t a m u = Inr (x, y, z)"
    and "\<exists>b. has_claimed t a m u = Inr b"
    and "\<forall>w mk. get_user_shares t a m outcome u = Inr w \<and> store m = Some mk \<and>
           unat w * unat (m_pool mk) < 2 ^ 64 \<longrightarrow>
           (\<exists>r. get_potential_reward t a m outcome u = Inr r)"
    and "get_market_stats t a m =
           (case store m of
              None \<Rightarrow> Inl (Abort EMARKET_NOT_FOUND)
            | Some mk \<Rightarrow> Inr (m_status mk, winning_outcome mk, m_pool mk,
                              player1_shares mk, player2_shares mk, draw_shares mk))"
    and "store m = None \<longrightarrow>
           market_exists t a m = Inr False \<and> get_user_shares t a m outcome u = Inr 0 \<and>
           get_user_all_shares t a m u = Inr (0, 0, 0) \<and> has_claimed t a m u = Inr False \<and>
           get_potential_reward t a m outcome u = Inr 0"
proof -
  have tidy: "pm_tidy t a m"
    unfolding assms(1) by (rule pm_run_tidy [OF pm_genesis_tidy])
  from tidy assms(2) obtain sh cl where sh: "shares_stores t a = Some sh"
    and cl: "claim_stores t a = Some cl"
    by (auto simp: pm_tidy_def)
  have absent: "sh m = None \<and> cl m = None" if "store m = None"
    using tidy that assms(2) sh cl by (simp add: pm_tidy_def market_at_def)
  show "market_exists t a m = Inr (store m \<noteq> None)"
    using assms(2) by (simp add: market_exists_def)
  show "\<exists>w. get_user_shares t a m outcome u = Inr w"
    by (rule get_user_shares_total [OF sh])
  show "\<exists>x y z. get_user_all_shares t a m u = Inr (x, y, z)"
    using get_user_shares_total [OF sh, of m OUTCOME_PLAYER1 u]
      get_user_shares_total [OF sh, of m OUTCOME_PLAYER2 u]
      get_user_shares_total [OF sh, of m OUTCOME_DRAW u]
    by (auto simp: get_user_all_shares_def)
  show "\<exists>b. has_claimed t a m u = Inr b"
    using cl by (auto simp: has_claimed_def split: option.splits)
  show "\<forall>w mk. get_user_shares t a m outcome u = Inr w \<and> store m = Some mk \<and>
           unat w * unat (m_pool mk) < 2 ^ 64 \<longrightarrow>
           (\<exists>r. get_potential_reward t a m outcome u = Inr r)"
    using assms(2)
    by (auto simp: get_potential_reward_def Let_def reward_of_def u64_mul_def)
  show "get_market_stats t a m =
           (case store m of
              None \<Rightarrow> Inl (Abort EMARKET_NOT_FOUND)
            | Some mk \<Rightarrow> Inr (m_status mk, winning_outcome mk, m_pool mk,
                              player1_shares mk, player2_shares mk, draw_shares mk))"
    using assms(2) by (simp add: get_market_stats_def split: option.splits)
  show "store m = None \<longrightarrow>
           market_exists t a m = Inr False \<and> get_user_shares t a m outcome u = Inr 0 \<and>
           get_user_all_shares t a m u = Inr (0, 0, 0) \<and> has_claimed t a m u = Inr False \<and>
           get_potential_reward t a m outcome u = Inr 0"
    using assms(2) sh cl absent
    by (auto simp: market_exists_def get_user_shares_def get_user_all_shares_def
        has_claimed_def get_potential_reward_def)
qed


text \<open>
  The existence query of the Solidity escrow, \<^verbatim>\<open>escrowExists\<close>, reads the administrator
  field of the slot and never reverts; an absent or deleted record reads as \<open>false\<close>.
\<close>

lemma escrow_queries:
  shows "escrowExists ce emid = Inr (escrowAdmin (escrows ce emid) \<noteq> 0)"
    and "escrowAdmin (escrows ce emid) = 0 \<longrightarrow> escrowExists ce emid = Inr False"
    and "escrowExists (escrowDeployed eself etok) emid = Inr False"
  by (simp_all add: escrowExists_def escrowDeployed_def noEscrow_def)

text \<open>
  Claim C8 as the specification states it: every read-only query, the market stats
  tuple included, returns defaults for an absent record and never fails.  Both
  variants guard the stats query: \<^verbatim>\<open>getMarketStats\<close> reverts with \<^verbatim>\<open>MarketNotFound\<close>
  and \<^verbatim>\<open>get_market_stats\<close> aborts with \<^verbatim>\<open>EMARKET_NOT_FOUND\<close> when the match id has no
  market.
\<close>

theorem market_stats_absent_counterexample:
  "getMarketStats (deployed 99 ex_token) 1 = Inl MarketNotFound \<and>
   getMarketStats ex_sol_created 2 = Inl MarketNotFound \<and>
   get_market_stats ex_pm_created 10 2 = Inl (Abort EMARKET_NOT_FOUND)"
  by (simp add: getMarketStats_def get_market_stats_def deployed_def ex_sol_created_eq
      ex_pm_created_eq)


text \<open>
  Claim C8, amended.  In every state reached from deployment (Solidity) or from empty
  storage (Move, for an administrator whose stores are initialised), every read-only
  query other than the market stats tuple returns without error: market existence and
  escrow existence, the per-outcome share of a user, the user's shares across the
  three outcomes and the claimed flag always, the potential-reward projection
  whenever the product of the user's share and the pool fits the integer width.  For
  an absent record they return false, false, zero, three zeros, false and zero.  The
  market stats query fails with MarketNotFound for an absent record and returns the
  tuple otherwise.
\<close>

theorem queries_total_except_market_stats:
  assumes "s = sol_run (deployed self tok) cs"
    and "t = pm_run (pm_genesis coins) pcs" and "market_stores t a = Some store"
  shows
   "marketExists s mid = Inr (admin (markets s mid) \<noteq> 0) \<and>
    getUserShares s mid outcome user = Inr (userShares s mid outcome user) \<and>
    getUserAllShares s mid user =
      Inr (userShares s mid OUTCOME_PLAYER1 user, userShares s mid OUTCOME_PLAYER2 user,
           userShares s mid OUTCOME_DRAW user) \<and>
    hasUserClaimed s mid user = Inr (hasClaimed s mid user) \<and>
    (unat (userShares s mid outcome user) * unat (pool (markets s mid)) < 2 ^ 256 \<longrightarrow>
       (\<exists>r. getPotentialReward s mid outcome user = Inr r)) \<and>
    getMarketStats s mid =
      (if admin (markets s mid) = 0 then Inl MarketNotFound
       else Inr (status (markets s mid), winningOutcome (markets s mid), pool (markets s mid),
                 player1Shares (markets s mid), player2Shares (markets s mid),
                 drawShares (markets s mid))) \<and>
    (admin (markets s mid) = 0 \<longrightarrow>
       marketExists s mid = Inr False \<and> getUserShares s mid outcome user = Inr 0 \<and>
       getUserAllShares s mid user = Inr (0, 0, 0) \<and> hasUserClaimed s mid user = Inr False \<and>
       getPotentialReward s mid outcome user = Inr 0) \<and>
    market_exists t a m = Inr (store m \<noteq> None) \<and>
    (\<exists>w. get_user_shares t a m poutcome u = Inr w) \<and>
    (\<exists>x y z. get_user_all_shares t a m u = Inr (x, y, z)) \<and>
    (\<exists>b. has_claimed t a m u = Inr b) \<and>
    (\<forall>w mk. get_user_shares t a m poutcome u = Inr w \<and> store m = Some mk \<and>
       unat w * unat (m_pool mk) < 2 ^ 64 \<longrightarrow>
       (\<exists>r. get_potential_reward t a m poutcome u = Inr r)) \<and>
    get_market_stats t a m =
      (case store m of
         None \<Rightarrow> Inl (Abort EMARKET_NOT_FOUND)
       | Some mk \<Rightarrow> Inr (m_status mk, winning_outcome mk, m_pool mk,
                         player1_shares mk, player2_shares mk, draw_shares mk)) \<and>
    (store m = None \<longrightarrow>
       market_exists t a m = Inr False \<and> get_user_shares t a m poutcome u = Inr 0 \<and>
       get_user_all_shares t a m u = Inr (0, 0, 0) \<and> has_claimed t a m u = Inr False \<and>
       get_potential_reward t a m poutcome u = Inr 0) \<and>
    escrowExists ce emid = Inr (escrowAdmin (escrows ce emid) \<noteq> 0) \<and>
    (escrowAdmin (escrows ce emid) = 0 \<longrightarrow> escrowExists ce emid = Inr False) \<and>
    escrowExists (escrowDeployed eself etok) emid = Inr False"
  by (intro conjI sol_queries [OF assms(1)] pm_queries [OF assms(2,3)] escrow_queries)

theorem queries_total_except_market_stats_witness:
  "getMarketStats ex_sol_created 2 = Inl MarketNotFound \<and>
   marketExists ex_sol_created 2 = Inr False \<and>
   getUserShares ex_sol_created 2 OUTCOME_PLAYER1 4 = Inr 0 \<and>
   getUserAllShares ex_sol_created 2 4 = Inr (0, 0, 0) \<and>
   hasUserClaimed ex_sol_created 2 4 = Inr False \<and>
   getPotentialReward ex_sol_created 2 OUTCOME_PLAYER1 4 = Inr 0 \<and>
   (\<exists>r. getPotentialReward ex_sol_created 1 OUTCOME_PLAYER1 4 = Inr r) \<and>
   get_market_stats ex_pm_created 10 2 = Inl (Abort EMARKET_NOT_FOUND) \<and>
   market_exists ex_pm_created 10 2 = Inr False \<and>
   get_user_shares ex_pm_created 10 2 OUTCOME_PLAYER1 20 = Inr 0 \<and>
   get_user_all_shares ex_pm_created 10 2 20 = Inr (0, 0, 0) \<and>
   has_claimed ex_pm_created 10 2 20 = Inr False \<and>
   get_potential_reward ex_pm_created 10 2 OUTCOME_PLAYER1 20 = Inr 0 \<and>
   (\<exists>r. get_potential_reward ex_pm_created 10 1 OUTCOME_PLAYER1 20 = Inr r) \<and>
   escrowExists (ex_ce_created 10) 2 = Inr False \<and>
   escrowExists (ex_ce_created 10) 1 = Inr True \<and>
   escrowExists (ce_run (ex_ce_funded 10) [CallResolveDraw 1 1]) 1 = Inr False"
proof -
  let ?mk = "\<lparr>m_admin = 10, match_id = 1, m_player1 = 11, m_player2 = 12, m_status = 1,
         winning_outcome = 0, m_pool = 0, original_pool_size = 0, player1_shares = 0,
         player2_shares = 0, draw_shares = 0\<rparr> :: Market"
  have h1: "ex_sol_created = sol_run (deployed 99 ex_token) [CallCreateMarket 1 1 2 3]"
    by (rule ex_sol_created_def)
  have h2: "ex_pm_created
              = pm_run (pm_genesis (\<lambda>_. 10000000000)) [PmInitialize 10, CreateMarket 10 1 11 12]"
    by (rule ex_pm_created_def)
  have h3: "market_stores ex_pm_created 10 = Some [1 \<mapsto> ?mk]"
    by (simp add: ex_pm_created_eq)
  have absent: "admin (markets ex_sol_created 2) = 0" "[1 \<mapsto> ?mk] (2 :: u64) = None"
    by (simp_all add: ex_sol_created_eq deployed_def)
  have present: "unat (userShares ex_sol_created 1 OUTCOME_PLAYER1 4)
                   * unat (pool (markets ex_sol_created 1)) < 2 ^ 256"
    "[1 \<mapsto> ?mk] (1 :: u64) = Some ?mk"
    by (simp_all add: ex_sol_created_eq deployed_def)
  have shares: "get_user_shares ex_pm_created 10 1 OUTCOME_PLAYER1 20 = Inr 0"
    "unat (0 :: u64) * unat (m_pool ?mk) < 2 ^ 64"
    by (simp_all add: ex_pm_created_eq get_user_shares_def)
  note a = queries_total_except_market_stats
    [OF h1 h2 h3, of 2 OUTCOME_PLAYER1 4 2 OUTCOME_PLAYER1 20 "ex_ce_created 10" 2]
  note p = queries_total_except_market_stats
    [OF h1 h2 h3, of 1 OUTCOME_PLAYER1 4 1 OUTCOME_PLAYER1 20 "ex_ce_created 10" 1]
  note q = queries_total_except_market_stats
    [OF h1 h2 h3, of 1 OUTCOME_PLAYER1 4 1 OUTCOME_PLAYER1 20
       "ce_run (ex_ce_funded 10) [CallResolveDraw 1 1]" 1]
  have gone: "escrows (ce_run (ex_ce_funded 10) [CallResolveDraw 1 1]) 1 = noEscrow"
    by (simp add: ex_ce_funded_10 ex_sol_escrow_def ce_ops Let_def)
  have F: "escrowExists (ex_ce_created 10) 2 = Inr False"
    using a by (simp add: ex_ce_created_eq noEscrow_def)
  have G: "escrowExists (ex_ce_created 10) 1 = Inr True"
    using p by (simp add: ex_ce_created_eq ex_sol_escrow_def)
  have H: "escrowExists (ce_run (ex_ce_funded 10) [CallResolveDraw 1 1]) 1 = Inr False"
    using q gone by (simp add: noEscrow_def)
  have A: "getMarketStats ex_sol_created 2 = Inl MarketNotFound"
    "get_market_stats ex_pm_created 10 2 = Inl (Abort EMARKET_NOT_FOUND)"
    using a absent by simp_all
  have B: "marketExists ex_sol_created 2 = Inr False \<and>
           getUserShares ex_sol_created 2 OUTCOME_PLAYER1 4 = Inr 0 \<and>
           getUserAllShares ex_sol_created 2 4 = Inr (0, 0, 0) \<and>
           hasUserClaimed ex_sol_created 2 4 = Inr False \<and>
           getPotentialReward ex_sol_created 2 OUTCOME_PLAYER1 4 = Inr 0"
    using a absent(1) by blast
  have C: "market_exists ex_pm_created 10 2 = Inr False \<and>
           get_user_shares ex_pm_created 10 2 OUTCOME_PLAYER1 20 = Inr 0 \<and>
           get_user_all_shares ex_pm_created 10 2 20 = Inr (0, 0, 0) \<and>
           has_claimed ex_pm_created 10 2 20 = Inr False \<and>
           get_potential_reward ex_pm_created 10 2 OUTCOME_PLAYER1 20 = Inr 0"
    using a absent(2) by blast
  have D: "\<exists>r. getPotentialReward ex_sol_created 1 OUTCOME_PLAYER1 4 = Inr r"
    using p present(1) by blast
  have E: "\<exists>r. get_potential_reward ex_pm_created 10 1 OUTCOME_PLAYER1 20 = Inr r"
    using p present(2) shares by blast
  show ?thesis
    using A B C D E F G H by blast
qed

end
